(* ===== verification/Prelude.thy ===== *)
theory Prelude
  imports Complex_Main "HOL-Library.Char_ord" "HOL-Library.List_Lexorder"
begin

text \<open>
  Shared vocabulary of the development: Python values as HOL values, table helpers for the
  relational state, and the generic lemmas every component uses.

  \<^item> A Python \<open>str\<close> is represented by its UTF-8 encoding, a \<^typ>\<open>string\<close>
    (list of bytes). \<open>py_len\<close> counts code points, as \<open>len\<close> does.
  \<^item> A JSON value is a \<open>json\<close> term; a JSON object keeps its members in order.
  \<^item> A database table is a list of rows in insertion order. \<open>update_where\<close> is
    the effect of assigning to the attributes of a loaded row, \<open>first_by\<close> is
    \<open>ORDER BY key ASC\<close> followed by \<open>first()\<close>.
\<close>

section \<open>Collections of rewrite rules\<close>

named_theorems row_simps \<open>how table updates act on the columns they leave alone\<close>
named_theorems run_defs \<open>definitions of the transactions on the run tables\<close>

section \<open>Strings\<close>

type_synonym timestamp = int

abbreviation byte :: "char \<Rightarrow> nat" where
  "byte c \<equiv> of_char c"

definition utf8 :: "nat list \<Rightarrow> string" where
  "utf8 bs = map char_of bs"

text \<open>\<open>len(s)\<close>: every byte that is not a UTF-8 continuation byte starts a code point.\<close>

definition py_len :: "string \<Rightarrow> nat" where
  "py_len s = length (filter (\<lambda>c. \<not> (128 \<le> byte c \<and> byte c < 192)) s)"

text \<open>\<open>s[:n]\<close> on code points.\<close>

fun py_take :: "nat \<Rightarrow> string \<Rightarrow> string" where
  "py_take n [] = []"
| "py_take n (c # cs) =
     (if 128 \<le> byte c \<and> byte c < 192 then c # py_take n cs
      else (case n of 0 \<Rightarrow> [] | Suc k \<Rightarrow> c # py_take k cs))"

text \<open>
  Length in bytes of the Python whitespace character that starts a byte list, 0 if there is
  none; \<open>ws_tail\<close> is the same for a byte list read from its end.
\<close>

fun ws_head :: "nat list \<Rightarrow> nat" where
  "ws_head (a # bs) =
     (if a \<in> {9, 10, 11, 12, 13, 28, 29, 30, 31, 32} then 1
      else (case bs of
          b # cs \<Rightarrow>
            (if a = 194 \<and> b \<in> {133, 160} then 2
             else (case cs of
                 c # _ \<Rightarrow>
                   (if a = 225 \<and> b = 154 \<and> c = 128
                       \<or> a = 226 \<and> b = 128 \<and> (128 \<le> c \<and> c \<le> 138 \<or> c \<in> {168, 169, 175})
                       \<or> a = 226 \<and> b = 129 \<and> c = 159
                       \<or> a = 227 \<and> b = 128 \<and> c = 128
                    then 3 else 0)
               | [] \<Rightarrow> 0))
        | [] \<Rightarrow> 0))"
| "ws_head [] = 0"

fun ws_tail :: "nat list \<Rightarrow> nat" where
  "ws_tail (c # bs) =
     (if c \<in> {9, 10, 11, 12, 13, 28, 29, 30, 31, 32} then 1
      else (case bs of
          b # as \<Rightarrow>
            (if b = 194 \<and> c \<in> {133, 160} then 2
             else (case as of
                 a # _ \<Rightarrow> (if ws_head [a, b, c] = 3 then 3 else 0)
               | [] \<Rightarrow> 0))
        | [] \<Rightarrow> 0))"
| "ws_tail [] = 0"

function drop_ws :: "(nat list \<Rightarrow> nat) \<Rightarrow> string \<Rightarrow> string" where
  "drop_ws w s =
     (if s \<noteq> [] \<and> 0 < w (map byte s) then drop_ws w (drop (w (map byte s)) s) else s)"
  by pat_completeness auto
termination
  by (relation "measure (\<lambda>(w, s). length s)") auto

declare drop_ws.simps [simp del]

text \<open>\<open>str.strip()\<close>.\<close>

definition py_strip :: "string \<Rightarrow> string" where
  "py_strip s = rev (drop_ws ws_tail (rev (drop_ws ws_head s)))"

text \<open>\<open>str.upper()\<close> on ASCII text.\<close>

definition ascii_upper :: "char \<Rightarrow> char" where
  "ascii_upper c = (if 97 \<le> byte c \<and> byte c \<le> 122 then char_of (byte c - 32) else c)"

definition is_upper :: "char \<Rightarrow> bool" where
  "is_upper c \<longleftrightarrow> 65 \<le> byte c \<and> byte c \<le> 90"

definition is_lower :: "char \<Rightarrow> bool" where
  "is_lower c \<longleftrightarrow> 97 \<le> byte c \<and> byte c \<le> 122"

definition is_digit :: "char \<Rightarrow> bool" where
  "is_digit c \<longleftrightarrow> 48 \<le> byte c \<and> byte c \<le> 57"

text \<open>\<open>str.lower()\<close> and \<open>str.casefold()\<close> on ASCII text.\<close>

definition ascii_lower :: "char \<Rightarrow> char" where
  "ascii_lower c = (if is_upper c then char_of (byte c + 32) else c)"

definition is_alnum :: "char \<Rightarrow> bool" where
  "is_alnum c \<longleftrightarrow> is_upper c \<or> is_lower c \<or> is_digit c"

text \<open>\<open>re.fullmatch\<close> of a pattern \<open>[first][rest]{0,n}\<close> over ASCII classes.\<close>

fun fullmatch_ident :: "(char \<Rightarrow> bool) \<Rightarrow> (char \<Rightarrow> bool) \<Rightarrow> nat \<Rightarrow> string \<Rightarrow> bool" where
  "fullmatch_ident f r n [] = False"
| "fullmatch_ident f r n (c # cs) = (f c \<and> list_all r cs \<and> length cs \<le> n)"

section \<open>JSON values\<close>

datatype json =
    JNull
  | JBool bool
  | JInt int
  | JNum rat
  | JStr string
  | JList "json list"
  | JObj "(string \<times> json) list"

text \<open>\<open>d.get(k)\<close> on a value that may not be a dict.\<close>

fun jget :: "json \<Rightarrow> string \<Rightarrow> json option" where
  "jget (JObj kvs) k = map_of kvs k"
| "jget _ k = None"

fun jopt :: "('a \<Rightarrow> json) \<Rightarrow> 'a option \<Rightarrow> json" where
  "jopt f None = JNull"
| "jopt f (Some x) = f x"

section \<open>Tables\<close>

definition update_where :: "('a \<Rightarrow> bool) \<Rightarrow> ('a \<Rightarrow> 'a) \<Rightarrow> 'a list \<Rightarrow> 'a list" where
  "update_where P f xs = map (\<lambda>x. if P x then f x else x) xs"

fun first_by :: "('a \<Rightarrow> 'k::linorder) \<Rightarrow> 'a list \<Rightarrow> 'a option" where
  "first_by k [] = None"
| "first_by k (x # xs) =
     (case first_by k xs of
        None \<Rightarrow> Some x
      | Some y \<Rightarrow> if k y < k x then Some y else Some x)"

lemma update_where_simps [simp]:
  "update_where P f [] = []"
  "update_where P f (x # xs) = (if P x then f x else x) # update_where P f xs"
  "update_where P f (xs @ ys) = update_where P f xs @ update_where P f ys"
  "length (update_where P f xs) = length xs"
  by (simp_all add: update_where_def)

lemma set_update_where: "set (update_where P f xs) = f ` {x \<in> set xs. P x} \<union> {x \<in> set xs. \<not> P x}"
  by (auto simp: update_where_def)

lemma in_update_whereE:
  assumes "y \<in> set (update_where P f xs)"
  obtains x where "x \<in> set xs" "P x" "y = f x" | "y \<in> set xs" "\<not> P y"
  using assms by (auto simp: set_update_where)

text \<open>A column that the assignment leaves alone is the same list of values.\<close>

lemma map_update_where [row_simps]:
  "(\<And>x. P x \<Longrightarrow> k (f x) = k x) \<Longrightarrow> map k (update_where P f xs) = map k xs"
  by (simp add: update_where_def)

lemma update_where_none: "(\<And>x. x \<in> set xs \<Longrightarrow> \<not> P x) \<Longrightarrow> update_where P f xs = xs"
  by (induction xs) auto

lemma filter_update_where_other [row_simps]:
  "(\<And>x. P x \<Longrightarrow> \<not> Q x \<and> \<not> Q (f x)) \<Longrightarrow> filter Q (update_where P f xs) = filter Q xs"
  by (induction xs) auto

lemma find_update_where [row_simps]:
  "(\<And>x. P x \<Longrightarrow> Q (f x) = Q x) \<Longrightarrow>
   find Q (update_where P f xs) = map_option (\<lambda>x. if P x then f x else x) (find Q xs)"
  by (induction xs) auto

lemma find_map_same:
  "(\<And>x. x \<in> set xs \<Longrightarrow> P (f x) = P x) \<Longrightarrow> find P (map f xs) = map_option f (find P xs)"
  by (induction xs) auto

lemma find_SomeD: "find P xs = Some x \<Longrightarrow> x \<in> set xs \<and> P x"
  by (induction xs) (auto split: if_splits)

lemma find_NoneD: "find P xs = None \<Longrightarrow> x \<in> set xs \<Longrightarrow> \<not> P x"
  by (auto simp: find_None_iff)

text \<open>A lookup by a unique key finds the row that has it.\<close>

lemma find_unique:
  assumes "distinct (map k xs)" and "x \<in> set xs"
  shows "find (\<lambda>y. k y = k x) xs = Some x"
  using assms by (induction xs) (auto simp: rev_image_eqI)

lemma distinct_key_unique:
  assumes "distinct (map k xs)" and "x \<in> set xs" and "y \<in> set xs" and "k x = k y"
  shows "x = y"
  using assms by (auto simp: distinct_map inj_on_def)

lemma first_by_None [simp]: "first_by k xs = None \<longleftrightarrow> xs = []"
  by (cases xs) (auto split: option.splits)

lemma first_by_Some:
  assumes "first_by k xs = Some x"
  shows "x \<in> set xs \<and> (\<forall>y \<in> set xs. k x \<le> k y)"
  using assms
proof (induction xs arbitrary: x)
  case (Cons a xs)
  show ?case
  proof (cases "first_by k xs")
    case None
    with Cons.prems show ?thesis by auto
  next
    case (Some y)
    with Cons show ?thesis by (fastforce split: if_splits)
  qed
qed simp

text \<open>Unique columns that may be null.\<close>

lemma distinct_map_filter_iff:
  assumes "distinct xs"
  shows "distinct (List.map_filter g xs) \<longleftrightarrow>
    (\<forall>x \<in> set xs. \<forall>y \<in> set xs. g x \<noteq> None \<longrightarrow> g x = g y \<longrightarrow> x = y)"
  using assms
  by (auto simp: List.map_filter_def distinct_map inj_on_def)

lemma map_filter_snoc:
  "List.map_filter f (xs @ [x]) = List.map_filter f xs @ (case f x of None \<Rightarrow> [] | Some y \<Rightarrow> [y])"
  by (simp add: List.map_filter_def split: option.splits)

section \<open>Stripping\<close>

text \<open>A stripped side is a fixed point of stripping, and what is left is a suffix.\<close>

lemma drop_ws_done: "drop_ws w s = [] \<or> w (map byte (drop_ws w s)) = 0"
proof (induction w s rule: drop_ws.induct)
  case (1 w s)
  then show ?case
    by (cases "s \<noteq> [] \<and> 0 < w (map byte s)") (auto simp: drop_ws.simps [of w s])
qed

lemma drop_ws_fixed: "s = [] \<or> w (map byte s) = 0 \<Longrightarrow> drop_ws w s = s"
  by (subst drop_ws.simps) auto

lemma drop_ws_suffix: "\<exists>p. s = p @ drop_ws w s"
proof (induction w s rule: drop_ws.induct)
  case (1 w s)
  show ?case
  proof (cases "s \<noteq> [] \<and> 0 < w (map byte s)")
    case True
    then obtain p where "drop (w (map byte s)) s = p @ drop_ws w (drop (w (map byte s)) s)"
      using "1.IH" by auto
    then have "s = (take (w (map byte s)) s @ p) @ drop_ws w (drop (w (map byte s)) s)"
      by (metis append.assoc append_take_drop_id)
    moreover have "drop_ws w s = drop_ws w (drop (w (map byte s)) s)"
      using True by (subst drop_ws.simps) simp
    ultimately show ?thesis by metis
  next
    case False
    then have "s = [] @ drop_ws w s" by (subst drop_ws.simps) auto
    then show ?thesis by blast
  qed
qed

text \<open>Whitespace at the head stays whitespace when the text is extended to the right.\<close>

lemma ws_head_append: "0 < ws_head bs \<Longrightarrow> 0 < ws_head (bs @ cs)"
  by (cases bs rule: ws_head.cases) (auto split: list.splits if_splits)

lemma py_strip_idem [simp]: "py_strip (py_strip s) = py_strip s"
proof -
  define t where "t = drop_ws ws_head s"
  define u where "u = drop_ws ws_tail (rev t)"
  have t0: "t = [] \<or> ws_head (map byte t) = 0"
    unfolding t_def by (rule drop_ws_done)
  obtain p where "rev t = p @ u"
    unfolding u_def using drop_ws_suffix by blast
  then have t: "t = rev u @ rev p"
    by (metis rev_append rev_rev_ident)
  have "rev u = [] \<or> ws_head (map byte (rev u)) = 0"
    using t0 ws_head_append [of "map byte (rev u)" "map byte (rev p)"] unfolding t
    by auto
  then have "drop_ws ws_head (rev u) = rev u"
    by (rule drop_ws_fixed)
  moreover have "drop_ws ws_tail u = u"
    unfolding u_def by (rule drop_ws_fixed, rule drop_ws_done)
  ultimately show ?thesis
    by (simp add: py_strip_def flip: t_def u_def)
qed

text \<open>Printable ASCII text is not changed.\<close>

lemma py_strip_ascii:
  assumes "list_all (\<lambda>c. 32 < byte c \<and> byte c < 128) s"
  shows "py_strip s = s"
proof -
  have head: "ws_head bs = 0" if "list_all (\<lambda>b. 32 < b \<and> b < 128) bs" for bs
    using that by (cases bs rule: ws_head.cases) (auto split: list.splits)
  have tail: "ws_tail bs = 0" if "list_all (\<lambda>b. 32 < b \<and> b < 128) bs" for bs
    using that by (cases bs rule: ws_tail.cases) (auto split: list.splits)
  have "drop_ws ws_head s = s"
    using assms by (intro drop_ws_fixed disjI2 head) (simp add: list.pred_map comp_def)
  moreover have "drop_ws ws_tail (rev s) = rev s"
    using assms by (intro drop_ws_fixed disjI2 tail) (simp add: list.pred_map comp_def)
  ultimately show ?thesis by (simp add: py_strip_def)
qed

lemma ascii_upper_id: "\<not> is_lower c \<Longrightarrow> ascii_upper c = c"
  by (auto simp: ascii_upper_def is_lower_def)

end
