(* ===== verification/Errors.thy ===== *)
theory Errors
  imports Prelude
begin

text \<open>
  The error contract of \<^verbatim>\<open>src/backend/core/errors.py\<close>: stable error codes, the
  normalising constructor of \<open>PublicError\<close>, and the JSON form under which a failed Run
  persists its error. The JSON text layer (\<open>json.dumps\<close> / \<open>json.loads\<close>) is the
  standard library's; the model goes through the JSON value itself.
\<close>

section \<open>Error codes\<close>

datatype error_code =
    INVALID_REQUEST | AUTHENTICATION_REQUIRED | PERMISSION_DENIED | POLICY_DENIED
  | NOT_FOUND | CONFLICT | RATE_LIMITED | RATE_LIMIT_UNAVAILABLE | MODEL_RATE_LIMITED
  | MODEL_TIMEOUT | MODEL_UNAVAILABLE | MODEL_CALL_LIMIT_EXCEEDED | EMBEDDING_TIMEOUT
  | EMBEDDING_UNAVAILABLE | VECTOR_STORE_TIMEOUT | VECTOR_STORE_UNAVAILABLE
  | RERANK_TIMEOUT | RERANK_UNAVAILABLE | TOOL_TIMEOUT | TOOL_UNAVAILABLE
  | WEB_TOOL_RESULT_CONTEXT_BUDGET_EXCEEDED | PROVIDER_TIMEOUT | UPLOAD_INVALID
  | UPLOAD_TOO_LARGE | DOCUMENT_PARSE_FAILED | STORAGE_UNAVAILABLE | RUN_ACTIVE
  | RUN_NOT_FOUND | RUN_STATE_CONFLICT | RUN_CANCELLED | RUN_INTERRUPTED
  | RUN_EXECUTION_FAILED | IDEMPOTENCY_CONFLICT | THREAD_VERSION_CONFLICT | INTERNAL_ERROR

text \<open>The exceptions the modelled code raises. \<open>AppError code status retryable details\<close>.\<close>

datatype exn =
    AppError error_code int bool "(string \<times> json) list"
  | IntegrityError
  | ValueError
  | TypeError
  | RuntimeError

abbreviation app_error :: "error_code \<Rightarrow> int \<Rightarrow> exn" where
  "app_error c s \<equiv> AppError c s False []"

fun error_value :: "error_code \<Rightarrow> string" where
  "error_value INVALID_REQUEST = ''INVALID_REQUEST''"
| "error_value AUTHENTICATION_REQUIRED = ''AUTHENTICATION_REQUIRED''"
| "error_value PERMISSION_DENIED = ''PERMISSION_DENIED''"
| "error_value POLICY_DENIED = ''POLICY_DENIED''"
| "error_value NOT_FOUND = ''NOT_FOUND''"
| "error_value CONFLICT = ''CONFLICT''"
| "error_value RATE_LIMITED = ''RATE_LIMITED''"
| "error_value RATE_LIMIT_UNAVAILABLE = ''RATE_LIMIT_UNAVAILABLE''"
| "error_value MODEL_RATE_LIMITED = ''MODEL_RATE_LIMITED''"
| "error_value MODEL_TIMEOUT = ''MODEL_TIMEOUT''"
| "error_value MODEL_UNAVAILABLE = ''MODEL_UNAVAILABLE''"
| "error_value MODEL_CALL_LIMIT_EXCEEDED = ''MODEL_CALL_LIMIT_EXCEEDED''"
| "error_value EMBEDDING_TIMEOUT = ''EMBEDDING_TIMEOUT''"
| "error_value EMBEDDING_UNAVAILABLE = ''EMBEDDING_UNAVAILABLE''"
| "error_value VECTOR_STORE_TIMEOUT = ''VECTOR_STORE_TIMEOUT''"
| "error_value VECTOR_STORE_UNAVAILABLE = ''VECTOR_STORE_UNAVAILABLE''"
| "error_value RERANK_TIMEOUT = ''RERANK_TIMEOUT''"
| "error_value RERANK_UNAVAILABLE = ''RERANK_UNAVAILABLE''"
| "error_value TOOL_TIMEOUT = ''TOOL_TIMEOUT''"
| "error_value TOOL_UNAVAILABLE = ''TOOL_UNAVAILABLE''"
| "error_value WEB_TOOL_RESULT_CONTEXT_BUDGET_EXCEEDED =
     ''WEB_TOOL_RESULT_CONTEXT_BUDGET_EXCEEDED''"
| "error_value PROVIDER_TIMEOUT = ''PROVIDER_TIMEOUT''"
| "error_value UPLOAD_INVALID = ''UPLOAD_INVALID''"
| "error_value UPLOAD_TOO_LARGE = ''UPLOAD_TOO_LARGE''"
| "error_value DOCUMENT_PARSE_FAILED = ''DOCUMENT_PARSE_FAILED''"
| "error_value STORAGE_UNAVAILABLE = ''STORAGE_UNAVAILABLE''"
| "error_value RUN_ACTIVE = ''RUN_ACTIVE''"
| "error_value RUN_NOT_FOUND = ''RUN_NOT_FOUND''"
| "error_value RUN_STATE_CONFLICT = ''RUN_STATE_CONFLICT''"
| "error_value RUN_CANCELLED = ''RUN_CANCELLED''"
| "error_value RUN_INTERRUPTED = ''RUN_INTERRUPTED''"
| "error_value RUN_EXECUTION_FAILED = ''RUN_EXECUTION_FAILED''"
| "error_value IDEMPOTENCY_CONFLICT = ''IDEMPOTENCY_CONFLICT''"
| "error_value THREAD_VERSION_CONFLICT = ''THREAD_VERSION_CONFLICT''"
| "error_value INTERNAL_ERROR = ''INTERNAL_ERROR''"

definition code_pattern :: "string \<Rightarrow> bool" where
  "code_pattern s = fullmatch_ident is_upper (\<lambda>c. is_upper c \<or> is_digit c \<or> c = CHR ''_'') 63 s"

definition label_char :: "char \<Rightarrow> bool" where
  "label_char c \<longleftrightarrow> is_alnum c \<or> c \<in> set ''_.:-''"

definition label_pattern :: "string \<Rightarrow> bool" where
  "label_pattern s = fullmatch_ident label_char label_char 79 s"

definition code_value :: "string \<Rightarrow> string" where
  "code_value code =
     (let value = map ascii_upper (py_strip code)
      in if code_pattern value then value else error_value INTERNAL_ERROR)"

definition safe_label :: "string option \<Rightarrow> string option" where
  "safe_label v =
     (case v of None \<Rightarrow> None
      | Some s \<Rightarrow> (let label = py_strip s in if label_pattern label then Some label else None))"

text \<open>A retry delay is a finite number or absent; a float that is not finite is \<open>None\<close>.\<close>

definition safe_retry_after :: "rat option \<Rightarrow> rat option" where
  "safe_retry_after v = (case v of None \<Rightarrow> None | Some x \<Rightarrow> if x < 0 then None else Some x)"

definition status_for_code :: "string \<Rightarrow> int" where
  "status_for_code code =
     (let value = code_value code in
      if value \<in> set [error_value RATE_LIMITED, error_value MODEL_RATE_LIMITED,
                     ''RERANK_RATE_LIMITED''] then 429
      else if value \<in> set [error_value MODEL_TIMEOUT, error_value EMBEDDING_TIMEOUT,
                     error_value VECTOR_STORE_TIMEOUT, error_value RERANK_TIMEOUT,
                     error_value TOOL_TIMEOUT, error_value PROVIDER_TIMEOUT,
                     ''PROVIDER_DEADLINE_EXCEEDED''] then 504
      else if value \<in> set [error_value MODEL_UNAVAILABLE, error_value EMBEDDING_UNAVAILABLE,
                     error_value VECTOR_STORE_UNAVAILABLE, error_value RERANK_UNAVAILABLE,
                     error_value TOOL_UNAVAILABLE, error_value STORAGE_UNAVAILABLE,
                     error_value RATE_LIMIT_UNAVAILABLE,
                     ''PROVIDER_AUTHENTICATION_FAILED''] then 503
      else if value = ''PROVIDER_REQUEST_INVALID'' then 502
      else if value = error_value WEB_TOOL_RESULT_CONTEXT_BUDGET_EXCEEDED then 422
      else if value = error_value MODEL_CALL_LIMIT_EXCEEDED then 422
      else if value \<in> set [error_value PERMISSION_DENIED, error_value POLICY_DENIED] then 403
      else 500)"

section \<open>PublicError\<close>

record public_error =
  pe_code :: string
  pe_message :: string
  pe_status_code :: int
  pe_retryable :: bool
  pe_category :: "string option"
  pe_stage :: "string option"
  pe_provider :: "string option"
  pe_retry_after :: "rat option"
  pe_details :: "(string \<times> json) list"

definition default_message :: string where
  "default_message = utf8 [230, 156, 141, 229, 138, 161, 230, 154, 130, 230, 151, 182, 228, 184,
     141, 229, 143, 175, 231, 148, 168, 239, 188, 140, 232, 175, 183, 231, 168, 141, 229, 144, 142,
     233, 135, 141, 232, 175, 149]"

text \<open>\<open>PublicError.__post_init__\<close>: the constructor normalises every field.\<close>

definition normalize_public_error :: "public_error \<Rightarrow> public_error" where
  "normalize_public_error p =
     (let code = code_value (pe_code p);
          message = py_strip (pe_message p);
          status = (if pe_status_code p = 0 then status_for_code code else pe_status_code p)
      in \<lparr> pe_code = code,
           pe_message = (if message = '''' then default_message else message),
           pe_status_code = (if 400 \<le> status \<and> status \<le> 599 then status else 500),
           pe_retryable = pe_retryable p,
           pe_category = safe_label (pe_category p),
           pe_stage = safe_label (pe_stage p),
           pe_provider = safe_label (pe_provider p),
           pe_retry_after = safe_retry_after (pe_retry_after p),
           pe_details = pe_details p \<rparr>)"

definition PublicError ::
    "string \<Rightarrow> string \<Rightarrow> int \<Rightarrow> bool \<Rightarrow> string option \<Rightarrow> string option \<Rightarrow> public_error" where
  "PublicError code message status retryable category stage =
     normalize_public_error
       \<lparr> pe_code = code, pe_message = message, pe_status_code = status,
         pe_retryable = retryable, pe_category = category, pe_stage = stage,
         pe_provider = None, pe_retry_after = None, pe_details = [] \<rparr>"

definition contract :: "public_error \<Rightarrow> (string \<times> json) list" where
  "contract p =
     [(''code'', JStr (pe_code p)),
      (''message'', JStr (pe_message p)),
      (''retryable'', JBool (pe_retryable p)),
      (''category'', jopt JStr (pe_category p)),
      (''stage'', jopt JStr (pe_stage p)),
      (''provider'', jopt JStr (pe_provider p)),
      (''retry_after'', jopt JNum (pe_retry_after p))]"

definition public_error_format :: string where
  "public_error_format = ''public_error_v1''"

definition serialize_public_error :: "public_error \<Rightarrow> json" where
  "serialize_public_error p = JObj ((''format'', JStr public_error_format) # contract p)"

text \<open>Python truthiness of a JSON value, and \<open>str\<close>/\<open>float\<close> of a field that may be absent.\<close>

fun truthy :: "json \<Rightarrow> bool" where
  "truthy JNull = False"
| "truthy (JBool b) = b"
| "truthy (JInt i) = (i \<noteq> 0)"
| "truthy (JNum q) = (q \<noteq> 0)"
| "truthy (JStr s) = (s \<noteq> [])"
| "truthy (JList xs) = (xs \<noteq> [])"
| "truthy (JObj kvs) = (kvs \<noteq> [])"

fun opt_string :: "json option \<Rightarrow> string option" where
  "opt_string (Some (JStr s)) = Some s"
| "opt_string _ = None"

fun opt_number :: "json option \<Rightarrow> rat option" where
  "opt_number (Some (JNum q)) = Some q"
| "opt_number (Some (JInt i)) = Some (of_int i)"
| "opt_number _ = None"

definition deserialize_public_error :: "json option \<Rightarrow> public_error option" where
  "deserialize_public_error v =
     (case v of None \<Rightarrow> None
      | Some payload \<Rightarrow>
          if jget payload ''format'' \<noteq> Some (JStr public_error_format) then None
          else (case (jget payload ''code'', jget payload ''message'') of
              (Some (JStr code), Some (JStr message)) \<Rightarrow>
                Some (normalize_public_error
                  \<lparr> pe_code = code, pe_message = message,
                    pe_status_code = status_for_code code,
                    pe_retryable = (case jget payload ''retryable'' of
                        None \<Rightarrow> False | Some b \<Rightarrow> truthy b),
                    pe_category = opt_string (jget payload ''category''),
                    pe_stage = opt_string (jget payload ''stage''),
                    pe_provider = opt_string (jget payload ''provider''),
                    pe_retry_after = opt_number (jget payload ''retry_after''),
                    pe_details = [] \<rparr>)
            | _ \<Rightarrow> None))"

section \<open>Normalisation is idempotent, persistence loses nothing that is public\<close>

lemma code_char_ascii:
  "is_upper c \<or> is_digit c \<or> c = CHR ''_'' \<Longrightarrow> 32 < byte c \<and> byte c < 128 \<and> \<not> is_lower c"
  by (auto simp: is_upper_def is_digit_def is_lower_def)

lemma label_char_ascii: "label_char c \<Longrightarrow> 32 < byte c \<and> byte c < 128"
  by (auto simp: label_char_def is_alnum_def is_upper_def is_digit_def is_lower_def)

lemma code_pattern_fixed:
  assumes "code_pattern v"
  shows "map ascii_upper (py_strip v) = v"
proof -
  have all: "list_all (\<lambda>c. is_upper c \<or> is_digit c \<or> c = CHR ''_'') v"
    using assms by (cases v) (auto simp: code_pattern_def)
  then have "py_strip v = v"
    using code_char_ascii by (intro py_strip_ascii) (auto simp: list_all_iff)
  moreover have "map ascii_upper v = v"
    using all code_char_ascii ascii_upper_id by (induction v) auto
  ultimately show ?thesis by simp
qed

lemma code_pattern_code_value: "code_pattern (code_value s)"
  by (simp add: code_value_def Let_def)
     (simp add: code_pattern_def is_upper_def is_digit_def)

lemma code_value_idem [simp]: "code_value (code_value s) = code_value s"
  using code_pattern_fixed [OF code_pattern_code_value] code_pattern_code_value
  by (simp add: code_value_def [of "code_value s"])

lemma safe_label_idem [simp]: "safe_label (safe_label v) = safe_label v"
  by (auto simp: safe_label_def Let_def split: option.splits)

lemma safe_retry_after_idem [simp]: "safe_retry_after (safe_retry_after v) = safe_retry_after v"
  by (auto simp: safe_retry_after_def split: option.splits)

lemma status_for_code_range: "400 \<le> status_for_code c \<and> status_for_code c \<le> 599"
  by (simp add: status_for_code_def Let_def)

lemma default_message_stripped: "py_strip default_message = default_message"
  by (simp add: py_strip_def default_message_def utf8_def drop_ws.simps)

lemma normalize_status_range:
  "400 \<le> pe_status_code (normalize_public_error p) \<and>
   pe_status_code (normalize_public_error p) \<le> 599"
  by (simp add: normalize_public_error_def Let_def)

lemma normalize_public_error_idem:
  "normalize_public_error (normalize_public_error p) = normalize_public_error p"
  using normalize_status_range [of p] default_message_stripped
  by (auto simp: normalize_public_error_def Let_def)

lemma deserialize_serialize:
  "deserialize_public_error (Some (serialize_public_error n)) =
     Some (normalize_public_error
       (n\<lparr>pe_status_code := status_for_code (pe_code n), pe_details := []\<rparr>))"
proof -
  have get: "opt_string (Some (jopt JStr x)) = x" "opt_number (Some (jopt JNum y)) = y" for x y
    by (cases x, auto) (cases y, auto)
  show ?thesis
    by (cases n)
       (simp add: deserialize_public_error_def serialize_public_error_def contract_def get)
qed


end
