(* ===== verification/Run_State.thy ===== *)
theory Run_State
  imports Prelude
begin

text \<open>
  The status automaton of a Run, \<^verbatim>\<open>src/backend/runs/state.py\<close>, and the event types of the
  generated contract \<^verbatim>\<open>src/backend/events/generated/run_event_v1.py\<close>.
\<close>

datatype run_status =
    QUEUED | PENDING | RUNNING | WAITING_INPUT | CANCELLING | SUCCEEDED | FAILED | CANCELLED

datatype multitask_strategy = REJECT | ENQUEUE | CANCEL_PREVIOUS

fun status_value :: "run_status \<Rightarrow> string" where
  "status_value QUEUED = ''queued''"
| "status_value PENDING = ''pending''"
| "status_value RUNNING = ''running''"
| "status_value WAITING_INPUT = ''waiting_input''"
| "status_value CANCELLING = ''cancelling''"
| "status_value SUCCEEDED = ''succeeded''"
| "status_value FAILED = ''failed''"
| "status_value CANCELLED = ''cancelled''"

fun strategy_value :: "multitask_strategy \<Rightarrow> string" where
  "strategy_value REJECT = ''reject''"
| "strategy_value ENQUEUE = ''enqueue''"
| "strategy_value CANCEL_PREVIOUS = ''cancel_previous''"

definition ACTIVE_RUN_STATUSES :: "run_status list" where
  "ACTIVE_RUN_STATUSES = [PENDING, RUNNING, WAITING_INPUT, CANCELLING]"

definition TERMINAL_RUN_STATUSES :: "run_status list" where
  "TERMINAL_RUN_STATUSES = [SUCCEEDED, FAILED, CANCELLED]"

abbreviation active :: "run_status \<Rightarrow> bool" where
  "active s \<equiv> s \<in> set ACTIVE_RUN_STATUSES"

abbreviation terminal :: "run_status \<Rightarrow> bool" where
  "terminal s \<equiv> s \<in> set TERMINAL_RUN_STATUSES"

fun ALLOWED_TRANSITIONS :: "run_status \<Rightarrow> run_status list" where
  "ALLOWED_TRANSITIONS QUEUED = [PENDING, CANCELLED]"
| "ALLOWED_TRANSITIONS PENDING = [RUNNING, CANCELLING, CANCELLED, FAILED]"
| "ALLOWED_TRANSITIONS RUNNING = [WAITING_INPUT, CANCELLING, SUCCEEDED, FAILED, CANCELLED]"
| "ALLOWED_TRANSITIONS WAITING_INPUT = [PENDING, RUNNING, CANCELLING, CANCELLED, FAILED]"
| "ALLOWED_TRANSITIONS CANCELLING = [CANCELLED, FAILED]"
| "ALLOWED_TRANSITIONS SUCCEEDED = []"
| "ALLOWED_TRANSITIONS FAILED = []"
| "ALLOWED_TRANSITIONS CANCELLED = []"

definition can_transition :: "run_status \<Rightarrow> run_status \<Rightarrow> bool" where
  "can_transition current target \<longleftrightarrow>
     current = target \<or> target \<in> set (ALLOWED_TRANSITIONS current)"

datatype run_event_type =
    RUN_CREATED | RUN_STARTED | RUN_WAITING_INPUT | RUN_COMPLETED | RUN_FAILED | RUN_CANCELLED_EVENT
  | PLANNER_STARTED | PLANNER_COMPLETED | TOOL_STARTED | TOOL_PROGRESS | TOOL_COMPLETED
  | TOOL_FAILED | TOOL_DENIED | RETRIEVAL_STARTED | RETRIEVAL_CANDIDATES
  | RETRIEVAL_RERANK_COMPLETED | RETRIEVAL_COMPLETED | MESSAGE_DELTA | MESSAGE_COMPLETED
  | HITL_REQUIRED | HITL_RESUMED | USAGE_UPDATED | ARTIFACT_CREATED | WARNING_CREATED

text \<open>The event types that end a subscription, and the one each terminal status is journalled as.\<close>

definition TERMINAL_EVENT_TYPES :: "run_event_type list" where
  "TERMINAL_EVENT_TYPES = [RUN_COMPLETED, RUN_FAILED, RUN_CANCELLED_EVENT]"

abbreviation terminal_event :: "run_event_type \<Rightarrow> bool" where
  "terminal_event t \<equiv> t \<in> set TERMINAL_EVENT_TYPES"

lemmas status_lists [simp] =
  ACTIVE_RUN_STATUSES_def TERMINAL_RUN_STATUSES_def TERMINAL_EVENT_TYPES_def

section \<open>The automaton\<close>

lemma can_transition_refl [simp]: "can_transition s s"
  by (simp add: can_transition_def)

lemma terminal_stuck: "terminal s \<Longrightarrow> can_transition s t \<Longrightarrow> t = s"
  by (cases s) (auto simp: can_transition_def)

lemma active_not_terminal: "active s \<Longrightarrow> \<not> terminal s"
  by (cases s) auto

lemma status_cases: "active s \<or> terminal s \<or> s = QUEUED"
  by (cases s) auto

text \<open>Only a promotion leads out of the queue into an active status.\<close>

lemma into_active: "can_transition s t \<Longrightarrow> active t \<Longrightarrow> active s \<or> s = QUEUED \<and> t = PENDING"
  by (cases s; cases t) (auto simp: can_transition_def)

text \<open>Once cancellation has been requested a Run can only be cancelled or fail.\<close>

lemma cancelling_only_ends: "can_transition CANCELLING t \<Longrightarrow> t \<in> {CANCELLING, CANCELLED, FAILED}"
  by (auto simp: can_transition_def)

lemma status_value_inject [simp]: "status_value s = status_value t \<longleftrightarrow> s = t"
  by (cases s; cases t) auto

end
