(* ===== verification/Database.thy ===== *)
theory Database
  imports Errors Run_State
begin

text \<open>
  The relational state, after \<^verbatim>\<open>src/backend/db/models.py\<close>: one record per table row, one
  record for the whole schema, and the unique indexes that PostgreSQL enforces when a
  transaction flushes. A table is the list of its rows in insertion order; the
  auto-increment keys come from the sequence fields of \<open>db\<close>.

  A transaction is a function from the database to an exception or a result with the new
  database. An exception rolls the transaction back, so no database comes with it. What a
  transaction reads from its environment (clock, \<open>uuid4\<close>, settings, SHA-256) is the record
  \<open>env\<close>: one clock reading per transaction, and the \<open>k\<close>-th identifier it draws is
  \<open>env_uuid4 e k\<close>.
\<close>

record env =
  env_now :: timestamp
  env_uuid4 :: "nat \<Rightarrow> string"
  env_lease_seconds :: int
  env_deadline :: int
  env_disconnect_policy :: string
  env_multitask_strategy :: multitask_strategy
  env_sha256 :: "string \<Rightarrow> string"

text \<open>\<open>timedelta(seconds=n)\<close> in the unit of the clock, microseconds.\<close>

definition seconds :: "int \<Rightarrow> int" where
  "seconds n = n * 1000000"

record user =
  u_id :: int
  u_username :: string
  u_role :: string

record thread =
  th_id :: int
  th_user :: int
  th_thread_id :: string
  th_status :: string
  th_version :: int
  th_message_count :: int
  th_last_sequence :: int
  th_metadata :: "(string \<times> json) list"
  th_updated_at :: timestamp
  th_created_at :: timestamp

type_synonym skill_columns = "string option \<times> string option \<times> string option \<times> string option"

record run =
  r_id :: string
  r_thread :: int
  r_user :: int
  r_tenant :: string
  r_channel :: string
  r_approved_tools :: "string list"
  r_status :: run_status
  r_idempotency_key :: string
  r_request_hash :: string
  r_model_name :: string
  r_model_catalog_hash :: string
  r_model_snapshot :: json
  r_on_disconnect :: string
  r_multitask_strategy :: multitask_strategy
  r_fencing_token :: int
  r_user_message :: "int option"
  r_assistant_message :: "int option"
  r_supersedes :: "string option"
  r_last_event_sequence :: int
  r_owner :: "string option"
  r_lease :: "timestamp option"
  r_deadline :: "timestamp option"
  r_started_at :: "timestamp option"
  r_finished_at :: "timestamp option"
  r_error_code :: "string option"
  r_error_detail :: "json option"
  r_skill :: skill_columns
  r_input_tokens :: int
  r_output_tokens :: int
  r_cost :: rat
  r_created_at :: timestamp
  r_updated_at :: timestamp

record message =
  m_id :: int
  m_thread :: int
  m_run :: "string option"
  m_client_id :: "string option"
  m_sequence :: int
  m_type :: string
  m_content :: string
  m_content_json :: "json option"
  m_status :: string
  m_timestamp :: timestamp
  m_updated_at :: timestamp
  m_rag_trace :: "json option"

record run_event =
  e_id :: int
  e_event_id :: string
  e_run :: string
  e_sequence :: int
  e_type :: run_event_type
  e_payload :: "(string \<times> json) list"
  e_created_at :: timestamp

text \<open>The wire form of an event, \<open>RunEventV1\<close>; the outbox stores it as its payload.\<close>

record run_event_v1 =
  ev_event_id :: string
  ev_sequence :: int
  ev_run_id :: string
  ev_thread_id :: string
  ev_type :: run_event_type
  ev_timestamp :: timestamp
  ev_data :: "(string \<times> json) list"

record outbox_row =
  o_id :: int
  o_aggregate :: string
  o_payload :: run_event_v1
  o_published_at :: "timestamp option"
  o_attempts :: nat
  o_created_at :: timestamp

record checkpoint =
  c_id :: int
  c_run :: string
  c_thread :: int
  c_user :: int
  c_checkpoint_id :: string
  c_hitl_token :: "string option"
  c_interrupt_id :: "string option"
  c_resume_key :: "string option"
  c_resume_payload :: "json option"
  c_state :: json
  c_next_nodes :: "string list"
  c_consumed_at :: "timestamp option"
  c_created_at :: timestamp
  c_updated_at :: timestamp

record tool_audit =
  a_id :: int
  a_user :: int
  a_thread_id :: string
  a_run :: "string option"
  a_audit_key :: string
  a_tool_call_id :: "string option"
  a_tool_name :: string
  a_tool_version :: string
  a_skill_name :: string
  a_decision :: string
  a_reason_code :: "string option"
  a_policy_version :: "string option"
  a_policy_hash :: "string option"
  a_success :: bool
  a_error_code :: "string option"
  a_duration_ms :: int
  a_result_size :: int
  a_metadata :: "(string \<times> json) list"

record db =
  db_users :: "user list"
  db_threads :: "thread list"
  db_runs :: "run list"
  db_messages :: "message list"
  db_events :: "run_event list"
  db_outbox :: "outbox_row list"
  db_checkpoints :: "checkpoint list"
  db_audits :: "tool_audit list"
  seq_thread :: int
  seq_message :: int
  seq_event :: int
  seq_outbox :: int
  seq_checkpoint :: int
  seq_audit :: int

type_synonym 'a tx = "exn + 'a \<times> db"

definition empty_db :: db where
  "empty_db = \<lparr> db_users = [], db_threads = [], db_runs = [], db_messages = [], db_events = [],
     db_outbox = [], db_checkpoints = [], db_audits = [], seq_thread = 1, seq_message = 1,
     seq_event = 1, seq_outbox = 1, seq_checkpoint = 1, seq_audit = 1 \<rparr>"

section \<open>Lookups and assignments\<close>

definition find_user :: "db \<Rightarrow> string \<Rightarrow> user option" where
  "find_user d name = find (\<lambda>u. u_username u = name) (db_users d)"

definition find_user_id :: "db \<Rightarrow> int \<Rightarrow> user option" where
  "find_user_id d i = find (\<lambda>u. u_id u = i) (db_users d)"

definition find_thread :: "db \<Rightarrow> int \<Rightarrow> thread option" where
  "find_thread d i = find (\<lambda>t. th_id t = i) (db_threads d)"

definition find_run :: "db \<Rightarrow> string \<Rightarrow> run option" where
  "find_run d rid = find (\<lambda>r. r_id r = rid) (db_runs d)"

definition find_message :: "db \<Rightarrow> int \<Rightarrow> message option" where
  "find_message d i = find (\<lambda>m. m_id m = i) (db_messages d)"

text \<open>Writing a changed row back: the flush of a loaded object.\<close>

definition put_run :: "run \<Rightarrow> db \<Rightarrow> db" where
  "put_run r d = d\<lparr>db_runs := update_where (\<lambda>x. r_id x = r_id r) (\<lambda>_. r) (db_runs d)\<rparr>"

definition put_thread :: "thread \<Rightarrow> db \<Rightarrow> db" where
  "put_thread t d = d\<lparr>db_threads := update_where (\<lambda>x. th_id x = th_id t) (\<lambda>_. t) (db_threads d)\<rparr>"

definition put_checkpoint :: "checkpoint \<Rightarrow> db \<Rightarrow> db" where
  "put_checkpoint c d =
     d\<lparr>db_checkpoints := update_where (\<lambda>x. c_id x = c_id c) (\<lambda>_. c) (db_checkpoints d)\<rparr>"

text \<open>Assignment to the message a run refers to, skipped when there is none.\<close>

definition set_message :: "int option \<Rightarrow> (message \<Rightarrow> message) \<Rightarrow> db \<Rightarrow> db" where
  "set_message mid f d =
     (case mid of None \<Rightarrow> d
      | Some i \<Rightarrow> d\<lparr>db_messages := update_where (\<lambda>m. m_id m = i) f (db_messages d)\<rparr>)"

section \<open>Unique indexes\<close>

definition one_active_per_thread :: "run list \<Rightarrow> bool" where
  "one_active_per_thread rs = distinct (map r_thread (filter (\<lambda>r. active (r_status r)) rs))"

definition idempotency_unique :: "run list \<Rightarrow> bool" where
  "idempotency_unique rs = distinct (map (\<lambda>r. (r_user r, r_thread r, r_idempotency_key r)) rs)"

definition skill_complete :: "skill_columns \<Rightarrow> bool" where
  "skill_complete s = (case s of
      (None, None, None, None) \<Rightarrow> True
    | (Some _, Some _, Some _, Some _) \<Rightarrow> True
    | _ \<Rightarrow> False)"

definition runs_ok :: "run list \<Rightarrow> bool" where
  "runs_ok rs \<longleftrightarrow>
     distinct (map r_id rs) \<and> idempotency_unique rs \<and>
     distinct (List.map_filter r_assistant_message rs) \<and> one_active_per_thread rs \<and>
     list_all (\<lambda>r. skill_complete (r_skill r) \<and> length (r_model_catalog_hash r) = 64) rs"

definition messages_ok :: "message list \<Rightarrow> bool" where
  "messages_ok ms \<longleftrightarrow>
     distinct (map (\<lambda>m. (m_thread m, m_sequence m)) ms) \<and>
     distinct (List.map_filter (\<lambda>m. map_option (Pair (m_thread m)) (m_client_id m)) ms)"

definition events_ok :: "run_event list \<Rightarrow> bool" where
  "events_ok es \<longleftrightarrow>
     distinct (map (\<lambda>e. (e_run e, e_sequence e)) es) \<and> distinct (map e_event_id es)"

definition threads_ok :: "thread list \<Rightarrow> bool" where
  "threads_ok ts \<longleftrightarrow> distinct (map (\<lambda>t. (th_user t, th_thread_id t)) ts)"

definition checkpoints_ok :: "checkpoint list \<Rightarrow> bool" where
  "checkpoints_ok cs \<longleftrightarrow>
     distinct (map (\<lambda>c. (c_run c, c_checkpoint_id c)) cs) \<and>
     distinct (List.map_filter c_hitl_token cs) \<and>
     distinct (List.map_filter (\<lambda>c. map_option (Pair (c_run c)) (c_resume_key c)) cs)"

definition audits_ok :: "tool_audit list \<Rightarrow> bool" where
  "audits_ok as \<longleftrightarrow> 
     distinct (List.map_filter (\<lambda>a. map_option (\<lambda>r. (r, a_audit_key a)) (a_run a)) as)"

definition integrity :: "db \<Rightarrow> bool" where
  "integrity d \<longleftrightarrow>
     threads_ok (db_threads d) \<and> runs_ok (db_runs d) \<and> messages_ok (db_messages d) \<and>
     events_ok (db_events d) \<and> checkpoints_ok (db_checkpoints d) \<and> audits_ok (db_audits d)"

text \<open>Committing checks every index; a violation is an \<open>IntegrityError\<close> and a rollback.\<close>

definition commit :: "'a \<Rightarrow> db \<Rightarrow> 'a tx" where
  "commit x d = (if integrity d then Inr (x, d) else Inl IntegrityError)"

end
