(* ===== verification/Event_Journal.thy ===== *)
theory Event_Journal
  imports Database
begin

text \<open>
  The durable event journal, \<^verbatim>\<open>src/backend/events/journal.py\<close>: every event of a Run takes the
  next sequence number of that Run and is written together with an outbox row, in the
  transaction of the state change it describes.
\<close>

section \<open>Appending\<close>

definition new_run_event ::
    "env \<Rightarrow> nat \<Rightarrow> int \<Rightarrow> string \<Rightarrow> string \<Rightarrow> run_event_type \<Rightarrow> (string \<times> json) list \<Rightarrow> run_event_v1" where
  "new_run_event e k sequence rid tid ty data =
     \<lparr> ev_event_id = ''evt_'' @ env_uuid4 e k, ev_sequence = sequence, ev_run_id = rid,
       ev_thread_id = tid, ev_type = ty, ev_timestamp = env_now e, ev_data = data \<rparr>"

text \<open>
  \<open>append_event_in_session\<close>: the run object is threaded through (its counter is bumped),
  the two rows are added to the session.
\<close>

definition append_event_in_session ::
    "env \<Rightarrow> nat \<Rightarrow> string \<Rightarrow> run_event_type \<Rightarrow> (string \<times> json) list \<Rightarrow> run \<Rightarrow> db
       \<Rightarrow> (run_event_v1 \<times> int) \<times> run \<times> db" where
  "append_event_in_session e k tid ty data r d =
     (let r' = r\<lparr>r_last_event_sequence := r_last_event_sequence r + 1\<rparr>;
          event = new_run_event e k (r_last_event_sequence r') (r_id r) tid ty data;
          row = \<lparr> e_id = seq_event d, e_event_id = ev_event_id event, e_run = r_id r,
                  e_sequence = ev_sequence event, e_type = ev_type event,
                  e_payload = ev_data event, e_created_at = ev_timestamp event \<rparr>;
          outbox = \<lparr> o_id = seq_outbox d, o_aggregate = r_id r, o_payload = event,
                     o_published_at = None, o_attempts = 0,
                     o_created_at = ev_timestamp event \<rparr>
      in ((event, o_id outbox), r',
          d\<lparr>db_events := db_events d @ [row], db_outbox := db_outbox d @ [outbox],
            seq_event := seq_event d + 1, seq_outbox := seq_outbox d + 1\<rparr>))"

text \<open>
  \<open>RunEventJournal.append\<close>: a fenced append needs both the worker and the token, and
  both must be those of the current owner of a running or cancelling Run.
\<close>

definition journal_append ::
    "env \<Rightarrow> string \<Rightarrow> run_event_type \<Rightarrow> (string \<times> json) list \<Rightarrow> string option \<Rightarrow> int option \<Rightarrow> db
       \<Rightarrow> (run_event_v1 \<times> int) tx" where
  "journal_append e rid ty data worker fence d =
     (case find_run d rid of
        None \<Rightarrow> Inl (app_error RUN_NOT_FOUND 404)
      | Some r \<Rightarrow>
          if (worker \<noteq> None \<or> fence \<noteq> None) \<and>
             (worker = None \<or> fence = None \<or> r_owner r \<noteq> worker \<or>
              Some (r_fencing_token r) \<noteq> fence \<or> r_status r \<notin> {RUNNING, CANCELLING})
          then Inl (app_error RUN_STATE_CONFLICT 409)
          else (case find_thread d (r_thread r) of
              None \<Rightarrow> Inl RuntimeError
            | Some t \<Rightarrow>
                (let (res, r', d') = append_event_in_session e 0 (th_thread_id t) ty data r d
                 in commit res (put_run (r'\<lparr>r_updated_at := env_now e\<rparr>) d'))))"

section \<open>Reading\<close>

definition to_event :: "string \<Rightarrow> run_event \<Rightarrow> run_event_v1" where
  "to_event tid row =
     \<lparr> ev_event_id = e_event_id row, ev_sequence = e_sequence row, ev_run_id = e_run row,
       ev_thread_id = tid, ev_type = e_type row, ev_timestamp = e_created_at row,
       ev_data = e_payload row \<rparr>"

definition assert_access :: "db \<Rightarrow> string \<Rightarrow> string \<Rightarrow> exn + string" where
  "assert_access d username rid =
     (case find_run d rid of
        None \<Rightarrow> Inl (app_error RUN_NOT_FOUND 404)
      | Some r \<Rightarrow>
          (case (find_user_id d (r_user r), find_thread d (r_thread r)) of
             (Some u, Some t) \<Rightarrow>
               if u_username u = username then Inr (th_thread_id t)
               else Inl (app_error RUN_NOT_FOUND 404)
           | _ \<Rightarrow> Inl (app_error RUN_NOT_FOUND 404)))"

text \<open>The rows of \<open>read_after\<close>: joined to run and thread, newer than the cursor, in order.\<close>

definition read_rows :: "db \<Rightarrow> string \<Rightarrow> int \<Rightarrow> nat \<Rightarrow> run_event_v1 list" where
  "read_rows d rid after limit =
     (case find_run d rid of
        None \<Rightarrow> []
      | Some r \<Rightarrow>
          (case find_thread d (r_thread r) of
             None \<Rightarrow> []
           | Some t \<Rightarrow>
               take (max 1 (min limit 1000))
                 (map (to_event (th_thread_id t))
                   (sort_key e_sequence
                     (filter (\<lambda>e. e_run e = rid \<and> max after 0 < e_sequence e) (db_events d))))))"

definition owned_by :: "db \<Rightarrow> string \<Rightarrow> string \<Rightarrow> bool" where
  "owned_by d rid username =
     (case find_run d rid of None \<Rightarrow> False
      | Some r \<Rightarrow> (case find_user_id d (r_user r) of None \<Rightarrow> False
          | Some u \<Rightarrow> u_username u = username))"

definition read_after ::
    "db \<Rightarrow> string \<Rightarrow> int \<Rightarrow> nat \<Rightarrow> string option \<Rightarrow> exn + run_event_v1 list" where
  "read_after d rid after limit username =
     (case username of
        None \<Rightarrow> Inr (read_rows d rid after limit)
      | Some name \<Rightarrow>
          (let rows = (if owned_by d rid name then read_rows d rid after limit else [])
           in if rows = []
              then (case assert_access d name rid of Inl ex \<Rightarrow> Inl ex | Inr _ \<Rightarrow> Inr [])
              else Inr rows))"

definition mark_outbox_published :: "env \<Rightarrow> int \<Rightarrow> db \<Rightarrow> db" where
  "mark_outbox_published e oid d =
     d\<lparr>db_outbox := update_where (\<lambda>x. o_id x = oid \<and> o_published_at x = None)
         (\<lambda>x. x\<lparr>o_published_at := Some (env_now e)\<rparr>) (db_outbox d)\<rparr>"

section \<open>The sequence of a run's events\<close>

text \<open>The journal of one run, and that it is numbered 1, 2, ... up to the run's counter.\<close>

definition run_log :: "db \<Rightarrow> string \<Rightarrow> run_event list" where
  "run_log d rid = filter (\<lambda>e. e_run e = rid) (db_events d)"

definition log_of :: "run \<Rightarrow> db \<Rightarrow> bool" where
  "log_of r d \<longleftrightarrow> 0 \<le> r_last_event_sequence r \<and>
     map e_sequence (run_log d (r_id r)) = [1..r_last_event_sequence r]"

lemma upto_snoc: "0 \<le> n \<Longrightarrow> [1..n + 1] = [1..n] @ [n + 1 :: int]"
  by (simp add: upto_rec2)

lemma append_event_simps:
  assumes "append_event_in_session e k tid ty data r d = (res, r', d')"
  shows "r' = r\<lparr>r_last_event_sequence := r_last_event_sequence r + 1\<rparr>"
    and "db_runs d' = db_runs d" and "db_users d' = db_users d" and "db_threads d' = db_threads d"
    and "db_messages d' = db_messages d" and "db_checkpoints d' = db_checkpoints d"
    and "db_audits d' = db_audits d" and "seq_thread d' = seq_thread d"
    and "seq_message d' = seq_message d" and "seq_checkpoint d' = seq_checkpoint d"
    and "seq_audit d' = seq_audit d"
  using assms by (auto simp: append_event_in_session_def Let_def)

end
