(* ===== verification/Run_Request.thy ===== *)
theory Run_Request
  imports Errors "HOL-Library.FSet"
begin

text \<open>
  What a Run reservation validates and hashes before it opens its transaction: the
  identifier checks of \<open>RunRepository\<close> (\<^verbatim>\<open>src/backend/runs/repository.py\<close>),
  \<open>validate_thread_id\<close> (\<^verbatim>\<open>src/backend/threads/contracts.py\<close>), and the canonical JSON text
  whose digest identifies a request. The text is what \<open>json.dumps\<close> prints with sorted
  keys and no spaces; SHA-256 itself is a parameter.
\<close>

section \<open>Printing JSON\<close>

definition hex_digit :: "nat \<Rightarrow> char" where
  "hex_digit n = (if n < 10 then char_of (48 + n) else char_of (87 + n))"

definition escape_char :: "char \<Rightarrow> string" where
  "escape_char c =
     (if byte c = 34 \<or> byte c = 92 then [CHR 0x5C, c]
      else if byte c = 8 then [CHR 0x5C, CHR ''b'']
      else if byte c = 12 then [CHR 0x5C, CHR ''f'']
      else if byte c = 10 then [CHR 0x5C, CHR ''n'']
      else if byte c = 13 then [CHR 0x5C, CHR ''r'']
      else if byte c = 9 then [CHR 0x5C, CHR ''t'']
      else if byte c < 32 then
        [CHR 0x5C, CHR ''u'', CHR ''0'', CHR ''0'',
         hex_digit (byte c div 16), hex_digit (byte c mod 16)]
      else [c])"

definition dump_string :: "string \<Rightarrow> string" where
  "dump_string s = CHR 0x22 # concat (map escape_char s) @ [CHR 0x22]"

fun dump_nat :: "nat \<Rightarrow> string" where
  "dump_nat n = (if n < 10 then [char_of (48 + n)] else dump_nat (n div 10) @ [char_of (48 + n mod 10)])"

declare dump_nat.simps [simp del]

fun join_with :: "string \<Rightarrow> string list \<Rightarrow> string" where
  "join_with sep [] = ''''"
| "join_with sep [x] = x"
| "join_with sep (x # xs) = x @ sep @ join_with sep xs"

definition dump_string_list :: "string list \<Rightarrow> string" where
  "dump_string_list xs = ''['' @ join_with '','' (map dump_string xs) @ '']''"

section \<open>The request hash\<close>

text \<open>The keyword arguments of \<open>hash_run_request\<close> (\<open>approved_tools\<close> is a frozenset).\<close>

record run_request =
  rq_message :: string
  rq_model_name :: string
  rq_model_catalog_hash :: string
  rq_tenant_id :: string
  rq_channel :: string
  rq_approved_tools :: "string fset"
  rq_schema_version :: nat

definition dump_member :: "string \<Rightarrow> string \<Rightarrow> string" where
  "dump_member key text = dump_string key @ '':'' @ text"

definition run_request_payload :: "run_request \<Rightarrow> string" where
  "run_request_payload q =
     ''{'' @ join_with '',''
       [dump_member ''approved_tools'' (dump_string_list (sorted_list_of_fset (rq_approved_tools q))),
        dump_member ''channel'' (dump_string (rq_channel q)),
        dump_member ''message'' (dump_string (rq_message q)),
        dump_member ''model_catalog_hash'' (dump_string (rq_model_catalog_hash q)),
        dump_member ''model_name'' (dump_string (rq_model_name q)),
        dump_member ''schema_version'' (dump_nat (rq_schema_version q)),
        dump_member ''tenant_id'' (dump_string (rq_tenant_id q))] @ ''}''"

definition hash_run_request :: "(string \<Rightarrow> string) \<Rightarrow> run_request \<Rightarrow> string" where
  "hash_run_request sha256 q = sha256 (run_request_payload q)"

section \<open>Validation\<close>

definition validate_idempotency_key :: "string \<Rightarrow> exn + string" where
  "validate_idempotency_key value =
     (let key = py_strip value
      in if key = '''' \<or> 128 < py_len key then Inl (app_error INVALID_REQUEST 400) else Inr key)"

definition security_identifier :: "nat \<Rightarrow> string \<Rightarrow> exn + string" where
  "security_identifier maximum value =
     (let candidate = py_strip value
      in if candidate = '''' \<or> maximum < py_len candidate \<or>
            \<not> fullmatch_ident is_lower
                (\<lambda>c. is_lower c \<or> is_digit c \<or> c \<in> set ''_.:-'') (length candidate) candidate
         then Inl (app_error INVALID_REQUEST 400) else Inr candidate)"

definition tool_name_pattern :: "string \<Rightarrow> bool" where
  "tool_name_pattern s =
     fullmatch_ident is_lower (\<lambda>c. is_lower c \<or> is_digit c \<or> c \<in> set ''_.-'') 127 s"

definition approved_tools :: "string fset \<Rightarrow> exn + string fset" where
  "approved_tools values =
     (if 32 < fcard values \<or> \<not> fBall values tool_name_pattern
      then Inl (app_error INVALID_REQUEST 400) else Inr values)"

definition validate_thread_id :: "string \<Rightarrow> exn + string" where
  "validate_thread_id value =
     (if fullmatch_ident is_alnum (\<lambda>c. is_alnum c \<or> c \<in> set ''_.:-'') 119 value
      then Inr value else Inl ValueError)"

section \<open>The canonical text determines the request\<close>

text \<open>A reader for the printed strings: the inverse of \<open>escape_char\<close> up to the closing quote.\<close>

definition hex_value :: "char \<Rightarrow> nat" where
  "hex_value c = (if byte c < 58 then byte c - 48 else byte c - 87)"

function read_chars :: "string \<Rightarrow> string \<times> string" where
  "read_chars s =
     (case s of
        [] \<Rightarrow> ([], [])
      | c # cs \<Rightarrow>
          if byte c = 34 then ([], cs)
          else if byte c \<noteq> 92 then (let (t, u) = read_chars cs in (c # t, u))
          else (case cs of
              [] \<Rightarrow> ([], [])
            | x # xs \<Rightarrow>
                if byte x = 34 \<or> byte x = 92 then (let (t, u) = read_chars xs in (x # t, u))
                else if x = CHR ''b'' then (let (t, u) = read_chars xs in (char_of (8 :: nat) # t, u))
                else if x = CHR ''f'' then (let (t, u) = read_chars xs in (char_of (12 :: nat) # t, u))
                else if x = CHR ''n'' then (let (t, u) = read_chars xs in (char_of (10 :: nat) # t, u))
                else if x = CHR ''r'' then (let (t, u) = read_chars xs in (char_of (13 :: nat) # t, u))
                else if x = CHR ''t'' then (let (t, u) = read_chars xs in (char_of (9 :: nat) # t, u))
                else (let (t, u) = read_chars (drop 4 xs)
                      in (char_of (hex_value (xs ! 2) * 16 + hex_value (xs ! 3)) # t, u))))"
  by pat_completeness auto
termination
  by (relation "measure length") (auto simp: less_Suc_eq_le)

declare read_chars.simps [simp del]

lemma hex_value_digit: "n < 16 \<Longrightarrow> hex_value (hex_digit n) = n"
  by (auto simp: hex_value_def hex_digit_def)

lemma read_chars_escape:
  "read_chars (escape_char c @ s) = (let (t, u) = read_chars s in (c # t, u))"
proof -
  have hex: "hex_value (hex_digit (byte c div 16)) * 16 + hex_value (hex_digit (byte c mod 16)) = byte c"
    if "byte c < 32"
    using that by (simp add: hex_value_digit div_mult_mod_eq)
  have code: "char_of n = c" if "byte c = n" for n
    using that by auto
  show ?thesis
    by (subst read_chars.simps) (auto simp: escape_char_def hex code Let_def)
qed

lemma read_chars_text: "read_chars (concat (map escape_char s) @ CHR 0x22 # u) = (s, u)"
proof (induction s)
  case Nil
  show ?case by (simp add: read_chars.simps)
next
  case (Cons c s)
  then show ?case by (simp add: read_chars_escape)
qed

lemma dump_string_inject:
  "dump_string s @ u = dump_string t @ v \<longleftrightarrow> s = t \<and> u = v"
proof
  assume "dump_string s @ u = dump_string t @ v"
  then have "concat (map escape_char s) @ CHR 0x22 # u = concat (map escape_char t) @ CHR 0x22 # v"
    by (simp add: dump_string_def)
  then have "(s, u) = (t, v)"
    using read_chars_text by metis
  then show "s = t \<and> u = v" by simp
qed simp

lemma join_with_Cons:
  "join_with sep (x # xs) = x @ (if xs = [] then [] else sep @ join_with sep xs)"
  by (cases xs) auto

lemma dump_string_inject_end: "dump_string s = dump_string t \<longleftrightarrow> s = t"
  using dump_string_inject [of s "[]" t "[]"] by simp

lemma dump_string_list_inject:
  "dump_string_list xs @ u = dump_string_list ys @ v \<longleftrightarrow> xs = ys \<and> u = v"
proof
  have "join_with '','' (map dump_string xs) @ '']'' @ u = join_with '','' (map dump_string ys) @ '']'' @ v
      \<Longrightarrow> xs = ys \<and> u = v"
  proof (induction xs arbitrary: ys)
    case Nil
    then show ?case by (cases ys) (auto simp: join_with_Cons dump_string_def)
  next
    case (Cons x xs)
    show ?case
    proof (cases ys)
      case Nil
      with Cons.prems show ?thesis by (auto simp: join_with_Cons dump_string_def)
    next
      case (Cons y ys')
      with Cons.prems have "x = y"
        and "(if xs = [] then [] else '','' @ join_with '','' (map dump_string xs)) @ '']'' @ u =
             (if ys' = [] then [] else '','' @ join_with '','' (map dump_string ys')) @ '']'' @ v"
        by (auto simp: join_with_Cons dump_string_inject)
      then show ?thesis using Cons.IH [of ys'] Cons by (auto split: if_splits)
    qed
  qed
  then show "dump_string_list xs @ u = dump_string_list ys @ v \<Longrightarrow> xs = ys \<and> u = v"
    by (simp add: dump_string_list_def)
qed simp

lemma dump_nat_digits: "list_all is_digit (dump_nat n)"
proof (induction n rule: dump_nat.induct)
  case (1 n)
  then show ?case
    by (cases "n < 10") (simp_all add: dump_nat.simps [of n], simp_all add: is_digit_def)
qed

definition read_digits :: "string \<Rightarrow> nat" where
  "read_digits s = foldl (\<lambda>a c. a * 10 + (byte c - 48)) 0 s"

lemma read_digits_dump: "read_digits (dump_nat n) = n"
proof (induction n rule: dump_nat.induct)
  case (1 n)
  then show ?case by (cases "n < 10") (simp_all add: dump_nat.simps [of n] read_digits_def)
qed

lemma dump_nat_inject:
  "dump_nat n @ CHR '','' # u = dump_nat m @ CHR '','' # v \<longleftrightarrow> n = m \<and> u = v"
proof
  have digits: "takeWhile is_digit (dump_nat k @ CHR '','' # w) = dump_nat k" for k w
    using dump_nat_digits [of k] by (simp add: takeWhile_append list_all_iff is_digit_def)
  assume eq: "dump_nat n @ CHR '','' # u = dump_nat m @ CHR '','' # v"
  then have "dump_nat n = dump_nat m"
    using digits by metis
  then have "n = m"
    using read_digits_dump by metis
  with eq show "n = m \<and> u = v" by simp
qed simp

text \<open>
  C40. Two reservations hash the same canonical text only when they are the same request:
  the JSON text that \<open>hash_run_request\<close> digests is injective in all seven fields, so the
  digest comparison that guards an idempotency key can only confuse two requests through a
  SHA-256 collision.
\<close>

theorem run_request_payload_inject:
  "run_request_payload (p :: run_request) = run_request_payload q \<longleftrightarrow> p = q"
proof
  assume "run_request_payload p = run_request_payload q"
  then have "sorted_list_of_fset (rq_approved_tools p) = sorted_list_of_fset (rq_approved_tools q)
      \<and> rq_channel p = rq_channel q \<and> rq_message p = rq_message q
      \<and> rq_model_catalog_hash p = rq_model_catalog_hash q \<and> rq_model_name p = rq_model_name q
      \<and> rq_schema_version p = rq_schema_version q \<and> rq_tenant_id p = rq_tenant_id q"
    by (simp add: run_request_payload_def dump_member_def dump_string_inject
        dump_string_inject_end dump_string_list_inject dump_nat_inject)
  then show "p = q"
    by (metis (full_types) run_request.equality old.unit.exhaust sorted_list_of_fset_simps(2))
qed simp

end
