(* ===== verification/Run_Repository.thy ===== *)
theory Run_Repository
  imports Event_Journal Run_Request "HOL-Library.AList"
begin

text \<open>
  The transactions of \<open>RunRepository\<close>, \<^verbatim>\<open>src/backend/runs/repository.py\<close>: reservation of a
  Run in a Thread, claim and heartbeat by a worker under a lease and a fencing token,
  suspension, cancellation, finalisation with promotion of the next queued Run, orphan
  recovery, the skill pin and the tool audit. Every row lock is a whole transaction here:
  the functions below are the atomic steps whose interleavings the invariants range over.
  Columns with \<open>onupdate=utcnow\<close> are written by the functions that touch the row.
\<close>

section \<open>Records\<close>

record run_record =
  rec_id :: string
  rec_thread_id :: string
  rec_status :: run_status
  rec_idempotency_key :: string
  rec_request_hash :: string
  rec_multitask_strategy :: multitask_strategy
  rec_fencing_token :: int
  rec_user_message_id :: int
  rec_assistant_message_id :: int
  rec_supersedes_run_id :: "string option"
  rec_model_name :: string
  rec_model_catalog_hash :: string
  rec_on_disconnect :: string
  rec_owner_worker_id :: "string option"
  rec_lease_expires_at :: "timestamp option"
  rec_deadline_at :: "timestamp option"
  rec_started_at :: "timestamp option"
  rec_finished_at :: "timestamp option"
  rec_error_code :: "string option"
  rec_skill :: skill_columns
  rec_input_tokens :: int
  rec_output_tokens :: int
  rec_cost :: rat
  rec_created_at :: timestamp
  rec_updated_at :: timestamp
  rec_error :: "(string \<times> json) list option"

definition or_zero :: "int option \<Rightarrow> int" where
  "or_zero v = (case v of None \<Rightarrow> 0 | Some i \<Rightarrow> i)"

definition record_of :: "run \<Rightarrow> string \<Rightarrow> run_record" where
  "record_of r tid =
     \<lparr> rec_id = r_id r, rec_thread_id = tid, rec_status = r_status r,
       rec_idempotency_key = r_idempotency_key r, rec_request_hash = r_request_hash r,
       rec_multitask_strategy = r_multitask_strategy r, rec_fencing_token = r_fencing_token r,
       rec_user_message_id = or_zero (r_user_message r),
       rec_assistant_message_id = or_zero (r_assistant_message r),
       rec_supersedes_run_id = r_supersedes r, rec_model_name = r_model_name r,
       rec_model_catalog_hash = r_model_catalog_hash r, rec_on_disconnect = r_on_disconnect r,
       rec_owner_worker_id = r_owner r, rec_lease_expires_at = r_lease r,
       rec_deadline_at = r_deadline r, rec_started_at = r_started_at r,
       rec_finished_at = r_finished_at r, rec_error_code = r_error_code r,
       rec_skill = r_skill r, rec_input_tokens = r_input_tokens r,
       rec_output_tokens = r_output_tokens r, rec_cost = r_cost r,
       rec_created_at = r_created_at r, rec_updated_at = r_updated_at r,
       rec_error = map_option contract (deserialize_public_error (r_error_detail r)) \<rparr>"

record run_reservation =
  rs_run :: run_record
  rs_created :: bool
  rs_thread_version :: int
  rs_created_event :: "run_event_v1 option"

section \<open>Reservation\<close>

record reserve_args =
  ra_username :: string
  ra_thread_id :: string
  ra_message :: string
  ra_idempotency_key :: string
  ra_request_hash :: "string option"
  ra_expected_thread_version :: "int option"
  ra_model_name :: string
  ra_model_snapshot :: "(string \<times> json) option"
  ra_on_disconnect :: "string option"
  ra_multitask_strategy :: "multitask_strategy option"
  ra_title :: "string option"
  ra_tenant_id :: string
  ra_channel :: string
  ra_approved_tools :: "string fset"
  ra_allow_implicit_thread :: bool

text \<open>Python's \<open>x or y\<close> on optional strings: the empty string is false.\<close>

definition or_else :: "string option \<Rightarrow> string \<Rightarrow> string" where
  "or_else v d = (case v of Some s \<Rightarrow> (if s = '''' then d else s) | None \<Rightarrow> d)"

definition empty_model_catalog_hash :: string where
  "empty_model_catalog_hash =
     ''44136fa355b3678a1146ad16f7e8649e94fb4fc21fe77e8310c060f61caaff8a''"

definition empty_model_snapshot :: "string \<times> json" where
  "empty_model_snapshot =
     (empty_model_catalog_hash,
      JObj [(''schema_version'', JInt 1), (''catalog_hash'', JStr empty_model_catalog_hash),
            (''assignments'', JObj [])])"

definition has_title :: "thread \<Rightarrow> bool" where
  "has_title t = (case map_of (th_metadata t) ''title'' of None \<Rightarrow> False | Some v \<Rightarrow> truthy v)"

definition new_thread ::
    "env \<Rightarrow> user \<Rightarrow> string \<Rightarrow> (string \<times> json) list \<Rightarrow> db \<Rightarrow> thread \<times> db" where
  "new_thread e u tid metadata d =
     (let t = \<lparr> th_id = seq_thread d, th_user = u_id u, th_thread_id = tid,
                th_status = ''active'', th_version = 0, th_message_count = 0,
                th_last_sequence = 0, th_metadata = metadata, th_updated_at = env_now e,
                th_created_at = env_now e \<rparr>
      in (t, d\<lparr>db_threads := db_threads d @ [t], seq_thread := seq_thread d + 1\<rparr>))"

definition thread_of_user :: "db \<Rightarrow> int \<Rightarrow> string \<Rightarrow> thread option" where
  "thread_of_user d uid tid =
     find (\<lambda>t. th_user t = uid \<and> th_thread_id t = tid) (db_threads d)"

definition get_or_create_thread ::
    "env \<Rightarrow> user \<Rightarrow> string \<Rightarrow> string option \<Rightarrow> bool \<Rightarrow> db \<Rightarrow> thread tx" where
  "get_or_create_thread e u tid title allow_create d =
     (case thread_of_user d (u_id u) tid of
        Some t \<Rightarrow>
          if or_else title '''' \<noteq> '''' \<and> \<not> has_title t
          then (let t' = t\<lparr>th_metadata := AList.update ''title'' (JStr (or_else title '''')) (th_metadata t),
                           th_updated_at := env_now e\<rparr>
                in Inr (t', put_thread t' d))
          else Inr (t, d)
      | None \<Rightarrow>
          if \<not> allow_create then Inl (app_error NOT_FOUND 404)
          else Inr (new_thread e u tid
                 (if or_else title '''' \<noteq> '''' then [(''title'', JStr (or_else title ''''))] else []) d))"

definition existing_run :: "db \<Rightarrow> int \<Rightarrow> int \<Rightarrow> string \<Rightarrow> run option" where
  "existing_run d uid thid key =
     find (\<lambda>r. r_user r = uid \<and> r_thread r = thid \<and> r_idempotency_key r = key) (db_runs d)"

definition active_run :: "db \<Rightarrow> int \<Rightarrow> run option" where
  "active_run d thid =
     first_by r_created_at (filter (\<lambda>r. r_thread r = thid \<and> active (r_status r)) (db_runs d))"

definition load_reservation :: "db \<Rightarrow> string \<Rightarrow> string \<Rightarrow> string \<Rightarrow> run_reservation option" where
  "load_reservation d username tid key =
     (case find_user d username of None \<Rightarrow> None
      | Some u \<Rightarrow>
         (case thread_of_user d (u_id u) tid of None \<Rightarrow> None
          | Some t \<Rightarrow>
             (case existing_run d (u_id u) (th_id t) key of None \<Rightarrow> None
              | Some r \<Rightarrow> Some \<lparr> rs_run = record_of r tid, rs_created = False,
                                rs_thread_version = th_version t, rs_created_event = None \<rparr>)))"

text \<open>The row of the new Run, before its messages exist.\<close>

definition new_run ::
    "env \<Rightarrow> reserve_args \<Rightarrow> string \<Rightarrow> string \<Rightarrow> string \<Rightarrow> string \<Rightarrow> string fset \<Rightarrow> user \<Rightarrow> thread
       \<Rightarrow> run option \<Rightarrow> run" where
  "new_run e a key hash tenant channel tools u t act =
     (let snapshot = (case ra_model_snapshot a of None \<Rightarrow> empty_model_snapshot | Some s \<Rightarrow> s);
          strategy = (case ra_multitask_strategy a of
              None \<Rightarrow> env_multitask_strategy e | Some s \<Rightarrow> s)
      in \<lparr> r_id = ''run_'' @ env_uuid4 e 0, r_thread = th_id t, r_user = u_id u,
           r_tenant = tenant, r_channel = channel,
           r_approved_tools = sorted_list_of_fset tools,
           r_status = (if act = None then PENDING else QUEUED),
           r_idempotency_key = key, r_request_hash = hash, r_model_name = ra_model_name a,
           r_model_catalog_hash = fst snapshot, r_model_snapshot = snd snapshot,
           r_on_disconnect = or_else (ra_on_disconnect a) (env_disconnect_policy e),
           r_multitask_strategy = strategy, r_fencing_token = 1, r_user_message = None,
           r_assistant_message = None,
           r_supersedes = (if strategy = CANCEL_PREVIOUS then map_option r_id act else None),
           r_last_event_sequence = 0, r_owner = None, r_lease = None,
           r_deadline = Some (env_now e + env_deadline e), r_started_at = None,
           r_finished_at = None, r_error_code = None, r_error_detail = None,
           r_skill = (None, None, None, None), r_input_tokens = 0, r_output_tokens = 0,
           r_cost = 0, r_created_at = env_now e, r_updated_at = env_now e \<rparr>)"

text \<open>The two reserved messages, and the row updates that follow their flush.\<close>

definition reserved_messages :: "env \<Rightarrow> string \<Rightarrow> run \<Rightarrow> thread \<Rightarrow> db \<Rightarrow> message list" where
  "reserved_messages e text r t d =
     [\<lparr> m_id = seq_message d, m_thread = th_id t, m_run = Some (r_id r),
        m_client_id = Some (r_id r @ '':user''), m_sequence = th_last_sequence t + 1,
        m_type = ''human'', m_content = text, m_content_json = None, m_status = ''completed'',
        m_timestamp = env_now e, m_updated_at = env_now e, m_rag_trace = None \<rparr>,
      \<lparr> m_id = seq_message d + 1, m_thread = th_id t, m_run = Some (r_id r),
        m_client_id = Some (r_id r @ '':assistant''), m_sequence = th_last_sequence t + 2,
        m_type = ''ai'', m_content = '''', m_content_json = None,
        m_status = (if r_status r = PENDING then ''streaming'' else ''queued''),
        m_timestamp = env_now e, m_updated_at = env_now e, m_rag_trace = None \<rparr>]"

definition insert_run ::
    "env \<Rightarrow> string \<Rightarrow> string \<Rightarrow> run \<Rightarrow> thread \<Rightarrow> db \<Rightarrow> run_reservation tx" where
  "insert_run e text tid r t d =
     (let d1 = d\<lparr>db_runs := db_runs d @ [r]\<rparr>
      in if \<not> integrity d1 then Inl IntegrityError
         else
          (let ms = reserved_messages e text r t d1;
               d2 = d1\<lparr>db_messages := db_messages d1 @ ms, seq_message := seq_message d1 + 2\<rparr>
           in if \<not> integrity d2 then Inl IntegrityError
              else
               (let t' = t\<lparr>th_last_sequence := th_last_sequence t + 2,
                           th_message_count := th_message_count t + 2,
                           th_version := th_version t + 2, th_updated_at := env_now e\<rparr>;
                    r1 = r\<lparr>r_user_message := Some (seq_message d1),
                           r_assistant_message := Some (seq_message d1 + 1),
                           r_fencing_token := th_version t'\<rparr>;
                    ((event, _), r2, d3) =
                      append_event_in_session e 1 tid RUN_CREATED
                        [(''status'', JStr (status_value (r_status r1))),
                         (''user_message_id'', JInt (seq_message d1)),
                         (''assistant_message_id'', JInt (seq_message d1 + 1)),
                         (''multitask_strategy'', JStr (strategy_value (r_multitask_strategy r1)))]
                        r1 (put_thread t' d2)
                in commit \<lparr> rs_run = record_of r2 tid, rs_created = True,
                            rs_thread_version = th_version t', rs_created_event = Some event \<rparr>
                     (put_run r2 d3))))"

definition reserve_tx ::
    "env \<Rightarrow> reserve_args \<Rightarrow> string \<Rightarrow> string \<Rightarrow> string \<Rightarrow> string \<Rightarrow> string fset \<Rightarrow> db
       \<Rightarrow> run_reservation tx" where
  "reserve_tx e a key hash tenant channel tools d =
     (let strategy = (case ra_multitask_strategy a of
              None \<Rightarrow> env_multitask_strategy e | Some s \<Rightarrow> s) in
      case find_user d (ra_username a) of
        None \<Rightarrow> Inl (app_error AUTHENTICATION_REQUIRED 401)
      | Some u \<Rightarrow>
          (case get_or_create_thread e u (ra_thread_id a) (ra_title a)
                  (ra_allow_implicit_thread a) d of
             Inl ex \<Rightarrow> Inl ex
           | Inr (t, d1) \<Rightarrow>
               (case existing_run d1 (u_id u) (th_id t) key of
                  Some r \<Rightarrow>
                    if r_request_hash r \<noteq> hash then Inl (app_error IDEMPOTENCY_CONFLICT 409)
                    else commit \<lparr> rs_run = record_of r (ra_thread_id a), rs_created = False,
                                  rs_thread_version = th_version t, rs_created_event = None \<rparr> d1
                | None \<Rightarrow>
                    if ra_expected_thread_version a \<noteq> None \<and>
                       ra_expected_thread_version a \<noteq> Some (th_version t)
                    then Inl (AppError THREAD_VERSION_CONFLICT 409 False
                                [(''current_version'', JInt (th_version t))])
                    else
                      (let act = active_run d1 (th_id t)
                       in if act \<noteq> None \<and> strategy = REJECT
                          then Inl (AppError RUN_ACTIVE 409 False
                                 [(''active_run_id'', jopt (\<lambda>r. JStr (r_id r)) act)])
                          else insert_run e (ra_message a) (ra_thread_id a)
                                 (new_run e a key hash tenant channel tools u t act) t d1))))"

text \<open>
  \<open>RunRepository.reserve\<close>: validation, the transaction, and the handler that turns a lost
  race (\<open>IntegrityError\<close>) into the winner's reservation or a retryable conflict.
\<close>

definition reserve :: "env \<Rightarrow> reserve_args \<Rightarrow> db \<Rightarrow> run_reservation tx" where
  "reserve e a d =
     (case validate_thread_id (ra_thread_id a) of Inl ex \<Rightarrow> Inl ex | Inr tid \<Rightarrow>
      case validate_idempotency_key (ra_idempotency_key a) of Inl ex \<Rightarrow> Inl ex | Inr key \<Rightarrow>
      case security_identifier 64 (ra_tenant_id a) of Inl ex \<Rightarrow> Inl ex | Inr tenant \<Rightarrow>
      case security_identifier 32 (ra_channel a) of Inl ex \<Rightarrow> Inl ex | Inr channel \<Rightarrow>
      case approved_tools (ra_approved_tools a) of Inl ex \<Rightarrow> Inl ex | Inr tools \<Rightarrow>
      let snapshot = (case ra_model_snapshot a of None \<Rightarrow> empty_model_snapshot | Some s \<Rightarrow> s);
          hash = or_else (ra_request_hash a)
            (hash_run_request (env_sha256 e)
              \<lparr> rq_message = ra_message a, rq_model_name = ra_model_name a,
                rq_model_catalog_hash = fst snapshot, rq_tenant_id = tenant,
                rq_channel = channel, rq_approved_tools = tools, rq_schema_version = 2 \<rparr>)
      in (case reserve_tx e a key hash tenant channel tools d of
            Inl IntegrityError \<Rightarrow>
              (case load_reservation d (ra_username a) tid key of
                 Some res \<Rightarrow>
                   if rec_request_hash (rs_run res) = hash then Inr (res, d)
                   else Inl (AppError RUN_ACTIVE 409 True [])
               | None \<Rightarrow> Inl (AppError RUN_ACTIVE 409 True []))
          | res \<Rightarrow> res))"

end
