(* ===== verification/Run_Lifecycle.thy ===== *)
theory Run_Lifecycle
  imports Run_Repository
begin

text \<open>
  The transactions of \<open>RunRepository\<close> on a Run that exists
  (\<^verbatim>\<open>src/backend/runs/repository.py\<close>, from \<open>get\<close> to \<open>reconcile_orphans\<close>), each a function
  from the database to its outcome.
\<close>

section \<open>Reads\<close>

definition get_run :: "db \<Rightarrow> string \<Rightarrow> string \<Rightarrow> exn + run_record" where
  "get_run d username rid =
     (case find_run d rid of
        None \<Rightarrow> Inl (app_error RUN_NOT_FOUND 404)
      | Some r \<Rightarrow>
          (case (find_thread d (r_thread r), find_user_id d (r_user r)) of
             (Some t, Some u) \<Rightarrow>
               if u_username u = username then Inr (record_of r (th_thread_id t))
               else Inl (app_error RUN_NOT_FOUND 404)
           | _ \<Rightarrow> Inl (app_error RUN_NOT_FOUND 404)))"

definition get_internal :: "db \<Rightarrow> string \<Rightarrow> exn + run_record" where
  "get_internal d rid =
     (case find_run d rid of
        None \<Rightarrow> Inl (app_error RUN_NOT_FOUND 404)
      | Some r \<Rightarrow>
          (case find_thread d (r_thread r) of
             None \<Rightarrow> Inl (app_error RUN_NOT_FOUND 404)
           | Some t \<Rightarrow> Inr (record_of r (th_thread_id t))))"

definition has_durable_checkpoint :: "db \<Rightarrow> string \<Rightarrow> bool" where
  "has_durable_checkpoint d rid = (find (\<lambda>c. c_run c = rid) (db_checkpoints d) \<noteq> None)"

definition find_pending :: "db \<Rightarrow> string \<Rightarrow> string \<Rightarrow> run_record option" where
  "find_pending d username tid =
     (case find_user d username of None \<Rightarrow> None
      | Some u \<Rightarrow>
         (case first_by r_created_at
                 (filter (\<lambda>r. r_status r = PENDING \<and> r_user r = u_id u \<and>
                    (case find_thread d (r_thread r) of None \<Rightarrow> False
                     | Some t \<Rightarrow> th_thread_id t = tid)) (db_runs d)) of
            None \<Rightarrow> None
          | Some r \<Rightarrow> Some (record_of r tid)))"

definition list_pending :: "db \<Rightarrow> int \<Rightarrow> (string \<times> run_record) list" where
  "list_pending d limit =
     List.map_filter
       (\<lambda>r. case (find_thread d (r_thread r), find_user_id d (r_user r)) of
              (Some t, Some u) \<Rightarrow> Some (u_username u, record_of r (th_thread_id t))
            | _ \<Rightarrow> None)
       (take (nat (max 1 (min limit 5000)))
         (sort_key r_created_at (filter (\<lambda>r. r_status r = PENDING) (db_runs d))))"

section \<open>Guards\<close>

definition assert_fencing :: "run \<Rightarrow> int option \<Rightarrow> exn option" where
  "assert_fencing r fence =
     (if fence \<noteq> None \<and> fence \<noteq> Some (r_fencing_token r)
      then Some (AppError RUN_STATE_CONFLICT 409 False
             [(''current_fencing_token'', JInt (r_fencing_token r))])
      else None)"

definition transition :: "env \<Rightarrow> run \<Rightarrow> run_status \<Rightarrow> exn + run" where
  "transition e r target =
     (if can_transition (r_status r) target
      then Inr (r\<lparr>r_status := target, r_updated_at := env_now e\<rparr>)
      else Inl (app_error RUN_STATE_CONFLICT 409))"

definition lease_length :: "env \<Rightarrow> int option \<Rightarrow> int" where
  "lease_length e v =
     (case v of None \<Rightarrow> env_lease_seconds e
      | Some n \<Rightarrow> if n = 0 then env_lease_seconds e else n)"

text \<open>One event of a transaction on \<open>r\<close>: the run object and the session after it.\<close>

definition emit ::
    "env \<Rightarrow> nat \<Rightarrow> string \<Rightarrow> run_event_type \<Rightarrow> (string \<times> json) list \<Rightarrow> run \<times> db \<Rightarrow> run \<times> db" where
  "emit e k tid ty data s = snd (append_event_in_session e k tid ty data (fst s) (snd s))"

section \<open>Claim, heartbeat, suspension, cancellation request\<close>

definition lease_valid :: "env \<Rightarrow> run \<Rightarrow> bool" where
  "lease_valid e r = (case r_lease r of None \<Rightarrow> False | Some l \<Rightarrow> env_now e \<le> l)"

definition claim_apply :: "env \<Rightarrow> string \<Rightarrow> int option \<Rightarrow> thread \<Rightarrow> run \<Rightarrow> db \<Rightarrow> run_record tx" where
  "claim_apply e worker lease t r d =
     (case transition e r RUNNING of
        Inl ex \<Rightarrow> Inl ex
      | Inr r1 \<Rightarrow>
          (let r2 = r1\<lparr>r_owner := Some worker, r_fencing_token := r_fencing_token r1 + 1,
                       r_lease := Some (env_now e + seconds (lease_length e lease)),
                       r_started_at := (case r_started_at r1 of
                           None \<Rightarrow> Some (env_now e) | Some s \<Rightarrow> Some s)\<rparr>;
               (r3, d3) = emit e 0 (th_thread_id t) RUN_STARTED
                   [(''status'', JStr (status_value (r_status r2))),
                    (''worker_id'', JStr worker),
                    (''fencing_token'', JInt (r_fencing_token r2))] (r2, d)
           in commit (record_of r3 (th_thread_id t)) (put_run r3 d3)))"

definition claim :: "env \<Rightarrow> string \<Rightarrow> string \<Rightarrow> int option \<Rightarrow> db \<Rightarrow> run_record tx" where
  "claim e rid worker lease d =
     (case find_run d rid of
        None \<Rightarrow> Inl (app_error RUN_NOT_FOUND 404)
      | Some r \<Rightarrow>
          (case find_thread d (r_thread r) of
             None \<Rightarrow> Inl RuntimeError
           | Some t \<Rightarrow>
               if r_status r = RUNNING \<and> r_owner r = Some worker \<and>
                  (r_lease r = None \<or> lease_valid e r)
               then commit (record_of r (th_thread_id t)) d
               else if r_status r = RUNNING \<and> lease_valid e r
               then Inl (app_error RUN_ACTIVE 409)
               else if r_status r \<noteq> RUNNING \<and> r_status r \<noteq> PENDING
               then Inl (app_error RUN_STATE_CONFLICT 409)
               else claim_apply e worker lease t r d))"

definition heartbeat :: "env \<Rightarrow> string \<Rightarrow> string \<Rightarrow> int \<Rightarrow> int option \<Rightarrow> db \<Rightarrow> run_record tx" where
  "heartbeat e rid worker fence lease d =
     (case find_run d rid of
        None \<Rightarrow> Inl (app_error RUN_NOT_FOUND 404)
      | Some r \<Rightarrow>
          (case assert_fencing r (Some fence) of
             Some ex \<Rightarrow> Inl ex
           | None \<Rightarrow>
               if r_owner r \<noteq> Some worker \<or> r_status r \<notin> {RUNNING, CANCELLING}
               then Inl (app_error RUN_STATE_CONFLICT 409)
               else (case find_thread d (r_thread r) of
                   None \<Rightarrow> Inl RuntimeError
                 | Some t \<Rightarrow>
                     (let r1 = r\<lparr>r_lease := Some (env_now e + seconds (lease_length e lease)),
                                 r_updated_at := env_now e\<rparr>
                      in commit (record_of r1 (th_thread_id t)) (put_run r1 d)))))"

definition set_waiting_input :: "env \<Rightarrow> string \<Rightarrow> string \<Rightarrow> int \<Rightarrow> db \<Rightarrow> run_record tx" where
  "set_waiting_input e rid worker fence d =
     (case find_run d rid of
        None \<Rightarrow> Inl (app_error RUN_NOT_FOUND 404)
      | Some r \<Rightarrow>
          (case assert_fencing r (Some fence) of
             Some ex \<Rightarrow> Inl ex
           | None \<Rightarrow>
               if r_owner r \<noteq> Some worker then Inl (app_error RUN_STATE_CONFLICT 409)
               else (case transition e r WAITING_INPUT of
                   Inl ex \<Rightarrow> Inl ex
                 | Inr r1 \<Rightarrow>
                     (case find_thread d (r_thread r) of
                        None \<Rightarrow> Inl RuntimeError
                      | Some t \<Rightarrow>
                          (let r2 = r1\<lparr>r_owner := None, r_lease := None\<rparr>;
                               d1 = set_message (r_assistant_message r2)
                                 (\<lambda>m. m\<lparr>m_status := ''waiting_input'', m_updated_at := env_now e\<rparr>) d;
                               (r3, d2) = emit e 0 (th_thread_id t) RUN_WAITING_INPUT
                                 [(''status'', JStr (status_value (r_status r2)))] (r2, d1)
                           in commit (record_of r3 (th_thread_id t)) (put_run r3 d2))))))"

definition cancel_requested_text :: string where
  "cancel_requested_text = utf8 [231, 148, 168, 230, 136, 183, 229, 183, 178, 232, 175, 183, 230,
     177, 130, 229, 129, 156, 230, 173, 162, 232, 191, 144, 232, 161, 140]"

definition mark_cancelling :: "env \<Rightarrow> string \<Rightarrow> string \<Rightarrow> db \<Rightarrow> run_record tx" where
  "mark_cancelling e username rid d =
     (case find_run d rid of
        None \<Rightarrow> Inl (app_error RUN_NOT_FOUND 404)
      | Some r \<Rightarrow>
          (case (find_thread d (r_thread r), find_user_id d (r_user r)) of
             (Some t, Some u) \<Rightarrow>
               if u_username u \<noteq> username then Inl (app_error RUN_NOT_FOUND 404)
               else if terminal (r_status r) \<or> r_status r = CANCELLING
               then commit (record_of r (th_thread_id t)) d
               else (case transition e r CANCELLING of
                   Inl ex \<Rightarrow> Inl ex
                 | Inr r1 \<Rightarrow>
                     (let (r2, d1) = emit e 0 (th_thread_id t) WARNING_CREATED
                            [(''code'', JStr ''CANCEL_REQUESTED''),
                             (''message'', JStr cancel_requested_text)] (r1, d)
                      in commit (record_of r2 (th_thread_id t)) (put_run r2 d1)))
           | _ \<Rightarrow> Inl (app_error RUN_NOT_FOUND 404)))"

section \<open>Finalisation\<close>

definition message_status :: "run_status \<Rightarrow> bool \<Rightarrow> string" where
  "message_status target partial =
     (if partial then ''incomplete''
      else if target = SUCCEEDED then ''completed''
      else if target = CANCELLED then ''cancelled''
      else ''failed'')"

definition promote_next_queued :: "env \<Rightarrow> thread \<Rightarrow> db \<Rightarrow> db" where
  "promote_next_queued e t d =
     (case first_by r_created_at
             (filter (\<lambda>r. r_thread r = th_id t \<and> r_status r = QUEUED) (db_runs d)) of
        None \<Rightarrow> d
      | Some q \<Rightarrow>
          set_message (r_assistant_message q)
            (\<lambda>m. m\<lparr>m_status := ''streaming'', m_updated_at := env_now e\<rparr>)
            (put_run (q\<lparr>r_status := PENDING, r_updated_at := env_now e\<rparr>) d))"

record finalize_args =
  f_run_id :: string
  f_target :: run_status
  f_content :: string
  f_fencing_token :: "int option"
  f_error_code :: "string option"
  f_error_detail :: "json option"
  f_input_tokens :: int
  f_output_tokens :: int
  f_cost :: rat
  f_rag_trace :: "json option"
  f_partial :: bool
  f_lease_expired_before :: "timestamp option"

definition cancelled_text :: string where
  "cancelled_text = utf8 [232, 191, 144, 232, 161, 140, 229, 183, 178, 231, 148, 177, 231, 148,
     168, 230, 136, 183, 229, 143, 150, 230, 182, 136, 227, 128, 130]"

definition cancelled_public_error :: public_error where
  "cancelled_public_error =
     PublicError (error_value RUN_CANCELLED) cancelled_text 409 False (Some ''run'')
       (Some ''cancellation'')"

text \<open>A Run whose cancellation was requested ends cancelled, whatever its worker reports.\<close>

definition cancelled_override :: "finalize_args \<Rightarrow> finalize_args" where
  "cancelled_override a =
     a\<lparr>f_target := CANCELLED,
       f_content := (if f_partial a then f_content a else pe_message cancelled_public_error),
       f_error_code := Some (pe_code cancelled_public_error),
       f_error_detail := Some (serialize_public_error cancelled_public_error),
       f_partial := True\<rparr>"

fun terminal_type :: "run_status \<Rightarrow> run_event_type" where
  "terminal_type SUCCEEDED = RUN_COMPLETED"
| "terminal_type FAILED = RUN_FAILED"
| "terminal_type _ = RUN_CANCELLED_EVENT"

text \<open>The columns of the run row that finalisation writes.\<close>

definition finished_run :: "env \<Rightarrow> finalize_args \<Rightarrow> run \<Rightarrow> run" where
  "finished_run e a r =
     r\<lparr>r_finished_at := Some (env_now e), r_lease := None, r_error_code := f_error_code a,
       r_error_detail := f_error_detail a, r_input_tokens := max 0 (f_input_tokens a),
       r_output_tokens := max 0 (f_output_tokens a), r_cost := f_cost a\<rparr>"

definition finalize_events ::
    "env \<Rightarrow> finalize_args \<Rightarrow> string \<Rightarrow> run \<times> db \<Rightarrow> run \<times> db" where
  "finalize_events e a tid s =
     (let r = fst s;
          s1 = (if f_input_tokens a \<noteq> 0 \<or> f_output_tokens a \<noteq> 0 \<or> f_cost a \<noteq> 0
                then emit e 0 tid USAGE_UPDATED
                  [(''input_tokens'', JInt (r_input_tokens r)),
                   (''output_tokens'', JInt (r_output_tokens r)),
                   (''cost'', JNum (r_cost r))] s
                else s);
          s2 = emit e 1 tid MESSAGE_COMPLETED
                 [(''message_id'', jopt JInt (r_assistant_message r)),
                  (''content'', JStr (f_content a)),
                  (''status'', JStr (message_status (f_target a) (f_partial a))),
                  (''rag_trace'', jopt (\<lambda>j. j) (f_rag_trace a))] s1
      in emit e 2 tid (terminal_type (f_target a))
           [(''status'', JStr (status_value (r_status r))),
            (''error_code'', jopt JStr (r_error_code r)),
            (''error'', jopt (\<lambda>p. JObj (contract p)) (deserialize_public_error (f_error_detail a))),
            (''assistant_message_id'', jopt JInt (r_assistant_message r))] s2)"

definition finalize_apply ::
    "env \<Rightarrow> finalize_args \<Rightarrow> thread \<Rightarrow> run \<Rightarrow> db \<Rightarrow> run_record tx" where
  "finalize_apply e a t r1 d =
     (let d1 = set_message (r_assistant_message r1)
            (\<lambda>m. m\<lparr>m_content := f_content a,
                   m_status := message_status (f_target a) (f_partial a),
                   m_rag_trace := f_rag_trace a, m_updated_at := env_now e\<rparr>) d;
          d2 = put_thread (t\<lparr>th_updated_at := env_now e\<rparr>) d1;
          (r2, d3) = finalize_events e a (th_thread_id t) (finished_run e a r1, d2);
          d4 = put_run r2 d3
      in if \<not> integrity d4 then Inl IntegrityError
         else commit (record_of r2 (th_thread_id t)) (promote_next_queued e t d4))"

definition finalize :: "env \<Rightarrow> finalize_args \<Rightarrow> db \<Rightarrow> run_record tx" where
  "finalize e a d =
     (if \<not> terminal (f_target a) then Inl ValueError else
      case find_run d (f_run_id a) of
        None \<Rightarrow> Inl (app_error RUN_NOT_FOUND 404)
      | Some r \<Rightarrow>
          (case find_thread d (r_thread r) of
             None \<Rightarrow> Inl RuntimeError
           | Some t \<Rightarrow>
               (case assert_fencing r (f_fencing_token a) of
                  Some ex \<Rightarrow> Inl ex
                | None \<Rightarrow>
                    if (case f_lease_expired_before a of
                          None \<Rightarrow> False
                        | Some cutoff \<Rightarrow> r_status r \<notin> {RUNNING, CANCELLING} \<or>
                            (case r_lease r of None \<Rightarrow> True | Some l \<Rightarrow> cutoff \<le> l))
                    then Inl (app_error RUN_STATE_CONFLICT 409)
                    else if terminal (r_status r)
                    then (if r_status r \<noteq> f_target a then Inl (app_error RUN_STATE_CONFLICT 409)
                          else commit (record_of r (th_thread_id t)) d)
                    else
                      (let a' = (if r_status r = CANCELLING \<and> f_target a \<noteq> CANCELLED
                                 then cancelled_override a else a)
                       in case transition e r (f_target a') of
                            Inl ex \<Rightarrow> Inl ex
                          | Inr r1 \<Rightarrow> finalize_apply e a' t r1 d))))"

section \<open>Orphan recovery\<close>

definition orphan_text :: string where
  "orphan_text = utf8 [232, 191, 144, 232, 161, 140, 230, 137, 128, 229, 177, 158, 32, 119, 111,
     114, 107, 101, 114, 32, 229, 183, 178, 229, 164, 177, 232, 129, 148, 239, 188, 140, 228, 187,
     187, 229, 138, 161, 230, 156, 170, 229, 174, 140, 230, 136, 144, 227, 128, 130]"

definition orphan_args :: "timestamp \<Rightarrow> string \<Rightarrow> int \<Rightarrow> finalize_args" where
  "orphan_args now rid fence =
     \<lparr> f_run_id = rid, f_target = FAILED, f_content = orphan_text,
       f_fencing_token = Some fence, f_error_code = Some ''ORPHAN_RUN'',
       f_error_detail = Some (serialize_public_error
         (PublicError ''ORPHAN_RUN'' orphan_text 503 True (Some ''run'') (Some ''ownership''))),
       f_input_tokens = 0, f_output_tokens = 0, f_cost = 0, f_rag_trace = None,
       f_partial = True, f_lease_expired_before = Some now \<rparr>"

definition orphan_candidates :: "timestamp \<Rightarrow> db \<Rightarrow> (string \<times> int) list" where
  "orphan_candidates now d =
     map (\<lambda>r. (r_id r, r_fencing_token r))
       (filter (\<lambda>r. r_status r \<in> {RUNNING, CANCELLING} \<and>
          (case r_lease r of None \<Rightarrow> False | Some l \<Rightarrow> l < now)) (db_runs d))"

text \<open>
  The recovery loop: one transaction per candidate, an \<open>AppError\<close> skips the candidate, any
  other exception leaves the loop with what was recovered so far already committed. The
  environment of the \<open>i\<close>-th transaction is \<open>es i\<close>.
\<close>

fun reconcile_loop ::
    "(nat \<Rightarrow> env) \<Rightarrow> nat \<Rightarrow> timestamp \<Rightarrow> (string \<times> int) list \<Rightarrow> string list \<Rightarrow> db
       \<Rightarrow> exn option \<times> string list \<times> db" where
  "reconcile_loop es i now [] recovered d = (None, recovered, d)"
| "reconcile_loop es i now ((rid, fence) # rest) recovered d =
     (case finalize (es i) (orphan_args now rid fence) d of
        Inr (_, d') \<Rightarrow> reconcile_loop es (Suc i) now rest (recovered @ [rid]) d'
      | Inl (AppError _ _ _ _) \<Rightarrow> reconcile_loop es (Suc i) now rest recovered d
      | Inl ex \<Rightarrow> (Some ex, recovered, d))"

definition reconcile_orphans ::
    "(nat \<Rightarrow> env) \<Rightarrow> timestamp \<Rightarrow> db \<Rightarrow> exn option \<times> string list \<times> db" where
  "reconcile_orphans es now d = reconcile_loop es 0 now (orphan_candidates now d) [] d"

section \<open>Skill pin and tool audit\<close>

definition owns_running :: "run \<Rightarrow> string \<Rightarrow> bool" where
  "owns_running r worker \<longleftrightarrow> r_status r = RUNNING \<and> r_owner r = Some worker"

definition nonempty :: "string option \<Rightarrow> bool" where
  "nonempty v = (or_else v '''' \<noteq> '''')"

definition pin_skill_activation ::
    "env \<Rightarrow> string \<Rightarrow> string \<Rightarrow> int \<Rightarrow> string \<Rightarrow> string \<Rightarrow> string \<Rightarrow> string \<Rightarrow> db \<Rightarrow> run_record tx" where
  "pin_skill_activation e rid worker fence name version hash source d =
     (case find_run d rid of
        None \<Rightarrow> Inl (app_error RUN_NOT_FOUND 404)
      | Some r \<Rightarrow>
          (case find_thread d (r_thread r) of
             None \<Rightarrow> Inl (app_error RUN_NOT_FOUND 404)
           | Some t \<Rightarrow>
               (case assert_fencing r (Some fence) of
                  Some ex \<Rightarrow> Inl ex
                | None \<Rightarrow>
                    if \<not> owns_running r worker then Inl (app_error RUN_STATE_CONFLICT 409)
                    else
                     (let requested = (Some name, Some version, Some hash, Some source);
                          (a, b, c, s) = r_skill r
                      in if nonempty a \<or> nonempty b \<or> nonempty c \<or> nonempty s
                         then (if r_skill r \<noteq> requested
                               then Inl (app_error RUN_STATE_CONFLICT 409)
                               else Inr (record_of r (th_thread_id t), d))
                         else (let r1 = r\<lparr>r_skill := requested, r_updated_at := env_now e\<rparr>
                               in commit (record_of r1 (th_thread_id t)) (put_run r1 d))))))"

record audit_args =
  aa_audit_key :: string
  aa_tool_call_id :: "string option"
  aa_tool_name :: string
  aa_tool_version :: string
  aa_decision :: string
  aa_reason_code :: "string option"
  aa_policy_version :: "string option"
  aa_policy_hash :: "string option"
  aa_success :: bool
  aa_error_code :: "string option"
  aa_duration_ms :: int
  aa_result_size :: int
  aa_metadata :: "(string \<times> json) list"

definition is_digest :: "string \<Rightarrow> bool" where
  "is_digest s \<longleftrightarrow> length s = 64 \<and> list_all (\<lambda>c. c \<in> set ''0123456789abcdef'') s"

text \<open>\<open>s[:n] if s else None\<close>.\<close>

definition py_take_opt :: "nat \<Rightarrow> string option \<Rightarrow> string option" where
  "py_take_opt n v = (if nonempty v then map_option (py_take n) v else None)"

definition audit_row :: "audit_args \<Rightarrow> run \<Rightarrow> thread \<Rightarrow> int \<Rightarrow> tool_audit" where
  "audit_row a r t i =
     (let (sname, sversion, _, _) = r_skill r
      in \<lparr> a_id = i, a_user = r_user r, a_thread_id = th_thread_id t, a_run = Some (r_id r),
           a_audit_key = aa_audit_key a, a_tool_call_id = py_take_opt 128 (aa_tool_call_id a),
           a_tool_name = py_take 128 (aa_tool_name a),
           a_tool_version = py_take 64 (aa_tool_version a), a_skill_name = or_else sname '''',
           a_decision = py_take 32 (aa_decision a),
           a_reason_code = py_take_opt 64 (aa_reason_code a),
           a_policy_version = py_take_opt 64 (aa_policy_version a),
           a_policy_hash = (if nonempty (aa_policy_hash a) then aa_policy_hash a else None),
           a_success = aa_success a, a_error_code = py_take_opt 64 (aa_error_code a),
           a_duration_ms = max (aa_duration_ms a) 0, a_result_size = max (aa_result_size a) 0,
           a_metadata = AList.update ''skill_version'' (JStr (or_else sversion ''''))
             (AList.update ''skill_name'' (JStr (or_else sname '''')) (aa_metadata a)) \<rparr>)"

definition same_audit :: "tool_audit \<Rightarrow> tool_audit \<Rightarrow> bool" where
  "same_audit x y \<longleftrightarrow>
     x\<lparr>a_id := a_id y, a_user := a_user y, a_thread_id := a_thread_id y, a_run := a_run y,
       a_audit_key := a_audit_key y, a_metadata := a_metadata y\<rparr> = y \<and>
     set (a_metadata x) = set (a_metadata y)"

definition record_tool_audit ::
    "string \<Rightarrow> string \<Rightarrow> int \<Rightarrow> audit_args \<Rightarrow> db \<Rightarrow> unit tx" where
  "record_tool_audit rid worker fence a d =
     (if \<not> is_digest (aa_audit_key a) then Inl ValueError else
      case find_run d rid of
        None \<Rightarrow> Inl (app_error RUN_NOT_FOUND 404)
      | Some r \<Rightarrow>
          (case find_thread d (r_thread r) of
             None \<Rightarrow> Inl (app_error RUN_NOT_FOUND 404)
           | Some t \<Rightarrow>
               (case assert_fencing r (Some fence) of
                  Some ex \<Rightarrow> Inl ex
                | None \<Rightarrow>
                    if \<not> owns_running r worker then Inl (app_error RUN_STATE_CONFLICT 409)
                    else if nonempty (aa_policy_hash a) \<and> \<not> is_digest (or_else (aa_policy_hash a) '''')
                    then Inl ValueError
                    else
                     (let row = audit_row a r t (seq_audit d)
                      in case find (\<lambda>x. a_run x = Some (r_id r) \<and> a_audit_key x = aa_audit_key a)
                               (db_audits d) of
                           Some x \<Rightarrow> if same_audit x row then Inr ((), d)
                                    else Inl (app_error RUN_STATE_CONFLICT 409)
                         | None \<Rightarrow> commit () (d\<lparr>db_audits := db_audits d @ [row],
                                                seq_audit := seq_audit d + 1\<rparr>)))))"

end
