(* ===== verification/Run_Invariant.thy ===== *)
theory Run_Invariant
  imports Run_Lifecycle
begin

text \<open>
  The invariant of the run tables.

  Most transactions change one run row, the display columns of its messages, the timestamp
  of its thread, and append events to its journal. \<open>erase_run\<close>, \<open>erase_message\<close> and
  \<open>erase_thread\<close> forget the columns such a transaction may write, so what is left is
  identity: two databases with the same erased tables satisfy the same structural facts.
\<close>

section \<open>Identity columns\<close>

definition erase_run :: "run \<Rightarrow> run" where
  "erase_run r =
     r\<lparr>r_status := QUEUED, r_fencing_token := 0, r_last_event_sequence := 0, r_owner := None,
       r_lease := None, r_started_at := None, r_finished_at := None, r_error_code := None,
       r_error_detail := None, r_skill := (None, None, None, None), r_input_tokens := 0,
       r_output_tokens := 0, r_cost := 0, r_updated_at := 0\<rparr>"

definition erase_message :: "message \<Rightarrow> message" where
  "erase_message m = m\<lparr>m_content := '''', m_status := '''', m_updated_at := 0, m_rag_trace := None\<rparr>"

definition erase_thread :: "thread \<Rightarrow> thread" where
  "erase_thread t = t\<lparr>th_metadata := [], th_updated_at := 0\<rparr>"

lemma erase_run_simps [simp]:
  "r_id (erase_run r) = r_id r" "r_thread (erase_run r) = r_thread r"
  "r_user (erase_run r) = r_user r" "r_idempotency_key (erase_run r) = r_idempotency_key r"
  "r_request_hash (erase_run r) = r_request_hash r"
  "r_model_catalog_hash (erase_run r) = r_model_catalog_hash r"
  "r_user_message (erase_run r) = r_user_message r"
  "r_assistant_message (erase_run r) = r_assistant_message r"
  "r_created_at (erase_run r) = r_created_at r"
  by (simp_all add: erase_run_def)

lemma erase_message_simps [simp]:
  "m_id (erase_message m) = m_id m" "m_thread (erase_message m) = m_thread m"
  "m_run (erase_message m) = m_run m" "m_client_id (erase_message m) = m_client_id m"
  "m_sequence (erase_message m) = m_sequence m" "m_type (erase_message m) = m_type m"
  by (simp_all add: erase_message_def)

lemma erase_thread_simps [simp]:
  "th_id (erase_thread t) = th_id t" "th_user (erase_thread t) = th_user t"
  "th_thread_id (erase_thread t) = th_thread_id t" "th_version (erase_thread t) = th_version t"
  "th_message_count (erase_thread t) = th_message_count t"
  "th_last_sequence (erase_thread t) = th_last_sequence t"
  by (simp_all add: erase_thread_def)

lemma erase_run_cong:
  assumes "erase_run r = erase_run r'"
  shows "r_id r = r_id r'" "r_thread r = r_thread r'" "r_user r = r_user r'"
    "r_idempotency_key r = r_idempotency_key r'" "r_request_hash r = r_request_hash r'"
    "r_assistant_message r = r_assistant_message r'" "r_created_at r = r_created_at r'"
  using assms erase_run_simps by metis+

section \<open>The invariant\<close>

text \<open>Structure: keys, foreign keys, and the contiguous message journal of every thread.\<close>

definition thread_messages :: "message list \<Rightarrow> int \<Rightarrow> message list" where
  "thread_messages ms i = filter (\<lambda>m. m_thread m = i) ms"

definition thread_counts :: "message list \<Rightarrow> thread \<Rightarrow> bool" where
  "thread_counts ms t \<longleftrightarrow>
     0 \<le> th_last_sequence t \<and> th_message_count t = th_last_sequence t \<and>
     th_version t = th_last_sequence t \<and>
     map m_sequence (thread_messages ms (th_id t)) = [1..th_last_sequence t]"

definition run_links :: "user list \<Rightarrow> thread list \<Rightarrow> message list \<Rightarrow> run \<Rightarrow> bool" where
  "run_links us ts ms r \<longleftrightarrow>
     (\<exists>u \<in> set us. u_id u = r_user r) \<and>
     (\<exists>t \<in> set ts. th_id t = r_thread r \<and> th_user t = r_user r) \<and>
     (\<exists>m \<in> set ms. r_user_message r = Some (m_id m) \<and> m_run m = Some (r_id r) \<and>
        m_thread m = r_thread r \<and> m_type m = ''human'') \<and>
     (\<exists>m \<in> set ms. r_assistant_message r = Some (m_id m) \<and> m_run m = Some (r_id r) \<and>
        m_thread m = r_thread r \<and> m_type m = ''ai'') \<and>
     length (r_model_catalog_hash r) = 64"

definition struct_ok ::
    "user list \<Rightarrow> thread list \<Rightarrow> message list \<Rightarrow> run list \<Rightarrow> int \<Rightarrow> int \<Rightarrow> bool" where
  "struct_ok us ts ms rs next_thread next_message \<longleftrightarrow>
     distinct (map th_id ts) \<and> (\<forall>t \<in> set ts. th_id t < next_thread) \<and> threads_ok ts \<and>
     distinct (map m_id ms) \<and> (\<forall>m \<in> set ms. m_id m < next_message) \<and>
     (\<forall>m \<in> set ms. \<exists>t \<in> set ts. th_id t = m_thread m) \<and>
     (\<forall>t \<in> set ts. thread_counts ms t) \<and> messages_ok ms \<and>
     distinct (map r_id rs) \<and> idempotency_unique rs \<and>
     distinct (List.map_filter r_assistant_message rs) \<and>
     (\<forall>r \<in> set rs. run_links us ts ms r)"

text \<open>
  The journal of a run that has ended finishes with the one terminal event its status
  calls for; a run that has not ended has none.
\<close>

definition ends_with :: "run_status \<Rightarrow> run_event_type list \<Rightarrow> bool" where
  "ends_with s tys \<longleftrightarrow>
     (if terminal s
      then tys \<noteq> [] \<and> last tys = terminal_type s \<and> list_all (\<lambda>t. \<not> terminal_event t) (butlast tys)
      else list_all (\<lambda>t. \<not> terminal_event t) tys)"

text \<open>A running Run has an owner and a lease; a Run nobody executes has neither.\<close>

definition lease_ok :: "run \<Rightarrow> bool" where
  "lease_ok r \<longleftrightarrow>
     (r_status r = RUNNING \<longrightarrow> r_owner r \<noteq> None \<and> r_lease r \<noteq> None) \<and>
     (r_status r \<in> {QUEUED, PENDING, WAITING_INPUT} \<longrightarrow> r_owner r = None \<and> r_lease r = None) \<and>
     (terminal (r_status r) \<longrightarrow> r_lease r = None)"

definition run_ok :: "db \<Rightarrow> run \<Rightarrow> bool" where
  "run_ok d r \<longleftrightarrow>
     log_of r d \<and> ends_with (r_status r) (map e_type (run_log d (r_id r))) \<and> lease_ok r \<and>
     skill_complete (r_skill r)"

definition tables_inv :: "db \<Rightarrow> bool" where
  "tables_inv d \<longleftrightarrow>
     struct_ok (db_users d) (db_threads d) (db_messages d) (db_runs d) (seq_thread d) (seq_message d) \<and>
     (\<forall>r \<in> set (db_runs d). run_ok d r) \<and>
     (\<forall>ev \<in> set (db_events d). \<exists>r \<in> set (db_runs d). r_id r = e_run ev) \<and>
     events_ok (db_events d) \<and> checkpoints_ok (db_checkpoints d) \<and> audits_ok (db_audits d) \<and>
     distinct (map c_id (db_checkpoints d)) \<and>
     (\<forall>c \<in> set (db_checkpoints d). c_id c < seq_checkpoint d)"

definition run_inv :: "db \<Rightarrow> bool" where
  "run_inv d \<longleftrightarrow> tables_inv d \<and> one_active_per_thread (db_runs d)"

text \<open>Freshness of what a transaction draws from \<open>uuid4\<close>, relative to the stored rows.\<close>

definition fresh_env :: "env \<Rightarrow> db \<Rightarrow> bool" where
  "fresh_env e d \<longleftrightarrow>
     inj (env_uuid4 e) \<and>
     (\<forall>k. \<forall>ev \<in> set (db_events d). e_event_id ev \<noteq> ''evt_'' @ env_uuid4 e k) \<and>
     (\<forall>k. \<forall>ev \<in> set (db_events d). e_run ev \<noteq> ''run_'' @ env_uuid4 e k) \<and>
     (\<forall>k. \<forall>r \<in> set (db_runs d). r_id r \<noteq> ''run_'' @ env_uuid4 e k) \<and>
     (\<forall>k. \<forall>m \<in> set (db_messages d). m_client_id m \<noteq> Some ((''run_'' @ env_uuid4 e k) @ '':user'') \<and>
        m_client_id m \<noteq> Some ((''run_'' @ env_uuid4 e k) @ '':assistant'')) \<and>
     (\<forall>k. \<forall>c \<in> set (db_checkpoints d). c_hitl_token c \<noteq> Some (''hitl_'' @ env_uuid4 e k))"

lemma struct_ok_erase:
  "struct_ok us (map erase_thread ts) (map erase_message ms) (map erase_run rs) a b =
   struct_ok us ts ms rs a b"
proof -
  have msgs: "map m_sequence (thread_messages (map erase_message ms) i) =
      map m_sequence (thread_messages ms i)" for i
    by (simp add: thread_messages_def filter_map comp_def)
  have counts: "thread_counts (map erase_message ms) (erase_thread t) = thread_counts ms t" for t
    by (simp add: thread_counts_def msgs)
  have links: "run_links us (map erase_thread ts) (map erase_message ms) (erase_run r) =
      run_links us ts ms r" for r
    by (simp add: run_links_def)
  have filt: "List.map_filter f (map g xs) = List.map_filter (\<lambda>x. f (g x)) xs"
    for f :: "'b \<Rightarrow> 'c option" and g :: "'a \<Rightarrow> 'b" and xs
    by (induction xs) (auto simp: List.map_filter_simps split: option.splits)
  show ?thesis
    unfolding struct_ok_def
    by (simp add: counts links filt threads_ok_def messages_ok_def idempotency_unique_def comp_def)
qed

lemma struct_ok_cong:
  assumes "map erase_thread ts = map erase_thread ts'" and "map erase_message ms = map erase_message ms'"
    and "map erase_run rs = map erase_run rs'"
  shows "struct_ok us ts ms rs a b = struct_ok us ts' ms' rs' a b"
  using assms struct_ok_erase by metis

lemma run_inv_integrity: "run_inv d \<Longrightarrow> integrity d"
  by (auto simp: run_inv_def tables_inv_def struct_ok_def integrity_def runs_ok_def run_ok_def
      run_links_def list_all_iff)

lemma tables_inv_integrity: "tables_inv d \<Longrightarrow> integrity d \<Longrightarrow> run_inv d"
  by (simp add: run_inv_def integrity_def runs_ok_def)

end
