(* ===== verification/Run_Frames.thy ===== *)
theory Run_Frames
  imports Run_Invariant
begin

text \<open>
  The frame rules that carry the invariant through a transaction on one Run. \<open>tx_frame\<close>
  says that a session is such a transaction in progress: it has emitted a list of events of
  that Run and otherwise written only columns that \<open>erase_message\<close> and \<open>erase_thread\<close>
  forget. The rules \<open>run_inv_put\<close> and \<open>tables_inv_put\<close> close the transaction by writing the
  run row back.
\<close>

section \<open>Transactions in progress\<close>

definition same_tables :: "db \<Rightarrow> db \<Rightarrow> bool" where
  "same_tables d d1 \<longleftrightarrow>
     db_users d1 = db_users d \<and> db_runs d1 = db_runs d \<and>
     map erase_thread (db_threads d1) = map erase_thread (db_threads d) \<and>
     map erase_message (db_messages d1) = map erase_message (db_messages d) \<and>
     seq_thread d1 = seq_thread d \<and> seq_message d1 = seq_message d \<and>
     db_checkpoints d1 = db_checkpoints d \<and> db_audits d1 = db_audits d \<and>
     seq_checkpoint d1 = seq_checkpoint d"

definition new_events ::
    "env \<Rightarrow> (nat \<times> run_event_type) list \<Rightarrow> run \<Rightarrow> run_event list \<Rightarrow> bool" where
  "new_events e evs r new \<longleftrightarrow>
     (\<forall>ev \<in> set new. e_run ev = r_id r) \<and>
     map e_sequence new = [r_last_event_sequence r + 1..r_last_event_sequence r + int (length evs)] \<and>
     map e_event_id new = map (\<lambda>k. ''evt_'' @ env_uuid4 e (fst k)) evs \<and>
     map e_type new = map snd evs"

definition tx_frame ::
    "env \<Rightarrow> (nat \<times> run_event_type) list \<Rightarrow> db \<Rightarrow> run \<Rightarrow> db \<Rightarrow> bool" where
  "tx_frame e evs d r d1 \<longleftrightarrow>
     same_tables d d1 \<and> (\<exists>new. db_events d1 = db_events d @ new \<and> new_events e evs r new)"

lemma tx_frameI:
  "same_tables d d1 \<Longrightarrow> db_events d1 = db_events d @ new \<Longrightarrow> new_events e evs r new \<Longrightarrow>
   tx_frame e evs d r d1"
  by (auto simp: tx_frame_def)

lemma tx_frameE:
  assumes "tx_frame e evs d r d1"
  obtains new where "same_tables d d1" "db_events d1 = db_events d @ new" "new_events e evs r new"
  using assms by (auto simp: tx_frame_def)

lemma tx_frame_refl: "tx_frame e [] d r d"
  by (rule tx_frameI [where new = "[]"]) (simp_all add: same_tables_def new_events_def)

lemma tx_frame_step:
  assumes "tx_frame e evs d r d1" and "same_tables d1 d2" and "db_events d2 = db_events d1"
  shows "tx_frame e evs d r d2"
  using assms(1)
proof (rule tx_frameE)
  fix new
  assume "same_tables d d1" "db_events d1 = db_events d @ new" "new_events e evs r new"
  with assms(2,3) show ?thesis
    by (intro tx_frameI [where new = new]) (simp_all add: same_tables_def)
qed

lemma same_tables_message:
  assumes "\<And>m. erase_message (f m) = erase_message m"
  shows "same_tables d (set_message i f d)"
  using assms by (cases i) (simp_all add: same_tables_def set_message_def row_simps)

lemma same_tables_thread:
  assumes "erase_thread t' = erase_thread t" and "find_thread d i = Some t"
    and "distinct (map th_id (db_threads d))"
  shows "same_tables d (put_thread t' d)"
proof -
  have t: "t \<in> set (db_threads d)"
    using assms(2) by (auto simp: find_thread_def dest: find_SomeD)
  have id: "th_id t' = th_id t"
    using assms(1) erase_thread_simps(1) by metis
  have "map erase_thread (update_where (\<lambda>x. th_id x = th_id t') (\<lambda>_. t') (db_threads d)) =
      map erase_thread (db_threads d)"
    unfolding update_where_def map_map comp_def
  proof (rule map_cong [OF refl])
    fix x
    assume "x \<in> set (db_threads d)"
    then show "erase_thread (if th_id x = th_id t' then t' else x) = erase_thread x"
      using distinct_key_unique [OF assms(3) _ t] assms(1) id by auto
  qed
  then show ?thesis
    by (simp add: same_tables_def put_thread_def)
qed

lemma upto_extend: "a \<le> b + 1 \<Longrightarrow> [a..b] @ [b + 1] = [a..b + 1 :: int]"
  using upto_rec2 [of a "b + 1"] by simp

lemma emit_run:
  "fst (emit e k tid ty data (r1, d1)) = r1\<lparr>r_last_event_sequence := r_last_event_sequence r1 + 1\<rparr>"
  by (simp add: emit_def append_event_in_session_def Let_def)

lemma emit_events:
  "db_events (snd (emit e k tid ty data (r1, d1))) = db_events d1 @
     [\<lparr> e_id = seq_event d1, e_event_id = ''evt_'' @ env_uuid4 e k, e_run = r_id r1,
        e_sequence = r_last_event_sequence r1 + 1, e_type = ty, e_payload = data,
        e_created_at = env_now e \<rparr>]"
  by (simp add: emit_def append_event_in_session_def new_run_event_def Let_def)

lemma emit_tables: "same_tables d1 (snd (emit e k tid ty data (r1, d1)))"
  by (simp add: emit_def append_event_in_session_def Let_def same_tables_def)

lemma tx_frame_emit:
  assumes "tx_frame e evs d r d1" and "r_id r1 = r_id r"
    and "r_last_event_sequence r1 = r_last_event_sequence r + int (length evs)"
  shows "tx_frame e (evs @ [(k, ty)]) d r (snd (emit e k tid ty data (r1, d1)))"
  using assms(1)
proof (rule tx_frameE)
  fix new
  assume new: "same_tables d d1" "db_events d1 = db_events d @ new" "new_events e evs r new"
  let ?row = "\<lparr> e_id = seq_event d1, e_event_id = ''evt_'' @ env_uuid4 e k, e_run = r_id r1,
      e_sequence = r_last_event_sequence r1 + 1, e_type = ty, e_payload = data,
      e_created_at = env_now e \<rparr>"
  have "new_events e (evs @ [(k, ty)]) r (new @ [?row])"
    using new(3) assms(2,3)
      upto_extend [of "r_last_event_sequence r + 1" "r_last_event_sequence r + int (length evs)"]
    by (simp add: new_events_def algebra_simps)
  then show ?thesis
    using new(1,2) emit_tables [of d1 e k tid ty data r1]
    by (intro tx_frameI [where new = "new @ [?row]"]) (simp_all add: emit_events same_tables_def)
qed

text \<open>The run object and the session after the events \<open>evs\<close> have been emitted for \<open>r1\<close>.\<close>

definition emitted ::
    "env \<Rightarrow> (nat \<times> run_event_type) list \<Rightarrow> db \<Rightarrow> run \<Rightarrow> run \<Rightarrow> run \<times> db \<Rightarrow> bool" where
  "emitted e evs d r r1 s \<longleftrightarrow> tx_frame e evs d r (snd s) \<and>
     fst s = r1\<lparr>r_last_event_sequence := r_last_event_sequence r + int (length evs)\<rparr>"

lemma emitted_refl:
  assumes "tx_frame e [] d r d1" and "r_last_event_sequence r1 = r_last_event_sequence r"
  shows "emitted e [] d r r1 (r1, d1)"
  using assms by (cases r1) (simp add: emitted_def)

lemma emitted_emit:
  assumes "emitted e evs d r r1 s" and "r_id r1 = r_id r"
  shows "emitted e (evs @ [(k, ty)]) d r r1 (emit e k tid ty data s)"
  using assms tx_frame_emit [of e evs d r "snd s" "fst s" k ty tid data]
    emit_run [of e k tid ty data "fst s" "snd s"]
  by (cases s) (simp add: emitted_def algebra_simps)

section \<open>Journals after a transaction\<close>

lemma tx_frame_log:
  assumes "tx_frame e evs d r d1"
  obtains new where "run_log d1 (r_id r) = run_log d (r_id r) @ new" "new_events e evs r new"
    "\<And>rid. rid \<noteq> r_id r \<Longrightarrow> run_log d1 rid = run_log d rid"
  using assms
proof (rule tx_frameE)
  fix new
  assume new: "same_tables d d1" "db_events d1 = db_events d @ new" "new_events e evs r new"
  then have runs: "\<forall>ev \<in> set new. e_run ev = r_id r"
    by (simp add: new_events_def)
  show thesis
  proof (rule that)
    show "run_log d1 (r_id r) = run_log d (r_id r) @ new"
      using new(2) runs by (simp add: run_log_def)
    show "new_events e evs r new" by (rule new(3))
    show "run_log d1 rid = run_log d rid" if "rid \<noteq> r_id r" for rid
      using new(2) runs that by (auto simp: run_log_def intro!: filter_False)
  qed
qed

lemma upto_split: "0 \<le> a \<Longrightarrow> [1..a] @ [a + 1..a + int n] = [1..a + int n :: int]"
  using upto_split1 [of 1 "a + 1" "a + int n"] by (cases "n = 0") simp_all

lemma tx_frame_log_of:
  assumes "tx_frame e evs d r d1" and "log_of r d" and "r_id r1 = r_id r"
    and "r_last_event_sequence r1 = r_last_event_sequence r + int (length evs)"
  shows "log_of r1 d1"
  using assms(1)
proof (rule tx_frame_log)
  fix new
  assume "run_log d1 (r_id r) = run_log d (r_id r) @ new" "new_events e evs r new"
  then show ?thesis
    using assms(2-4) upto_split [of "r_last_event_sequence r" "length evs"]
    by (simp add: log_of_def new_events_def)
qed

lemma tx_frame_types:
  assumes "tx_frame e evs d r d1"
  shows "map e_type (run_log d1 (r_id r)) = map e_type (run_log d (r_id r)) @ map snd evs"
  using assms by (rule tx_frame_log) (simp add: new_events_def)

section \<open>Closing a transaction\<close>

lemma find_run_SomeD: "find_run d rid = Some r \<Longrightarrow> r \<in> set (db_runs d) \<and> r_id r = rid"
  by (auto simp: find_run_def dest: find_SomeD)

lemma find_thread_SomeD: "find_thread d i = Some t \<Longrightarrow> t \<in> set (db_threads d) \<and> th_id t = i"
  by (auto simp: find_thread_def dest: find_SomeD)

lemma tables_inv_keys:
  assumes "tables_inv d"
  shows "distinct (map r_id (db_runs d))" and "distinct (map th_id (db_threads d))"
    and "distinct (map m_id (db_messages d))"
  using assms by (simp_all add: tables_inv_def struct_ok_def)

lemma tables_inv_run:
  assumes "tables_inv d" and "find_run d rid = Some r"
  shows "run_ok d r" and "run_links (db_users d) (db_threads d) (db_messages d) r"
  using assms find_run_SomeD [OF assms(2)] by (auto simp: tables_inv_def struct_ok_def)

lemma find_run_unique:
  "distinct (map r_id (db_runs d)) \<Longrightarrow> r \<in> set (db_runs d) \<Longrightarrow> find_run d (r_id r) = Some r"
  unfolding find_run_def by (rule find_unique)

text \<open>Rows of the run table after \<open>put_run\<close>.\<close>

lemma put_run_row:
  assumes "distinct (map r_id (db_runs d))" and "r \<in> set (db_runs d)" and "r_id r1 = r_id r"
  shows "set (db_runs (put_run r1 d)) = insert r1 (set (db_runs d) - {r})"
proof -
  have "x = r" if "x \<in> set (db_runs d)" "r_id x = r_id r" for x
    using distinct_key_unique [OF assms(1) that(1) assms(2) that(2)] .
  then show ?thesis
    using assms(2,3) by (auto simp: put_run_def set_update_where)
qed

lemma find_put_run:
  "r_id r1 = r_id r \<Longrightarrow> find_run (put_run r1 d) rid =
     (if rid = r_id r then map_option (\<lambda>_. r1) (find_run d rid) else find_run d rid)"
  by (cases "find_run d rid")
    (auto simp: find_run_def put_run_def find_update_where dest: find_SomeD)

lemma put_run_frame [simp]:
  "db_users (put_run r d) = db_users d" "db_threads (put_run r d) = db_threads d"
  "db_messages (put_run r d) = db_messages d" "db_events (put_run r d) = db_events d"
  "db_outbox (put_run r d) = db_outbox d" "db_checkpoints (put_run r d) = db_checkpoints d"
  "db_audits (put_run r d) = db_audits d" "seq_thread (put_run r d) = seq_thread d"
  "seq_message (put_run r d) = seq_message d" "seq_checkpoint (put_run r d) = seq_checkpoint d" "run_log (put_run r d) = run_log d"
  by (simp_all add: put_run_def run_log_def fun_eq_iff)

lemma put_run_erase:
  assumes "distinct (map r_id (db_runs d))" and "r \<in> set (db_runs d)"
    and "erase_run r1 = erase_run r"
  shows "map erase_run (db_runs (put_run r1 d)) = map erase_run (db_runs d)"
proof -
  have id: "r_id r1 = r_id r" by (rule erase_run_cong [OF assms(3)])
  have "erase_run (if r_id x = r_id r1 then r1 else x) = erase_run x" if "x \<in> set (db_runs d)" for x
    using distinct_key_unique [OF assms(1) that assms(2)] assms(3) id by auto
  then show ?thesis
    by (simp add: put_run_def update_where_def)
qed

lemma one_active_iff:
  assumes "distinct (map r_id rs)"
  shows "one_active_per_thread rs \<longleftrightarrow>
    (\<forall>x \<in> set rs. \<forall>y \<in> set rs. active (r_status x) \<longrightarrow> active (r_status y) \<longrightarrow>
       r_thread x = r_thread y \<longrightarrow> x = y)"
  using assms by (auto simp: one_active_per_thread_def distinct_map inj_on_def)

lemma one_active_put:
  assumes "one_active_per_thread (db_runs d)" and "distinct (map r_id (db_runs d))"
    and "r \<in> set (db_runs d)" and "erase_run r1 = erase_run r"
    and "active (r_status r1) \<Longrightarrow> active (r_status r) \<or>
      (\<forall>x \<in> set (db_runs d). r_thread x = r_thread r \<longrightarrow> \<not> active (r_status x))"
  shows "one_active_per_thread (db_runs (put_run r1 d))"
proof -
  have id: "r_id r1 = r_id r" and th: "r_thread r1 = r_thread r"
    using erase_run_cong [OF assms(4)] by simp_all
  have "map r_id (db_runs (put_run r1 d)) = map r_id (db_runs d)"
    using arg_cong [OF put_run_erase [OF assms(2-4)], of "map r_id"] by (simp add: comp_def)
  then have dist: "distinct (map r_id (db_runs (put_run r1 d)))"
    using assms(2) by simp
  have old: "x = y" if "x \<in> set (db_runs d)" "y \<in> set (db_runs d)" "active (r_status x)"
    "active (r_status y)" "r_thread x = r_thread y" for x y
    using assms(1) that one_active_iff [OF assms(2)] by blast
  have new: "x = r" if "x \<in> set (db_runs d)" "active (r_status x)" "active (r_status r1)"
    "r_thread x = r_thread r" for x
    using assms(5) [OF that(3)] old [OF that(1) assms(3) that(2)] that by blast
  show ?thesis
    unfolding one_active_iff [OF dist] put_run_row [OF assms(2,3) id]
  proof (intro ballI impI)
    fix x y
    assume xy: "x \<in> insert r1 (set (db_runs d) - {r})" "y \<in> insert r1 (set (db_runs d) - {r})"
      "active (r_status x)" "active (r_status y)" "r_thread x = r_thread y"
    show "x = y"
    proof (cases "x = r1")
      case True
      then show ?thesis using xy th new [of y] by auto
    next
      case False
      then show ?thesis using xy th new [of x] old [of x y] by auto
    qed
  qed
qed

lemma new_events_ok:
  assumes "events_ok evs0" and "new_events e evs r new" and "distinct (map fst evs)"
    and "inj (env_uuid4 e)" and "\<And>k ev. ev \<in> set evs0 \<Longrightarrow> e_event_id ev \<noteq> ''evt_'' @ env_uuid4 e k"
    and "\<And>ev. ev \<in> set evs0 \<Longrightarrow> e_run ev = r_id r \<Longrightarrow> e_sequence ev \<le> r_last_event_sequence r"
  shows "events_ok (evs0 @ new)"
proof -
  have ids: "map e_event_id new = map (\<lambda>k. ''evt_'' @ env_uuid4 e k) (map fst evs)"
    using assms(2) by (simp add: new_events_def)
  have "distinct (map e_event_id new)"
    unfolding ids using assms(3,4) by (simp add: distinct_map inj_on_def)
  moreover have "e_event_id y \<in> range (\<lambda>k. ''evt_'' @ env_uuid4 e k)" if "y \<in> set new" for y
    using arg_cong [OF ids, of set] that by auto
  then have "e_event_id x \<noteq> e_event_id y" if "x \<in> set evs0" "y \<in> set new" for x y
    using assms(5) [OF that(1)] that(2) by (metis rangeE)
  then have "set (map e_event_id evs0) \<inter> set (map e_event_id new) = {}"
    unfolding set_map by blast
  ultimately have 1: "distinct (map e_event_id (evs0 @ new))"
    using assms(1) by (simp add: events_ok_def)
  have seqs: "map e_sequence new =
      [r_last_event_sequence r + 1..r_last_event_sequence r + int (length evs)]"
    using assms(2) by (simp add: new_events_def)
  then have "distinct (map e_sequence new)"
    by simp
  then have "distinct (map (\<lambda>ev. (e_run ev, e_sequence ev)) new)"
    by (auto simp: distinct_map inj_on_def)
  moreover have "r_last_event_sequence r < e_sequence ev \<and> e_run ev = r_id r" if "ev \<in> set new" for ev
  proof -
    have "e_sequence ev \<in> set (map e_sequence new)" using that by simp
    then show ?thesis
      unfolding seqs using that assms(2) by (simp add: new_events_def)
  qed
  then have "(e_run x, e_sequence x) \<noteq> (e_run y, e_sequence y)" if "x \<in> set evs0" "y \<in> set new" for x y
    using assms(6) [OF that(1)] that(2) by (metis Pair_inject not_less)
  then have "set (map (\<lambda>ev. (e_run ev, e_sequence ev)) evs0) \<inter>
      set (map (\<lambda>ev. (e_run ev, e_sequence ev)) new) = {}"
    unfolding set_map by blast
  ultimately have 2: "distinct (map (\<lambda>ev. (e_run ev, e_sequence ev)) (evs0 @ new))"
    using assms(1) by (simp add: events_ok_def)
  from 1 2 show ?thesis by (simp add: events_ok_def)
qed

lemma log_of_bound:
  assumes "log_of r d" and "ev \<in> set (db_events d)" and "e_run ev = r_id r"
  shows "e_sequence ev \<le> r_last_event_sequence r"
proof -
  have "e_sequence ev \<in> set (map e_sequence (run_log d (r_id r)))"
    using assms(2,3) by (auto simp: run_log_def)
  also have "map e_sequence (run_log d (r_id r)) = [1..r_last_event_sequence r]"
    using assms(1) by (simp add: log_of_def)
  finally show ?thesis by simp
qed

text \<open>The rule that ends a transaction: what is left to show is about the one changed row.\<close>

lemma tables_inv_put:
  assumes inv: "tables_inv d" and fresh: "evs \<noteq> [] \<Longrightarrow> fresh_env e d" and r: "r \<in> set (db_runs d)"
    and frame: "tx_frame e evs d r d1" and ks: "distinct (map fst evs)"
    and er: "erase_run r1 = erase_run r"
    and seq: "r_last_event_sequence r1 = r_last_event_sequence r + int (length evs)"
    and row: "lease_ok r1" "skill_complete (r_skill r1)"
      "ends_with (r_status r1) (map e_type (run_log d (r_id r)) @ map snd evs)"
  shows "tables_inv (put_run r1 d1)"
  using frame
proof (rule tx_frameE)
  fix new
  assume new: "same_tables d d1" "db_events d1 = db_events d @ new" "new_events e evs r new"
  note keys = tables_inv_keys [OF inv]
  have id: "r_id r1 = r_id r" by (rule erase_run_cong [OF er])
  have runs: "db_runs d1 = db_runs d" using new(1) by (simp add: same_tables_def)
  have ok: "run_ok d x" if "x \<in> set (db_runs d)" for x
    using inv that by (simp add: tables_inv_def)
  have "struct_ok (db_users d1) (db_threads d1) (db_messages d1) (db_runs (put_run r1 d1))
      (seq_thread d1) (seq_message d1)"
    using inv new(1) put_run_erase [of d1 r r1] keys(1) r er
    by (subst struct_ok_cong [where ts' = "db_threads d" and ms' = "db_messages d" and rs' = "db_runs d"])
      (simp_all add: same_tables_def tables_inv_def runs)
  moreover have "run_ok (put_run r1 d1) x" if "x \<in> set (db_runs (put_run r1 d1))" for x
  proof (cases "x = r1")
    case True
    have "log_of r1 d1"
      using ok [OF r] by (intro tx_frame_log_of [OF frame _ id seq]) (simp add: run_ok_def)
    then show ?thesis
      using True row tx_frame_types [OF frame] id by (simp add: run_ok_def log_of_def)
  next
    case False
    then have x: "x \<in> set (db_runs d)" "x \<noteq> r"
      using that put_run_row [of d1 r r1] keys(1) r id by (simp_all add: runs)
    then have "r_id x \<noteq> r_id r"
      using distinct_key_unique [OF keys(1) x(1) r] by blast
    moreover have "\<forall>ev \<in> set new. e_run ev = r_id r"
      using new(3) by (simp add: new_events_def)
    ultimately have "run_log d1 (r_id x) = run_log d (r_id x)"
      using new(2) by (auto simp: run_log_def intro!: filter_False)
    then show ?thesis
      using ok [OF x(1)] by (simp add: run_ok_def log_of_def)
  qed
  moreover have "\<exists>x \<in> set (db_runs (put_run r1 d1)). r_id x = e_run ev" if "ev \<in> set (db_events d1)" for ev
  proof -
    have "\<exists>x \<in> set (db_runs d). r_id x = e_run ev"
      using that new(2,3) inv r by (auto simp: new_events_def tables_inv_def)
    then show ?thesis
      using put_run_row [of d1 r r1] keys(1) r id by (auto simp: runs)
  qed
  moreover have "events_ok (db_events d1)"
  proof (cases "evs = []")
    case True
    then show ?thesis
      using new(2,3) inv by (simp add: new_events_def tables_inv_def)
  next
    case False
    then have "fresh_env e d" by (rule fresh)
    show ?thesis
      unfolding new(2)
    proof (rule new_events_ok [OF _ new(3) ks])
      show "events_ok (db_events d)" using inv by (simp add: tables_inv_def)
      show "inj (env_uuid4 e)" using \<open>fresh_env e d\<close> by (simp add: fresh_env_def)
      show "e_event_id ev \<noteq> ''evt_'' @ env_uuid4 e k" if "ev \<in> set (db_events d)" for k ev
        using \<open>fresh_env e d\<close> that by (simp add: fresh_env_def)
      show "e_sequence ev \<le> r_last_event_sequence r"
        if "ev \<in> set (db_events d)" "e_run ev = r_id r" for ev
        using log_of_bound [OF _ that] ok [OF r] by (simp add: run_ok_def)
    qed
  qed
  ultimately show "tables_inv (put_run r1 d1)"
    using inv new(1) by (simp add: tables_inv_def same_tables_def)
qed

lemma run_inv_put:
  assumes "run_inv d" and "fresh_env e d" and "r \<in> set (db_runs d)"
    and "tx_frame e evs d r d1" and "distinct (map fst evs)"
    and "erase_run r1 = erase_run r"
    and "r_last_event_sequence r1 = r_last_event_sequence r + int (length evs)"
    and "lease_ok r1" "skill_complete (r_skill r1)"
      "ends_with (r_status r1) (map e_type (run_log d (r_id r)) @ map snd evs)"
    and "active (r_status r1) \<Longrightarrow> active (r_status r)"
  shows "run_inv (put_run r1 d1)"
proof -
  have runs: "db_runs d1 = db_runs d"
    using assms(4) by (auto simp: tx_frame_def same_tables_def)
  have inv: "tables_inv d" "one_active_per_thread (db_runs d)"
    using assms(1) by (simp_all add: run_inv_def)
  have "one_active_per_thread (db_runs (put_run r1 d1))"
    using inv assms(3,6,11) tables_inv_keys(1) [OF inv(1)] by (intro one_active_put [of d1 r r1]) (auto simp: runs)
  then show ?thesis
    using tables_inv_put [OF inv(1) _ assms(3-10)] assms(2) by (simp add: run_inv_def)
qed

section \<open>Identifiers drawn by a transaction\<close>

text \<open>
  A transaction adds only events, each of a stored Run and under an identifier of its own
  environment. A supply of environments whose identifiers never collide stays fresh for
  the transactions to come.
\<close>

definition draws :: "env \<Rightarrow> db \<Rightarrow> db \<Rightarrow> bool" where
  "draws e d d' \<longleftrightarrow>
     r_id ` set (db_runs d') = r_id ` set (db_runs d) \<and>
     m_client_id ` set (db_messages d') = m_client_id ` set (db_messages d) \<and>
     db_checkpoints d' = db_checkpoints d \<and>
     (\<forall>ev \<in> set (db_events d'). ev \<in> set (db_events d) \<or>
        (\<exists>k. e_event_id ev = ''evt_'' @ env_uuid4 e k) \<and> e_run ev \<in> r_id ` set (db_runs d))"

definition fresh_supply :: "(nat \<Rightarrow> env) \<Rightarrow> nat \<Rightarrow> db \<Rightarrow> bool" where
  "fresh_supply es n d \<longleftrightarrow>
     (\<forall>i \<ge> n. fresh_env (es i) d) \<and>
     (\<forall>i j k l. i \<noteq> j \<longrightarrow> env_uuid4 (es i) k \<noteq> env_uuid4 (es j) l)"

lemma draws_refl [simp]: "draws e d d"
  by (simp add: draws_def)

lemma draws_trans:
  assumes "draws e d d1" and "draws e d1 d2"
  shows "draws e d d2"
  using assms unfolding draws_def by metis

lemma draws_fresh:
  assumes "draws (es n) d d'" and "fresh_supply es n d"
  shows "fresh_supply es (Suc n) d'"
proof -
  have "fresh_env (es i) d'" if "Suc n \<le> i" for i
  proof -
    have old: "fresh_env (es i) d" using assms(2) that by (simp add: fresh_supply_def)
    have other: "env_uuid4 (es i) k \<noteq> env_uuid4 (es n) l" for k l
      using assms(2) that by (auto simp: fresh_supply_def)
    have runs: "r_id ` set (db_runs d') = r_id ` set (db_runs d)"
      and msgs: "m_client_id ` set (db_messages d') = m_client_id ` set (db_messages d)"
      using assms(1) by (simp_all add: draws_def)
    have ev: "ev \<in> set (db_events d) \<or>
        (\<exists>k. e_event_id ev = ''evt_'' @ env_uuid4 (es n) k) \<and> e_run ev \<in> r_id ` set (db_runs d)"
      if "ev \<in> set (db_events d')" for ev
      using assms(1) that by (simp add: draws_def)
    have 1: "e_event_id ev \<noteq> ''evt_'' @ env_uuid4 (es i) k" if "ev \<in> set (db_events d')" for ev k
      using ev [OF that] old other unfolding fresh_env_def by (metis same_append_eq)
    have no_run: "x \<noteq> ''run_'' @ env_uuid4 (es i) k" if "x \<in> r_id ` set (db_runs d)" for x k
      using old that by (auto simp: fresh_env_def)
    have 2: "e_run ev \<noteq> ''run_'' @ env_uuid4 (es i) k" if "ev \<in> set (db_events d')" for ev k
      using ev [OF that] old no_run [of "e_run ev" k] unfolding fresh_env_def by blast
    have 3: "r_id r \<noteq> ''run_'' @ env_uuid4 (es i) k" if "r \<in> set (db_runs d')" for r k
      using no_run [of "r_id r" k] runs that by (metis imageI)
    have 4: "m_client_id m \<noteq> Some ((''run_'' @ env_uuid4 (es i) k) @ '':user'') \<and>
        m_client_id m \<noteq> Some ((''run_'' @ env_uuid4 (es i) k) @ '':assistant'')"
      if "m \<in> set (db_messages d')" for m k
    proof -
      have "m_client_id m \<in> m_client_id ` set (db_messages d)" using that msgs by blast
      then obtain m0 where "m0 \<in> set (db_messages d)" "m_client_id m = m_client_id m0" by auto
      with old show ?thesis unfolding fresh_env_def by metis
    qed
    have 5: "db_checkpoints d' = db_checkpoints d" using assms(1) by (simp add: draws_def)
    show ?thesis
      unfolding fresh_env_def 5 using 1 2 3 4 old unfolding fresh_env_def by blast
  qed
  then show ?thesis
    using assms(2) by (simp add: fresh_supply_def)
qed

lemma draws_put:
  assumes "tx_frame e evs d r d1" and "r \<in> set (db_runs d)" and "distinct (map r_id (db_runs d))"
    and "r_id r1 = r_id r"
  shows "draws e d (put_run r1 d1)"
  using assms(1)
proof (rule tx_frameE)
  fix new
  assume new: "same_tables d d1" "db_events d1 = db_events d @ new" "new_events e evs r new"
  have runs: "r_id ` set (db_runs (put_run r1 d1)) = r_id ` set (db_runs d)"
    using put_run_row [of d1 r r1] assms(2-4) new(1) by (auto simp: same_tables_def)
  have "map m_client_id (map erase_message (db_messages d1)) =
      map m_client_id (map erase_message (db_messages d))"
    using new(1) by (simp add: same_tables_def)
  then have "map m_client_id (db_messages d1) = map m_client_id (db_messages d)"
    by (simp add: comp_def)
  then have msgs: "m_client_id ` set (db_messages d1) = m_client_id ` set (db_messages d)"
    by (metis set_map)
  have "map e_event_id new = map (\<lambda>k. ''evt_'' @ env_uuid4 e (fst k)) evs"
    using new(3) by (simp add: new_events_def)
  from arg_cong [OF this, of set]
  have ids: "\<exists>k. e_event_id ev = ''evt_'' @ env_uuid4 e k" if "ev \<in> set new" for ev
    using that by auto
  show ?thesis
    using runs msgs ids new assms(2) by (auto simp: draws_def same_tables_def new_events_def)
qed

end
