(* ===== verification/Run_Safety.thy ===== *)
theory Run_Safety
  imports Run_Frames
begin

text \<open>
  Every transaction of the run lifecycle keeps the invariant of the run tables and only
  moves the database forward (\<open>evolves\<close>): identity columns never change, fencing tokens never
  decrease, a finished Run is frozen, a journal only grows. \<open>safe_tx\<close> bundles these with the
  absence of \<open>IntegrityError\<close>, and \<open>safe_put\<close> proves it for any transaction that ends by
  writing one run row back.
\<close>

section \<open>Forward evolution\<close>

definition run_evolves :: "db \<Rightarrow> db \<Rightarrow> run \<Rightarrow> run \<Rightarrow> bool" where
  "run_evolves d d' r r' \<longleftrightarrow>
     erase_run r' = erase_run r \<and> r_fencing_token r \<le> r_fencing_token r' \<and>
     (terminal (r_status r) \<longrightarrow> r' = r) \<and>
     (r_status r = CANCELLING \<longrightarrow> r_status r' \<in> {CANCELLING, CANCELLED}) \<and>
     (\<exists>new. run_log d' (r_id r) = run_log d (r_id r) @ new)"

text \<open>Users and threads stay: nobody is removed, and a thread keeps its key, owner and name.\<close>

definition thread_key :: "thread \<Rightarrow> int \<times> int \<times> string" where
  "thread_key t = (th_id t, th_user t, th_thread_id t)"

definition parents_kept :: "db \<Rightarrow> db \<Rightarrow> bool" where
  "parents_kept d d' \<longleftrightarrow>
     (\<exists>us. db_users d' = db_users d @ us) \<and>
     thread_key ` set (db_threads d) \<subseteq> thread_key ` set (db_threads d')"

definition evolves :: "db \<Rightarrow> db \<Rightarrow> bool" where
  "evolves d d' \<longleftrightarrow>
     parents_kept d d' \<and> (\<forall>r \<in> set (db_runs d). \<exists>r' \<in> set (db_runs d'). run_evolves d d' r r')"

lemma parents_kept_same [simp]:
  "db_users d' = db_users d \<Longrightarrow> db_threads d' = db_threads d \<Longrightarrow> parents_kept d d'"
  by (simp add: parents_kept_def)

lemma parents_kept_trans: "parents_kept d d1 \<Longrightarrow> parents_kept d1 d2 \<Longrightarrow> parents_kept d d2"
  by (auto simp: parents_kept_def)

lemma same_tables_parents:
  assumes "same_tables d d1"
  shows "parents_kept d d1"
proof -
  have "thread_key (erase_thread t) = thread_key t" for t by (simp add: thread_key_def)
  then have keys: "thread_key ` set (db_threads x) = thread_key ` set (map erase_thread (db_threads x))" for x
    by (simp add: image_image)
  show ?thesis
    using assms unfolding same_tables_def parents_kept_def keys by simp
qed

lemma evolves_parents: "evolves d d' \<Longrightarrow> parents_kept d d'"
  by (simp add: evolves_def)

lemma run_evolves_refl [simp]: "run_evolves d d r r"
  by (simp add: run_evolves_def)

lemma evolves_refl [simp]: "evolves d d"
  unfolding evolves_def using run_evolves_refl parents_kept_same by blast

lemma run_evolves_trans:
  assumes "run_evolves d d1 r r1" and "run_evolves d1 d2 r1 r2"
  shows "run_evolves d d2 r r2"
proof -
  have id: "r_id r1 = r_id r"
    using assms(1) by (auto simp: run_evolves_def dest: erase_run_cong)
  have "\<exists>new. run_log d2 (r_id r) = run_log d (r_id r) @ new"
    using assms by (auto simp: run_evolves_def id)
  moreover have "r_status r = CANCELLING \<longrightarrow> r_status r2 \<in> {CANCELLING, CANCELLED}"
    using assms by (auto simp: run_evolves_def)
  ultimately show ?thesis
    using assms by (simp add: run_evolves_def)
qed

lemma evolves_trans: "evolves d d1 \<Longrightarrow> evolves d1 d2 \<Longrightarrow> evolves d d2"
  unfolding evolves_def by (meson run_evolves_trans parents_kept_trans)

lemma evolves_put:
  assumes "tables_inv d" and "r \<in> set (db_runs d)" and "tx_frame e evs d r d1"
    and "erase_run r1 = erase_run r" and "r_fencing_token r \<le> r_fencing_token r1"
    and "terminal (r_status r) \<Longrightarrow> r1 = r"
    and "r_status r = CANCELLING \<Longrightarrow> r_status r1 \<in> {CANCELLING, CANCELLED}"
  shows "evolves d (put_run r1 d1)"
  using assms(3)
proof (rule tx_frame_log)
  fix new
  assume log: "run_log d1 (r_id r) = run_log d (r_id r) @ new"
    "\<And>rid. rid \<noteq> r_id r \<Longrightarrow> run_log d1 rid = run_log d rid"
  have runs: "db_runs d1 = db_runs d"
    using assms(3) by (auto simp: tx_frame_def same_tables_def)
  note keys = tables_inv_keys(1) [OF assms(1)]
  have id: "r_id r1 = r_id r" by (rule erase_run_cong [OF assms(4)])
  have set: "set (db_runs (put_run r1 d1)) = insert r1 (set (db_runs d) - {r})"
    using put_run_row [of d1 r r1] keys assms(2) id by (simp add: runs)
  have "same_tables d d1" using assms(3) by (auto simp: tx_frame_def)
  then have "parents_kept d (put_run r1 d1)"
    using same_tables_parents by (simp add: parents_kept_def)
  moreover have "\<forall>x \<in> set (db_runs d). \<exists>x' \<in> set (db_runs (put_run r1 d1)). run_evolves d (put_run r1 d1) x x'"
  proof
    fix x
    assume x: "x \<in> set (db_runs d)"
    show "\<exists>x' \<in> set (db_runs (put_run r1 d1)). run_evolves d (put_run r1 d1) x x'"
    proof (cases "x = r")
      case True
      then have "run_evolves d (put_run r1 d1) x r1"
        using log(1) assms(4-7) by (simp add: run_evolves_def)
      then show ?thesis by (simp add: set)
    next
      case False
      then have "r_id x \<noteq> r_id r"
        using distinct_key_unique [OF keys x assms(2)] by blast
      then have "run_evolves d (put_run r1 d1) x x"
        using log(2) by (simp add: run_evolves_def)
      then show ?thesis using x False by (auto simp: set)
    qed
  qed
  ultimately show ?thesis by (simp add: evolves_def)
qed

section \<open>Safe transactions\<close>

definition safe_tx :: "db \<Rightarrow> 'a tx \<Rightarrow> bool" where
  "safe_tx d res \<longleftrightarrow>
     (case res of Inl ex \<Rightarrow> ex \<noteq> IntegrityError | Inr (x, d') \<Rightarrow> run_inv d' \<and> evolves d d')"

lemma safe_tx_simps [simp]:
  "safe_tx d (Inl ex) \<longleftrightarrow> ex \<noteq> IntegrityError"
  "safe_tx d (Inr (x, d')) \<longleftrightarrow> run_inv d' \<and> evolves d d'"
  by (simp_all add: safe_tx_def)

lemma commit_inv: "run_inv d \<Longrightarrow> commit x d = Inr (x, d)"
  by (simp add: commit_def run_inv_integrity)

lemma safe_commit_same [simp]: "run_inv d \<Longrightarrow> safe_tx d (commit x d)"
  by (simp add: commit_inv)

lemma safe_put:
  assumes "run_inv d" and "fresh_env e d" and "r \<in> set (db_runs d)"
    and "tx_frame e evs d r d1" and "distinct (map fst evs)"
    and "erase_run r1 = erase_run r"
    and "r_last_event_sequence r1 = r_last_event_sequence r + int (length evs)"
    and "lease_ok r1" "skill_complete (r_skill r1)"
      "ends_with (r_status r1) (map e_type (run_log d (r_id r)) @ map snd evs)"
    and "active (r_status r1) \<Longrightarrow> active (r_status r)"
    and "r_fencing_token r \<le> r_fencing_token r1" and "\<not> terminal (r_status r)"
    and "r_status r = CANCELLING \<Longrightarrow> r_status r1 \<in> {CANCELLING, CANCELLED}"
  shows "safe_tx d (commit x (put_run r1 d1))"
proof -
  have "run_inv (put_run r1 d1)"
    by (rule run_inv_put [OF assms(1-11)])
  moreover have "evolves d (put_run r1 d1)"
    using assms(1,12-14) by (intro evolves_put [OF _ assms(3,4,6)]) (simp_all add: run_inv_def)
  ultimately show ?thesis by (simp add: commit_inv)
qed

lemma run_ok_facts:
  assumes "run_inv d" and "r \<in> set (db_runs d)"
  shows "lease_ok r" "skill_complete (r_skill r)" "log_of r d"
    "ends_with (r_status r) (map e_type (run_log d (r_id r)))"
  using assms by (auto simp: run_inv_def tables_inv_def run_ok_def)

lemma ends_with_more:
  "\<not> terminal s \<Longrightarrow> \<not> terminal s' \<Longrightarrow> ends_with s tys \<Longrightarrow> list_all (\<lambda>t. \<not> terminal_event t) tys' \<Longrightarrow>
   ends_with s' (tys @ tys')"
  by (simp add: ends_with_def)

text \<open>The shape most operations end with: some events, then the row.\<close>

lemma put_emitted:
  assumes inv: "run_inv d" and fresh: "fresh_env e d" and r: "r \<in> set (db_runs d)"
    and em: "emitted e evs d r r1 s" and evs: "distinct (map fst evs)"
      "list_all (\<lambda>t. \<not> terminal_event t) (map snd evs)"
    and r1: "erase_run r1 = erase_run r" "lease_ok r1" "skill_complete (r_skill r1)"
      "r_fencing_token r \<le> r_fencing_token r1"
    and st: "\<not> terminal (r_status r)" "\<not> terminal (r_status r1)"
      "active (r_status r1) \<Longrightarrow> active (r_status r)"
      "r_status r = CANCELLING \<Longrightarrow> r_status r1 = CANCELLING"
  shows "run_inv (put_run (fst s) (snd s))" and "evolves d (put_run (fst s) (snd s))"
proof -
  have fr: "fst s = r1\<lparr>r_last_event_sequence := r_last_event_sequence r + int (length evs)\<rparr>"
    and frame: "tx_frame e evs d r (snd s)"
    using em by (simp_all add: emitted_def)
  have er: "erase_run (fst s) = erase_run r"
    using r1(1) by (simp add: fr erase_run_def)
  show "run_inv (put_run (fst s) (snd s))"
  proof (rule run_inv_put [OF inv fresh r frame evs(1) er])
    show "lease_ok (fst s)"
      using r1(2) by (simp add: fr lease_ok_def)
    show "ends_with (r_status (fst s)) (map e_type (run_log d (r_id r)) @ map snd evs)"
      using ends_with_more [OF st(1,2) run_ok_facts(4) [OF inv r] evs(2)] by (simp add: fr)
    show "active (r_status (fst s)) \<Longrightarrow> active (r_status r)"
      using st(3) by (simp add: fr)
  qed (use r1(3) in \<open>simp_all add: fr\<close>)
  have "tables_inv d" using inv by (simp add: run_inv_def)
  then show "evolves d (put_run (fst s) (snd s))"
    using st(1,4) r1(4) by (intro evolves_put [OF _ r frame er]) (simp_all add: fr)
qed

lemma safe_emit:
  assumes inv: "run_inv d" and fresh: "fresh_env e d" and r: "r \<in> set (db_runs d)"
    and d1: "same_tables d d1" "db_events d1 = db_events d"
    and r1: "erase_run r1 = erase_run r" "r_last_event_sequence r1 = r_last_event_sequence r"
      "lease_ok r1" "skill_complete (r_skill r1)" "r_fencing_token r \<le> r_fencing_token r1"
    and st: "\<not> terminal (r_status r)" "\<not> terminal (r_status r1)" "\<not> terminal_event ty"
      "active (r_status r1) \<Longrightarrow> active (r_status r)"
      "r_status r = CANCELLING \<Longrightarrow> r_status r1 = CANCELLING"
  shows "safe_tx d (case emit e k tid ty data (r1, d1) of (r2, d2) \<Rightarrow> commit (f r2) (put_run r2 d2))"
proof -
  let ?s = "emit e k tid ty data (r1, d1)"
  have "r_id r1 = r_id r" by (rule erase_run_cong [OF r1(1)])
  then have em: "emitted e ([] @ [(k, ty)]) d r r1 ?s"
    by (intro emitted_emit emitted_refl tx_frame_step [OF tx_frame_refl d1] r1(2))
  have "run_inv (put_run (fst ?s) (snd ?s))" "evolves d (put_run (fst ?s) (snd ?s))"
    using st(3) by (intro put_emitted [OF inv fresh r em _ _ r1(1,3-5) st(1,2,4,5)]; simp)+
  then show ?thesis by (simp add: case_prod_beta commit_inv)
qed

lemma safe_case_option:
  "(v = None \<Longrightarrow> safe_tx d n) \<Longrightarrow> (\<And>x. v = Some x \<Longrightarrow> safe_tx d (g x)) \<Longrightarrow>
   safe_tx d (case v of None \<Rightarrow> n | Some x \<Rightarrow> g x)"
  by (cases v) simp_all

lemma safe_case_find_run:
  "ex \<noteq> IntegrityError \<Longrightarrow> (\<And>r. find_run d rid = Some r \<Longrightarrow> r \<in> set (db_runs d) \<Longrightarrow> safe_tx d (g r)) \<Longrightarrow>
   safe_tx d (case find_run d rid of None \<Rightarrow> Inl ex | Some r \<Rightarrow> g r)"
  by (cases "find_run d rid") (auto dest: find_run_SomeD)

lemma safe_case_fencing:
  "(fence = None \<or> fence = Some (r_fencing_token r) \<Longrightarrow> safe_tx d n) \<Longrightarrow>
   safe_tx d (case assert_fencing r fence of None \<Rightarrow> n | Some ex \<Rightarrow> Inl ex)"
  by (cases fence) (simp_all add: assert_fencing_def)

lemma safe_case_transition:
  "(can_transition (r_status r) s \<Longrightarrow> safe_tx d (g (r\<lparr>r_status := s, r_updated_at := env_now e\<rparr>))) \<Longrightarrow>
   safe_tx d (case transition e r s of Inl ex \<Rightarrow> Inl ex | Inr r1 \<Rightarrow> g r1)"
  by (simp add: transition_def)

lemma safe_if:
  "(P \<Longrightarrow> safe_tx d x) \<Longrightarrow> (\<not> P \<Longrightarrow> safe_tx d y) \<Longrightarrow> safe_tx d (if P then x else y)"
  by simp

lemmas safe_intros = safe_case_find_run safe_case_fencing safe_case_transition safe_if

section \<open>Claim, heartbeat, suspension, cancellation request\<close>

lemma claim_apply_safe:
  assumes inv: "run_inv d" and fresh: "fresh_env e d" and r: "r \<in> set (db_runs d)"
    and st: "r_status r = RUNNING \<or> r_status r = PENDING"
  shows "safe_tx d (claim_apply e worker lease t r d)"
  unfolding claim_apply_def Let_def
proof (intro safe_case_transition safe_emit [OF inv fresh r])
qed (use st run_ok_facts [OF inv r] in \<open>auto simp: erase_run_def lease_ok_def same_tables_def\<close>)

lemma claim_safe:
  assumes "run_inv d" and "fresh_env e d"
  shows "safe_tx d (claim e rid worker lease d)"
  unfolding claim_def
  by (intro safe_intros safe_case_option claim_apply_safe assms safe_commit_same) auto

lemma heartbeat_safe:
  assumes "run_inv d" and "fresh_env e d"
  shows "safe_tx d (heartbeat e rid worker fence lease d)"
  unfolding heartbeat_def Let_def
proof (intro safe_intros safe_case_option)
  fix r t
  assume r: "r \<in> set (db_runs d)" and st: "\<not> (r_owner r \<noteq> Some worker \<or> r_status r \<notin> {RUNNING, CANCELLING})"
  let ?r1 = "r\<lparr>r_lease := Some (env_now e + seconds (lease_length e lease)), r_updated_at := env_now e\<rparr>"
  show "safe_tx d (commit (record_of ?r1 (th_thread_id t)) (put_run ?r1 d))"
    using st run_ok_facts [OF assms(1) r]
    by (intro safe_put [OF assms r tx_frame_refl]) (auto simp: erase_run_def lease_ok_def)
qed simp_all

lemma set_waiting_input_safe:
  assumes "run_inv d" and "fresh_env e d"
  shows "safe_tx d (set_waiting_input e rid worker fence d)"
  unfolding set_waiting_input_def Let_def
proof (intro safe_intros safe_case_option)
  fix r t
  assume r: "r \<in> set (db_runs d)" and own: "\<not> r_owner r \<noteq> Some worker"
    and st: "can_transition (r_status r) WAITING_INPUT"
  from own st run_ok_facts [OF assms(1) r] have st: "r_status r = RUNNING"
    by (cases "r_status r") (auto simp: can_transition_def lease_ok_def)
  let ?r2 = "r\<lparr>r_status := WAITING_INPUT, r_updated_at := env_now e, r_owner := None, r_lease := None\<rparr>"
  let ?d1 = "set_message (r_assistant_message ?r2)
      (\<lambda>m. m\<lparr>m_status := ''waiting_input'', m_updated_at := env_now e\<rparr>) d"
  have "same_tables d ?d1"
    by (rule same_tables_message) (simp add: erase_message_def)
  moreover have "db_events ?d1 = db_events d"
    by (simp add: set_message_def split: option.splits)
  ultimately show "safe_tx d (case emit e 0 (th_thread_id t) RUN_WAITING_INPUT
         [(''status'', JStr (status_value (r_status ?r2)))] (?r2, ?d1) of
       (r3, d2) \<Rightarrow> commit (record_of r3 (th_thread_id t)) (put_run r3 d2))"
    using st run_ok_facts [OF assms(1) r]
    by (intro safe_emit [OF assms r]) (simp_all add: erase_run_def lease_ok_def)
qed simp_all

lemma mark_cancelling_safe:
  assumes "run_inv d" and "fresh_env e d"
  shows "safe_tx d (mark_cancelling e username rid d)"
  unfolding mark_cancelling_def Let_def prod.case
proof (intro safe_intros safe_case_option safe_commit_same assms)
  fix r t
  assume r: "r \<in> set (db_runs d)" and st: "can_transition (r_status r) CANCELLING"
    "\<not> (terminal (r_status r) \<or> r_status r = CANCELLING)"
  show "safe_tx d (case emit e 0 (th_thread_id t) WARNING_CREATED
       [(''code'', JStr ''CANCEL_REQUESTED''), (''message'', JStr cancel_requested_text)]
       (r\<lparr>r_status := CANCELLING, r_updated_at := env_now e\<rparr>, d) of
     (r2, d1) \<Rightarrow> commit (record_of r2 (th_thread_id t)) (put_run r2 d1))"
    using st run_ok_facts [OF assms(1) r]
    by (intro safe_emit [OF assms r]; cases "r_status r")
      (simp_all add: erase_run_def lease_ok_def same_tables_def can_transition_def)
qed simp_all

section \<open>Skill pin, tool audit, published events\<close>

lemma pin_skill_activation_safe:
  assumes "run_inv d" and "fresh_env e d"
  shows "safe_tx d (pin_skill_activation e rid worker fence name version hash source d)"
  unfolding pin_skill_activation_def Let_def case_prod_beta
proof (intro safe_intros safe_case_option)
  fix r t
  assume r: "r \<in> set (db_runs d)" and st: "\<not> \<not> owns_running r worker"
  let ?r1 = "r\<lparr>r_skill := (Some name, Some version, Some hash, Some source), r_updated_at := env_now e\<rparr>"
  show "safe_tx d (commit (record_of ?r1 (th_thread_id t)) (put_run ?r1 d))"
    using st run_ok_facts [OF assms(1) r]
    by (intro safe_put [OF assms r tx_frame_refl])
      (auto simp: owns_running_def erase_run_def lease_ok_def skill_complete_def)
qed (use assms in simp_all)

lemma record_tool_audit_safe:
  assumes inv: "run_inv d"
  shows "safe_tx d (record_tool_audit rid worker fence a d)"
  unfolding record_tool_audit_def Let_def
proof (intro safe_intros safe_case_option)
  fix r t
  let ?row = "audit_row a r t (seq_audit d)"
  let ?d1 = "d\<lparr>db_audits := db_audits d @ [?row], seq_audit := seq_audit d + 1\<rparr>"
  assume None: "find (\<lambda>x. a_run x = Some (r_id r) \<and> a_audit_key x = aa_audit_key a) (db_audits d) = None"
  show "safe_tx d (commit () ?d1)"
  proof -
    have row: "a_run ?row = Some (r_id r)" "a_audit_key ?row = aa_audit_key a"
      by (simp_all add: audit_row_def case_prod_beta)
    have "(r_id r, aa_audit_key a) \<notin>
        set (List.map_filter (\<lambda>a. map_option (\<lambda>r. (r, a_audit_key a)) (a_run a)) (db_audits d))"
      using find_NoneD [OF None] by (fastforce simp: List.map_filter_def)
    then have "audits_ok (db_audits ?d1)"
      using inv by (simp add: audits_ok_def run_inv_def tables_inv_def map_filter_snoc row)
    moreover have log: "run_log ?d1 = run_log d" by (simp add: run_log_def fun_eq_iff)
    ultimately have "run_inv ?d1"
      using inv by (simp add: run_inv_def tables_inv_def run_ok_def log_of_def)
    moreover have "run_evolves d ?d1 x x" for x
      by (simp add: run_evolves_def log)
    then have "evolves d ?d1"
      unfolding evolves_def by auto
    ultimately show ?thesis by (simp add: commit_inv)
  qed
qed (use inv in simp_all)

lemma journal_append_safe:
  assumes "run_inv d" and "fresh_env e d" and "\<not> terminal_event ty"
  shows "safe_tx d (journal_append e rid ty data (Some worker) (Some fence) d)"
  unfolding journal_append_def Let_def
proof (intro safe_intros safe_case_option)
  fix r t
  assume r: "r \<in> set (db_runs d)" and own: "\<not> ((Some worker \<noteq> None \<or> Some fence \<noteq> None) \<and>
      (Some worker = None \<or> Some fence = None \<or> r_owner r \<noteq> Some worker \<or>
       Some (r_fencing_token r) \<noteq> Some fence \<or> r_status r \<notin> {RUNNING, CANCELLING}))"
  then have st: "r_status r = RUNNING \<or> r_status r = CANCELLING" by auto
  let ?s = "emit e 0 (th_thread_id t) ty data (r, d)"
  let ?r1 = "r\<lparr>r_last_event_sequence := r_last_event_sequence r + 1, r_updated_at := env_now e\<rparr>"
  have fr: "(fst ?s)\<lparr>r_updated_at := env_now e\<rparr> = ?r1"
    by (simp add: emit_run)
  have "safe_tx d (commit x (put_run ?r1 (snd ?s)))" for x :: "run_event_v1 \<times> int"
  proof (rule safe_put [OF assms(1,2) r])
    show "tx_frame e ([] @ [(0, ty)]) d r (snd ?s)"
      by (rule tx_frame_emit [OF tx_frame_refl]) simp_all
    show "ends_with (r_status ?r1) (map e_type (run_log d (r_id r)) @ map snd ([] @ [(0, ty)]))"
      using st assms(3) run_ok_facts(4) [OF assms(1) r] by (intro ends_with_more) auto
  qed (use st run_ok_facts [OF assms(1) r] in \<open>auto simp: erase_run_def lease_ok_def\<close>)
  then show "safe_tx d (case append_event_in_session e 0 (th_thread_id t) ty data r d of
      (res, r', d') \<Rightarrow> commit res (put_run (r'\<lparr>r_updated_at := env_now e\<rparr>) d'))"
    by (simp add: emit_def append_event_in_session_def Let_def)
qed simp_all

end
