(* ===== verification/Run_Finalize.thy ===== *)
theory Run_Finalize
  imports Run_Safety
begin

text \<open>
  Finalisation of a Run, the promotion of the next queued Run of its Thread, and orphan
  recovery: they keep the invariant, and the one case in which a finalisation cannot commit
  is characterised exactly.
\<close>

section \<open>Finalisation\<close>

lemma set_message_put_run: "set_message i f (put_run r d) = put_run r (set_message i f d)"
  by (simp add: set_message_def put_run_def split: option.splits)

lemma set_message_frame [simp]:
  "db_users (set_message i f d) = db_users d" "db_threads (set_message i f d) = db_threads d"
  "db_runs (set_message i f d) = db_runs d" "db_events (set_message i f d) = db_events d"
  "db_checkpoints (set_message i f d) = db_checkpoints d" "run_log (set_message i f d) = run_log d"
  by (simp_all add: set_message_def run_log_def fun_eq_iff split: option.splits)

definition thread_idle :: "db \<Rightarrow> int \<Rightarrow> bool" where
  "thread_idle d i \<longleftrightarrow> (\<forall>r \<in> set (db_runs d). r_thread r = i \<longrightarrow> \<not> active (r_status r))"

definition thread_queue :: "db \<Rightarrow> int \<Rightarrow> run list" where
  "thread_queue d i = filter (\<lambda>r. r_thread r = i \<and> r_status r = QUEUED) (db_runs d)"

lemma promote_tables:
  assumes "tables_inv d"
  shows "tables_inv (promote_next_queued e t d)" and "evolves d (promote_next_queued e t d)"
proof -
  have "tables_inv (promote_next_queued e t d) \<and> evolves d (promote_next_queued e t d)"
  proof (cases "first_by r_created_at (thread_queue d (th_id t))")
    case None
    then have "promote_next_queued e t d = d"
      unfolding promote_next_queued_def thread_queue_def by simp
    then show ?thesis using assms by simp
  next
    case (Some q)
    then have q: "q \<in> set (db_runs d)" "r_status q = QUEUED"
      using first_by_Some [OF Some] by (auto simp: thread_queue_def)
    let ?q1 = "q\<lparr>r_status := PENDING, r_updated_at := env_now e\<rparr>"
    let ?f = "\<lambda>m. m\<lparr>m_status := ''streaming'', m_updated_at := env_now e\<rparr>"
    let ?d1 = "set_message (r_assistant_message q) ?f d"
    have eq: "promote_next_queued e t d = put_run ?q1 ?d1"
      using Some by (simp add: promote_next_queued_def thread_queue_def set_message_put_run)
    have frame: "tx_frame e [] d q ?d1"
      by (rule tx_frame_step [OF tx_frame_refl same_tables_message])
        (simp_all add: erase_message_def)
    have ok: "run_ok d q" using assms q(1) by (simp add: tables_inv_def)
    have er: "erase_run ?q1 = erase_run q" by (simp add: erase_run_def)
    have "tables_inv (put_run ?q1 ?d1)"
      using ok q(2) by (intro tables_inv_put [OF assms _ q(1) frame _ er])
        (simp_all add: run_ok_def lease_ok_def ends_with_def)
    moreover have "evolves d (put_run ?q1 ?d1)"
      using q(2) by (intro evolves_put [OF assms q(1) frame er]) simp_all
    ultimately show ?thesis by (simp add: eq)
  qed
  then show "tables_inv (promote_next_queued e t d)" "evolves d (promote_next_queued e t d)"
    by simp_all
qed

lemma promote_runs:
  "db_runs (promote_next_queued e t d) =
     (case first_by r_created_at (thread_queue d (th_id t)) of
        None \<Rightarrow> db_runs d
      | Some q \<Rightarrow> db_runs (put_run (q\<lparr>r_status := PENDING, r_updated_at := env_now e\<rparr>) d))"
  by (simp add: promote_next_queued_def thread_queue_def split: option.splits)

lemma promote_runs_cong:
  assumes "db_runs d = db_runs d'"
  shows "db_runs (promote_next_queued e t d) = db_runs (promote_next_queued e t d')"
  using assms by (simp add: promote_runs thread_queue_def put_run_def split: option.splits)

lemma promote_draws:
  assumes "tables_inv d"
  shows "draws e d (promote_next_queued e t d)"
proof (cases "first_by r_created_at (thread_queue d (th_id t))")
  case None
  then show ?thesis
    unfolding promote_next_queued_def thread_queue_def by simp
next
  case (Some q)
  then have q: "q \<in> set (db_runs d)"
    using first_by_Some [OF Some] by (auto simp: thread_queue_def)
  have "tx_frame e [] d q (set_message (r_assistant_message q)
      (\<lambda>m. m\<lparr>m_status := ''streaming'', m_updated_at := env_now e\<rparr>) d)"
    by (rule tx_frame_step [OF tx_frame_refl same_tables_message]) (simp_all add: erase_message_def)
  from draws_put [OF this q tables_inv_keys(1) [OF assms]] Some show ?thesis
    by (simp add: promote_next_queued_def thread_queue_def set_message_put_run)
qed

lemma promote_keeps:
  assumes "tables_inv d" and "x \<in> set (db_runs d)" and "r_status x \<noteq> QUEUED"
  shows "x \<in> set (db_runs (promote_next_queued e t d))"
proof (cases "first_by r_created_at (thread_queue d (th_id t))")
  case None
  then show ?thesis using assms(2) by (simp add: promote_runs)
next
  case (Some q)
  then have q: "q \<in> set (db_runs d)" "r_status q = QUEUED"
    using first_by_Some [OF Some] by (auto simp: thread_queue_def)
  then show ?thesis
    using put_run_row [OF tables_inv_keys(1) [OF assms(1)] q(1)] assms(2,3) Some
    by (auto simp: promote_runs)
qed

lemma promote_idle:
  assumes "run_inv d" and "thread_idle d (th_id t)"
  shows "run_inv (promote_next_queued e t d)"
proof -
  have inv: "tables_inv d" "one_active_per_thread (db_runs d)"
    using assms(1) by (simp_all add: run_inv_def)
  have "one_active_per_thread (db_runs (promote_next_queued e t d))"
    unfolding promote_runs
  proof (cases "first_by r_created_at (thread_queue d (th_id t))")
    case (Some q)
    then have q: "q \<in> set (db_runs d)" "r_thread q = th_id t"
      using first_by_Some [OF Some] by (auto simp: thread_queue_def)
    have "one_active_per_thread
        (db_runs (put_run (q\<lparr>r_status := PENDING, r_updated_at := env_now e\<rparr>) d))"
      using assms(2) q
      by (intro one_active_put [OF inv(2) tables_inv_keys(1) [OF inv(1)] q(1)])
        (auto simp: erase_run_def thread_idle_def)
    with Some show "one_active_per_thread (case first_by r_created_at (thread_queue d (th_id t)) of
        None \<Rightarrow> db_runs d
      | Some q \<Rightarrow> db_runs (put_run (q\<lparr>r_status := PENDING, r_updated_at := env_now e\<rparr>) d))"
      by simp
  qed (use inv in simp)
  then show ?thesis
    using promote_tables(1) [OF inv(1)] by (simp add: run_inv_def)
qed

text \<open>Promotion while a Run of the Thread is active violates the partial unique index.\<close>

lemma promote_busy:
  assumes "run_inv d" and "\<not> thread_idle d (th_id t)" and "thread_queue d (th_id t) \<noteq> []"
  shows "\<not> one_active_per_thread (db_runs (promote_next_queued e t d))"
proof -
  have inv: "tables_inv d" using assms(1) by (simp add: run_inv_def)
  note keys = tables_inv_keys(1) [OF inv]
  obtain q where Some: "first_by r_created_at (thread_queue d (th_id t)) = Some q"
    using assms(3) by (cases "first_by r_created_at (thread_queue d (th_id t))") simp_all
  then have q: "q \<in> set (db_runs d)" "r_thread q = th_id t" "r_status q = QUEUED"
    using first_by_Some [OF Some] by (auto simp: thread_queue_def)
  let ?q1 = "q\<lparr>r_status := PENDING, r_updated_at := env_now e\<rparr>"
  obtain x where x: "x \<in> set (db_runs d)" "r_thread x = th_id t" "active (r_status x)"
    using assms(2) by (auto simp: thread_idle_def)
  have rows: "set (db_runs (put_run ?q1 d)) = insert ?q1 (set (db_runs d) - {q})"
    by (rule put_run_row [OF keys q(1)]) simp
  have "map erase_run (db_runs (put_run ?q1 d)) = map erase_run (db_runs d)"
    by (rule put_run_erase [OF keys q(1)]) (simp add: erase_run_def)
  from arg_cong [OF this, of "map r_id"] keys have dist: "distinct (map r_id (db_runs (put_run ?q1 d)))"
    by (simp add: comp_def)
  have "x \<noteq> ?q1"
    using distinct_key_unique [OF keys x(1) q(1)] x(3) q(3) by auto
  moreover have "x \<noteq> q" using x(3) q(3) by auto
  ultimately have "\<exists>x \<in> set (db_runs (put_run ?q1 d)). \<exists>y \<in> set (db_runs (put_run ?q1 d)).
      active (r_status x) \<and> active (r_status y) \<and> r_thread x = r_thread y \<and> x \<noteq> y"
    unfolding rows using x q(2) by (intro bexI [of _ x] bexI [of _ ?q1]) auto
  then have "\<not> one_active_per_thread (db_runs (put_run ?q1 d))"
    unfolding one_active_iff [OF dist] by blast
  then show ?thesis
    unfolding promote_runs Some by simp
qed

lemma finalize_events_frame:
  assumes "tx_frame e [] d r d2" and "r_id r1 = r_id r"
    and "r_last_event_sequence r1 = r_last_event_sequence r"
  obtains evs where "emitted e (evs @ [(2, terminal_type (f_target a))]) d r r1
      (finalize_events e a tid (r1, d2))"
    "distinct (map fst evs)" "2 \<notin> fst ` set evs" "list_all (\<lambda>t. \<not> terminal_event t) (map snd evs)"
proof -
  let ?usage = "f_input_tokens a \<noteq> 0 \<or> f_output_tokens a \<noteq> 0 \<or> f_cost a \<noteq> 0"
  let ?ev1 = "if ?usage then [] @ [(0, USAGE_UPDATED)] else []"
  note first = emitted_refl [OF assms(1,3)]
  have "emitted e ((?ev1 @ [(1, MESSAGE_COMPLETED)]) @ [(2, terminal_type (f_target a))]) d r r1
      (finalize_events e a tid (r1, d2))"
    unfolding finalize_events_def Let_def
    by (intro emitted_emit assms(2); cases ?usage; simp only: if_True if_False simp_thms)
      (intro emitted_emit assms(2) first)+
  then show thesis
    by (rule that) auto
qed

text \<open>The session when the finished row has been flushed, before promotion.\<close>

lemma finalize_flushed:
  assumes inv: "run_inv d" and fresh: "fresh_env e d" and r: "r \<in> set (db_runs d)"
    and t: "find_thread d i = Some t" and st: "\<not> terminal (r_status r)" "terminal (f_target a)"
      "can_transition (r_status r) (f_target a)" "r_status r = CANCELLING \<Longrightarrow> f_target a = CANCELLED"
  defines "r1 \<equiv> r\<lparr>r_status := f_target a, r_updated_at := env_now e\<rparr>"
  obtains r2 d4 where
    "finalize_apply e a t r1 d =
       (if integrity (promote_next_queued e t d4)
        then Inr (record_of r2 (th_thread_id t), promote_next_queued e t d4) else Inl IntegrityError)"
    "run_inv d4" "evolves d d4" "draws e d d4" "db_runs d4 = db_runs (put_run r2 d)"
    "r2 = (finished_run e a r1)\<lparr>r_last_event_sequence := r_last_event_sequence r2\<rparr>"
proof -
  define f where "f = (\<lambda>m :: message. m\<lparr>m_content := f_content a,
      m_status := message_status (f_target a) (f_partial a), m_rag_trace := f_rag_trace a,
      m_updated_at := env_now e\<rparr>)"
  define d2 where "d2 = put_thread (t\<lparr>th_updated_at := env_now e\<rparr>) (set_message (r_assistant_message r1) f d)"
  define rf where "rf = finished_run e a r1"
  have tin: "tables_inv d" using inv by (simp add: run_inv_def)
  have rf: "r_id rf = r_id r" "r_last_event_sequence rf = r_last_event_sequence r"
    "erase_run rf = erase_run r" "r_status rf = f_target a" "r_fencing_token rf = r_fencing_token r"
    "r_skill rf = r_skill r" "r_lease rf = None"
    by (simp_all add: rf_def finished_run_def r1_def erase_run_def)
  have "same_tables d (set_message (r_assistant_message r1) f d)"
    by (rule same_tables_message) (simp add: f_def erase_message_def)
  moreover have "same_tables (set_message (r_assistant_message r1) f d) d2"
    unfolding d2_def using t tables_inv_keys(2) [OF tin]
    by (intro same_tables_thread [of _ t _ i]) (simp_all add: erase_thread_def find_thread_def)
  ultimately have "same_tables d d2" by (simp add: same_tables_def)
  moreover have "db_events d2 = db_events d" by (simp add: d2_def put_thread_def)
  ultimately have "tx_frame e [] d r d2"
    by (rule tx_frame_step [OF tx_frame_refl])
  then obtain evs where evs: "emitted e (evs @ [(2, terminal_type (f_target a))]) d r rf
      (finalize_events e a (th_thread_id t) (rf, d2))"
    "distinct (map fst evs)" "2 \<notin> fst ` set evs" "list_all (\<lambda>t. \<not> terminal_event t) (map snd evs)"
    using rf(1,2) by (rule finalize_events_frame)
  obtain r2 d3 where fe: "finalize_events e a (th_thread_id t) (rf, d2) = (r2, d3)"
    by fastforce
  have r2: "r2 = rf\<lparr>r_last_event_sequence := r_last_event_sequence r + int (length evs + 1)\<rparr>"
    and frame: "tx_frame e (evs @ [(2, terminal_type (f_target a))]) d r d3"
    using evs(1) by (simp_all add: emitted_def fe)
  have er2: "erase_run r2 = erase_run r"
    using rf(3) by (simp add: r2 erase_run_def)
  have status: "r_status r2 = f_target a" by (simp add: r2 rf)
  have ends: "ends_with (f_target a) (map e_type (run_log d (r_id r)) @
      map snd (evs @ [(2, terminal_type (f_target a))]))"
    using run_ok_facts(4) [OF inv r] st(1,2) evs(4) by (simp add: ends_with_def butlast_append)
  have inv4: "run_inv (put_run r2 d3)"
  proof (rule run_inv_put [OF inv fresh r frame _ er2])
    show "ends_with (r_status r2) (map e_type (run_log d (r_id r)) @
        map snd (evs @ [(2, terminal_type (f_target a))]))"
      using ends by (simp add: status)
    show "lease_ok r2"
      using st(2) by (auto simp: lease_ok_def status) (simp_all add: r2 rf)
  qed (use evs(2,3) st(2) run_ok_facts(2) [OF inv r] in \<open>auto simp: r2 rf\<close>)
  have evo: "evolves d (put_run r2 d3)"
    using st(1,4) by (intro evolves_put [OF tin r frame er2]) (simp_all add: r2 rf)
  have runs: "db_runs (put_run r2 d3) = db_runs (put_run r2 d)"
    using frame by (auto simp: tx_frame_def same_tables_def put_run_def)
  have drw: "draws e d (put_run r2 d3)"
    using rf(1) by (intro draws_put [OF frame r tables_inv_keys(1) [OF tin]]) (simp add: r2)
  have "finalize_apply e a t r1 d =
      (if integrity (promote_next_queued e t (put_run r2 d3))
       then Inr (record_of r2 (th_thread_id t), promote_next_queued e t (put_run r2 d3))
       else Inl IntegrityError)"
    using fe run_inv_integrity [OF inv4]
    by (simp add: finalize_apply_def Let_def commit_def flip: f_def rf_def d2_def)
  moreover have "r2 = (finished_run e a r1)\<lparr>r_last_event_sequence := r_last_event_sequence r2\<rparr>"
    by (simp add: r2 rf_def)
  ultimately show thesis
    using inv4 evo drw runs by (intro that)
qed

text \<open>
  Finalising keeps the invariant. The one way it can fail to commit is a queued Run being
  ended while another Run of its Thread is active and a third one is waiting: the promotion
  would make a second Run active.
\<close>

definition promotion_blocked :: "db \<Rightarrow> run \<Rightarrow> bool" where
  "promotion_blocked d r \<longleftrightarrow>
     r_status r = QUEUED \<and> \<not> thread_idle d (r_thread r) \<and>
     (\<exists>q \<in> set (thread_queue d (r_thread r)). r_id q \<noteq> r_id r)"

lemma finalize_apply_safe:
  assumes inv: "run_inv d" and fresh: "fresh_env e d" and r: "r \<in> set (db_runs d)"
    and t: "find_thread d (r_thread r) = Some t"
    and st: "\<not> terminal (r_status r)" "terminal (f_target a)"
      "can_transition (r_status r) (f_target a)" "r_status r = CANCELLING \<Longrightarrow> f_target a = CANCELLED"
  defines "res \<equiv> finalize_apply e a t (r\<lparr>r_status := f_target a, r_updated_at := env_now e\<rparr>) d"
  shows "promotion_blocked d r \<Longrightarrow> res = Inl IntegrityError"
    and "\<not> promotion_blocked d r \<Longrightarrow> \<exists>x d' r2. res = Inr (x, d') \<and> run_inv d' \<and> evolves d d' \<and>
      draws e d d' \<and> r2 \<in> set (db_runs d') \<and> r_id r2 = r_id r \<and> r_status r2 = f_target a \<and>
      (\<forall>y \<in> set (db_runs d). y \<noteq> r \<longrightarrow> r_status y \<noteq> QUEUED \<longrightarrow> y \<in> set (db_runs d')) \<and>
      db_runs d' = db_runs (promote_next_queued e t (put_run r2 d))"
proof -
  have ti: "th_id t = r_thread r" using find_thread_SomeD [OF t] by simp
  have tin: "tables_inv d" using inv by (simp add: run_inv_def)
  note keys = tables_inv_keys(1) [OF tin]
  obtain r2 d4 where res: "res = (if integrity (promote_next_queued e t d4)
      then Inr (record_of r2 (th_thread_id t), promote_next_queued e t d4) else Inl IntegrityError)"
    and d4: "run_inv d4" "evolves d d4" "draws e d d4" "db_runs d4 = db_runs (put_run r2 d)"
    and r2: "r2 = (finished_run e a (r\<lparr>r_status := f_target a, r_updated_at := env_now e\<rparr>))
      \<lparr>r_last_event_sequence := r_last_event_sequence r2\<rparr>"
    unfolding res_def using inv fresh r t st by (rule finalize_flushed)
  have r2': "r_id r2 = r_id r" "r_thread r2 = r_thread r" "r_status r2 = f_target a"
    by (subst r2, simp add: finished_run_def)+
  have rows: "set (db_runs d4) = insert r2 (set (db_runs d) - {r})"
    unfolding d4(4) by (rule put_run_row [OF keys r r2'(1)])
  have idle: "thread_idle d4 (th_id t) \<longleftrightarrow>
      (\<forall>x \<in> set (db_runs d). x \<noteq> r \<longrightarrow> r_thread x = r_thread r \<longrightarrow> \<not> active (r_status x))"
    using st(2) r2' by (auto simp: thread_idle_def rows ti)
  have blocked: "promotion_blocked d r"
    if ni: "\<not> thread_idle d4 (th_id t)" and nq: "thread_queue d4 (th_id t) \<noteq> []"
  proof -
    obtain x where x: "x \<in> set (db_runs d)" "x \<noteq> r" "r_thread x = r_thread r" "active (r_status x)"
      using ni idle by blast
    have "one_active_per_thread (db_runs d)" using inv by (simp add: run_inv_def)
    then have "\<not> active (r_status r)"
      using x r unfolding one_active_iff [OF keys] by blast
    then have queued: "r_status r = QUEUED"
      using st(1) status_cases by blast
    obtain q where q: "q \<in> set (db_runs d4)" "r_thread q = r_thread r" "r_status q = QUEUED"
      using nq unfolding thread_queue_def ti filter_empty_conv by blast
    then have qd: "q \<in> set (db_runs d)" "q \<noteq> r"
      using rows r2'(3) st(2) by auto
    then have "r_id q \<noteq> r_id r"
      using distinct_key_unique [OF keys _ r] by blast
    moreover have "\<not> thread_idle d (r_thread r)"
      using x unfolding thread_idle_def by blast
    moreover have "q \<in> set (thread_queue d (r_thread r))"
      using q qd(1) by (simp add: thread_queue_def)
    ultimately show ?thesis
      using queued unfolding promotion_blocked_def by blast
  qed
  have busy: "\<not> thread_idle d4 (th_id t) \<and> thread_queue d4 (th_id t) \<noteq> []"
    if b: "promotion_blocked d r"
  proof -
    obtain q where q: "q \<in> set (db_runs d)" "r_thread q = r_thread r" "r_status q = QUEUED"
        "r_id q \<noteq> r_id r"
      using b by (auto simp: promotion_blocked_def thread_queue_def)
    then have "q \<in> set (thread_queue d4 (th_id t))"
      using rows by (auto simp: thread_queue_def ti)
    moreover obtain x where x: "x \<in> set (db_runs d)" "r_thread x = r_thread r" "active (r_status x)"
      using b unfolding promotion_blocked_def thread_idle_def by blast
    moreover have "x \<noteq> r"
      using x(3) b by (auto simp: promotion_blocked_def)
    ultimately show ?thesis using idle by (auto simp del: status_lists)
  qed
  show "res = Inl IntegrityError" if "promotion_blocked d r"
    using promote_busy [OF d4(1)] busy [OF that] by (simp add: res integrity_def runs_ok_def)
  show "\<exists>x d' r2. res = Inr (x, d') \<and> run_inv d' \<and> evolves d d' \<and> draws e d d' \<and>
      r2 \<in> set (db_runs d') \<and> r_id r2 = r_id r \<and> r_status r2 = f_target a \<and>
      (\<forall>y \<in> set (db_runs d). y \<noteq> r \<longrightarrow> r_status y \<noteq> QUEUED \<longrightarrow> y \<in> set (db_runs d')) \<and>
      db_runs d' = db_runs (promote_next_queued e t (put_run r2 d))"
    if "\<not> promotion_blocked d r"
  proof -
    have tin4: "tables_inv d4" using d4(1) by (simp add: run_inv_def)
    have inv': "run_inv (promote_next_queued e t d4)"
    proof (cases "thread_idle d4 (th_id t)")
      case False
      then have "thread_queue d4 (th_id t) = []" using blocked that by blast
      then show ?thesis using d4(1) by (simp add: promote_next_queued_def thread_queue_def)
    qed (rule promote_idle [OF d4(1)])
    have keep: "y \<in> set (db_runs (promote_next_queued e t d4))"
      if "y \<in> set (db_runs d4)" "r_status y \<noteq> QUEUED" for y
      using promote_keeps [OF tin4] that .
    have "r2 \<in> set (db_runs (promote_next_queued e t d4))"
      using st(2) r2'(3) rows by (intro keep) auto
    moreover have "\<forall>y \<in> set (db_runs d). y \<noteq> r \<longrightarrow> r_status y \<noteq> QUEUED \<longrightarrow>
        y \<in> set (db_runs (promote_next_queued e t d4))"
      using keep rows by blast
    moreover have "evolves d (promote_next_queued e t d4)"
      by (rule evolves_trans [OF d4(2) promote_tables(2) [OF tin4]])
    moreover have "draws e d (promote_next_queued e t d4)"
      by (rule draws_trans [OF d4(3) promote_draws [OF tin4]])
    moreover have "res = Inr (record_of r2 (th_thread_id t), promote_next_queued e t d4)"
      using run_inv_integrity [OF inv'] by (simp add: res)
    moreover have "db_runs (promote_next_queued e t d4) = db_runs (promote_next_queued e t (put_run r2 d))"
      by (rule promote_runs_cong [OF d4(4)])
    ultimately show ?thesis
      using inv' r2' by blast
  qed
qed

lemma finalize_cases:
  assumes inv: "run_inv d" and fresh: "fresh_env e d"
  shows "finalize e a d = Inl IntegrityError \<and>
      (\<exists>r \<in> set (db_runs d). r_id r = f_run_id a \<and> promotion_blocked d r) \<or>
    safe_tx d (finalize e a d)"
proof (cases "find_run d (f_run_id a)")
  case None
  then show ?thesis by (simp add: finalize_def)
next
  case (Some r)
  then have r: "r \<in> set (db_runs d)" "r_id r = f_run_id a"
    using find_run_SomeD by auto
  have "promotion_blocked d r \<and> finalize e a d = Inl IntegrityError \<or> safe_tx d (finalize e a d)"
  proof (cases "find_thread d (r_thread r)")
    case None
    with Some show ?thesis by (simp add: finalize_def)
  next
    case t: (Some t)
    let ?a = "if r_status r = CANCELLING \<and> f_target a \<noteq> CANCELLED then cancelled_override a else a"
    have tgt: "terminal (f_target ?a)" if "terminal (f_target a)"
      using that by (simp add: cancelled_override_def)
    have canc: "f_target ?a = CANCELLED" if "r_status r = CANCELLING"
      using that by (simp add: cancelled_override_def)
    define core where
      "core = (case transition e r (f_target ?a) of Inl ex \<Rightarrow> Inl ex | Inr r1 \<Rightarrow> finalize_apply e ?a t r1 d)"
    define late where "late = (case f_lease_expired_before a of None \<Rightarrow> False
        | Some cutoff \<Rightarrow> r_status r \<notin> {RUNNING, CANCELLING} \<or>
            (case r_lease r of None \<Rightarrow> True | Some l \<Rightarrow> cutoff \<le> l))"
    have core: "promotion_blocked d r \<and> core = Inl IntegrityError \<or> safe_tx d core"
      if "\<not> terminal (r_status r)" "terminal (f_target a)"
    proof (cases "can_transition (r_status r) (f_target ?a)")
      case True
      then show ?thesis
        using finalize_apply_safe [OF inv fresh r(1) t that(1) tgt [OF that(2)] True canc]
        by (cases "promotion_blocked d r") (force simp: core_def transition_def)+
    qed (simp add: core_def transition_def)
    have "finalize e a d =
        (if \<not> terminal (f_target a) then Inl ValueError else
         case assert_fencing r (f_fencing_token a) of Some ex \<Rightarrow> Inl ex | None \<Rightarrow>
         if late then Inl (app_error RUN_STATE_CONFLICT 409)
         else if terminal (r_status r)
         then (if r_status r \<noteq> f_target a then Inl (app_error RUN_STATE_CONFLICT 409)
               else commit (record_of r (th_thread_id t)) d)
         else core)"
      by (simp only: finalize_def Some t option.case Let_def core_def late_def)
    then show ?thesis
      using core inv by (simp add: assert_fencing_def)
  qed
  with r show ?thesis by blast
qed

text \<open>The thread of a stored Run is stored.\<close>

lemma run_thread:
  assumes "run_inv d" and "r \<in> set (db_runs d)"
  obtains t where "find_thread d (r_thread r) = Some t" "th_user t = r_user r"
proof -
  have tin: "tables_inv d" using assms(1) by (simp add: run_inv_def)
  have "run_links (db_users d) (db_threads d) (db_messages d) r"
    using tin assms(2) by (simp add: tables_inv_def struct_ok_def)
  then obtain t where t: "t \<in> set (db_threads d)" "th_id t = r_thread r" "th_user t = r_user r"
    by (auto simp: run_links_def)
  have "find_thread d (th_id t) = Some t"
    unfolding find_thread_def by (rule find_unique [OF tables_inv_keys(2) [OF tin] t(1)])
  with t show thesis using that by simp
qed

text \<open>The status an active Run gets when it is finalised with target \<open>s\<close>.\<close>

definition final_status :: "run_status \<Rightarrow> run_status \<Rightarrow> run_status" where
  "final_status current s = (if current = CANCELLING then CANCELLED else s)"

lemma finalize_active:
  assumes inv: "run_inv d" and fresh: "fresh_env e d" and r: "r \<in> set (db_runs d)"
    and id: "r_id r = f_run_id a" and act: "active (r_status r)"
    and fence: "f_fencing_token a = None \<or> f_fencing_token a = Some (r_fencing_token r)"
    and tgt: "terminal (f_target a)" "can_transition (r_status r) (final_status (r_status r) (f_target a))"
    and late: "\<And>cutoff. f_lease_expired_before a = Some cutoff \<Longrightarrow>
      r_status r \<in> {RUNNING, CANCELLING} \<and> (\<exists>l. r_lease r = Some l \<and> l < cutoff)"
    and t: "find_thread d (r_thread r) = Some t"
  shows "\<exists>x d' r2. finalize e a d = Inr (x, d') \<and> run_inv d' \<and> evolves d d' \<and>
      draws e d d' \<and> r2 \<in> set (db_runs d') \<and> r_id r2 = r_id r \<and>
      r_status r2 = final_status (r_status r) (f_target a) \<and>
      (\<forall>y \<in> set (db_runs d). y \<noteq> r \<longrightarrow> r_status y \<noteq> QUEUED \<longrightarrow> y \<in> set (db_runs d')) \<and>
      db_runs d' = db_runs (promote_next_queued e t (put_run r2 d))"
proof -
  have tin: "tables_inv d" using inv by (simp add: run_inv_def)
  have Some: "find_run d (f_run_id a) = Some r"
    using find_run_unique [OF tables_inv_keys(1) [OF tin] r] id by simp
  let ?a = "if r_status r = CANCELLING \<and> f_target a \<noteq> CANCELLED then cancelled_override a else a"
  have target: "f_target ?a = final_status (r_status r) (f_target a)"
    by (simp add: cancelled_override_def final_status_def)
  have nt: "\<not> terminal (r_status r)" by (rule active_not_terminal [OF act])
  have nlate: "\<not> (case f_lease_expired_before a of None \<Rightarrow> False
      | Some cutoff \<Rightarrow> r_status r \<notin> {RUNNING, CANCELLING} \<or>
          (case r_lease r of None \<Rightarrow> True | Some l \<Rightarrow> cutoff \<le> l))"
    using late by (cases "f_lease_expired_before a") force+
  have guard: "assert_fencing r (f_fencing_token a) = None"
    using fence by (auto simp: assert_fencing_def)
  have trans: "transition e r (f_target ?a) = Inr (r\<lparr>r_status := f_target ?a, r_updated_at := env_now e\<rparr>)"
    unfolding target transition_def using tgt(2) by simp
  have eq: "finalize e a d =
      finalize_apply e ?a t (r\<lparr>r_status := f_target ?a, r_updated_at := env_now e\<rparr>) d"
    by (simp only: finalize_def Some t guard option.case trans sum.case Let_def
        if_not_P [OF nlate] if_not_P [OF nt] tgt(1) not_True_eq_False if_False)
  have nb: "\<not> promotion_blocked d r"
    using act by (auto simp: promotion_blocked_def)
  have 1: "terminal (f_target ?a)"
    unfolding target using tgt(1) by (simp add: final_status_def)
  have 2: "can_transition (r_status r) (f_target ?a)"
    unfolding target by (rule tgt(2))
  have 3: "f_target ?a = CANCELLED" if "r_status r = CANCELLING"
    unfolding target using that by (simp add: final_status_def)
  show ?thesis
    using finalize_apply_safe(2) [OF inv fresh r t nt 1 2 3 nb] unfolding eq target .
qed

section \<open>Orphan recovery\<close>

definition orphaned :: "timestamp \<Rightarrow> run \<Rightarrow> bool" where
  "orphaned now r \<longleftrightarrow> r_status r \<in> {RUNNING, CANCELLING} \<and> (\<exists>l. r_lease r = Some l \<and> l < now)"

lemma orphan_candidates_eq:
  "orphan_candidates now d =
     map (\<lambda>r. (r_id r, r_fencing_token r)) (filter (orphaned now) (db_runs d))"
  unfolding orphan_candidates_def orphaned_def
  by (intro arg_cong [where f = "map _"] filter_cong refl) (auto split: option.splits)

lemma reconcile_loop_recovers:
  assumes "run_inv d" and "fresh_supply es i d" and "distinct (map r_id rs)"
    and "\<And>r. r \<in> set rs \<Longrightarrow> r \<in> set (db_runs d) \<and> orphaned now r"
  shows "\<exists>d'. reconcile_loop es i now (map (\<lambda>r. (r_id r, r_fencing_token r)) rs) done d =
      (None, done @ map r_id rs, d') \<and> run_inv d' \<and> evolves d d' \<and>
    (\<forall>r \<in> set rs. \<exists>r' \<in> set (db_runs d'). r_id r' = r_id r \<and>
       r_status r' = final_status (r_status r) FAILED)"
  using assms
proof (induction rs arbitrary: i d "done")
  case (Cons r rs)
  let ?a = "orphan_args now (r_id r) (r_fencing_token r)"
  have r: "r \<in> set (db_runs d)" "orphaned now r" using Cons.prems(4) by auto
  have fresh: "fresh_env (es i) d" using Cons.prems(2) by (simp add: fresh_supply_def)
  obtain t where t: "find_thread d (r_thread r) = Some t"
    using run_thread [OF Cons.prems(1) r(1)] by blast
  have "\<exists>x d' r2. finalize (es i) ?a d = Inr (x, d') \<and> run_inv d' \<and> evolves d d' \<and>
      draws (es i) d d' \<and> r2 \<in> set (db_runs d') \<and> r_id r2 = r_id r \<and>
      r_status r2 = final_status (r_status r) (f_target ?a) \<and>
      (\<forall>y \<in> set (db_runs d). y \<noteq> r \<longrightarrow> r_status y \<noteq> QUEUED \<longrightarrow> y \<in> set (db_runs d')) \<and>
      db_runs d' = db_runs (promote_next_queued (es i) t (put_run r2 d))"
    by (rule finalize_active [OF Cons.prems(1) fresh r(1) _ _ _ _ _ _ t])
      (use r(2) in \<open>auto simp: orphan_args_def orphaned_def final_status_def can_transition_def\<close>)
  then obtain x d1 r2 where d1: "finalize (es i) ?a d = Inr (x, d1)" "run_inv d1" "evolves d d1"
      "draws (es i) d d1" "r2 \<in> set (db_runs d1)" "r_id r2 = r_id r"
      "r_status r2 = final_status (r_status r) FAILED"
      "\<And>y. y \<in> set (db_runs d) \<Longrightarrow> y \<noteq> r \<Longrightarrow> r_status y \<noteq> QUEUED \<Longrightarrow> y \<in> set (db_runs d1)"
    by (auto simp: orphan_args_def)
  have rest: "y \<in> set (db_runs d1) \<and> orphaned now y" if "y \<in> set rs" for y
  proof -
    have "y \<noteq> r" using Cons.prems(3) that by auto
    moreover have "y \<in> set (db_runs d)" "orphaned now y" using Cons.prems(4) that by auto
    ultimately show ?thesis using d1(8) [of y] by (auto simp: orphaned_def)
  qed
  obtain d' where d': "reconcile_loop es (Suc i) now (map (\<lambda>r. (r_id r, r_fencing_token r)) rs)
        (done @ [r_id r]) d1 = (None, (done @ [r_id r]) @ map r_id rs, d')"
      "run_inv d'" "evolves d1 d'"
      "\<forall>r \<in> set rs. \<exists>r' \<in> set (db_runs d'). r_id r' = r_id r \<and>
         r_status r' = final_status (r_status r) FAILED"
    using Cons.IH [OF d1(2) draws_fresh [OF d1(4) Cons.prems(2)] _ rest] Cons.prems(3) by fastforce
  have "\<exists>r' \<in> set (db_runs d'). run_evolves d1 d' r2 r'"
    using d'(3) d1(5) by (simp add: evolves_def)
  then have "r2 \<in> set (db_runs d')"
    using d1(7) by (auto simp: run_evolves_def final_status_def split: if_splits)
  then show ?case
    using d1 d' evolves_trans [OF d1(3) d'(3)] by auto
qed simp

end
