(* ===== verification/Run_Reserve.thy ===== *)
theory Run_Reserve
  imports Run_Finalize
begin

text \<open>
  Reservation of a Run: the transaction of \<open>RunRepository.reserve\<close> keeps the invariant, does
  not run into a unique index, and is idempotent in its key.
\<close>

section \<open>The thread\<close>

lemma run_inv_struct:
  assumes "run_inv d"
    and "struct_ok (db_users d1) (db_threads d1) (db_messages d1) (db_runs d1) (seq_thread d1) (seq_message d1)"
    and "db_runs d1 = db_runs d" "db_events d1 = db_events d" "db_checkpoints d1 = db_checkpoints d"
      "db_audits d1 = db_audits d" "seq_checkpoint d1 = seq_checkpoint d" and "parents_kept d d1"
  shows "run_inv d1" and "evolves d d1"
proof -
  have log: "run_log d1 = run_log d" by (simp add: run_log_def fun_eq_iff assms(4))
  show "run_inv d1"
    using assms by (simp add: run_inv_def tables_inv_def run_ok_def log_of_def log)
  have "run_evolves d d1 r r" for r by (simp add: run_evolves_def log)
  then show "evolves d d1" unfolding evolves_def assms(3) using assms(8) by blast
qed

lemma run_inv_same_tables:
  assumes "run_inv d" and "same_tables d d1" and "db_events d1 = db_events d"
  shows "run_inv d1" and "evolves d d1"
proof -
  have "struct_ok (db_users d1) (db_threads d1) (db_messages d1) (db_runs d1) (seq_thread d1)
      (seq_message d1)"
    using assms(1,2)
    by (subst struct_ok_cong [where ts' = "db_threads d" and ms' = "db_messages d" and rs' = "db_runs d"])
      (simp_all add: same_tables_def run_inv_def tables_inv_def)
  then show "run_inv d1" "evolves d d1"
    using assms run_inv_struct [OF assms(1)] same_tables_parents [OF assms(2)]
    by (simp_all add: same_tables_def)
qed

lemma update_thread_keys:
  assumes "run_inv d" and t: "t \<in> set (db_threads d)" and "thread_key t' = thread_key t"
  shows "thread_key ` set (update_where (\<lambda>x. th_id x = th_id t) (\<lambda>_. t') (db_threads d)) =
    thread_key ` set (db_threads d)"
proof -
  have keys: "distinct (map th_id (db_threads d))"
    using assms(1) by (simp add: run_inv_def tables_inv_keys(2))
  have "x = t" if "x \<in> set (db_threads d)" "th_id x = th_id t" for x
    by (rule distinct_key_unique [OF keys that(1) t that(2)])
  then have "map thread_key (update_where (\<lambda>x. th_id x = th_id t) (\<lambda>_. t') (db_threads d)) =
      map thread_key (db_threads d)"
    using assms(3) unfolding update_where_def map_map comp_def
    by (intro map_cong [OF refl]) auto
  then show ?thesis by (metis set_map)
qed

lemma fresh_env_same:
  assumes "fresh_env e d" and "db_events d1 = db_events d" and "db_runs d1 = db_runs d"
    and "db_messages d1 = db_messages d" and "db_checkpoints d1 = db_checkpoints d"
  shows "fresh_env e d1"
  using assms unfolding fresh_env_def by simp

text \<open>What the rest of the reservation relies on about the thread it got.\<close>

definition thread_ready :: "env \<Rightarrow> db \<Rightarrow> user \<Rightarrow> string \<Rightarrow> thread \<Rightarrow> db \<Rightarrow> bool" where
  "thread_ready e d u tid t d1 \<longleftrightarrow>
     run_inv d1 \<and> evolves d d1 \<and> fresh_env e d1 \<and> t \<in> set (db_threads d1) \<and>
     th_user t = u_id u \<and> th_thread_id t = tid \<and> db_users d1 = db_users d \<and> db_runs d1 = db_runs d"

lemma new_thread_ready:
  assumes inv: "run_inv d" and fresh: "fresh_env e d" and none: "thread_of_user d (u_id u) tid = None"
    and new: "new_thread e u tid metadata d = (t, d1)"
  shows "thread_ready e d u tid t d1"
proof -
  have st: "struct_ok (db_users d) (db_threads d) (db_messages d) (db_runs d) (seq_thread d) (seq_message d)"
    using inv by (simp add: run_inv_def tables_inv_def)
  have t: "th_id t = seq_thread d" "th_user t = u_id u" "th_thread_id t = tid"
      "th_version t = 0" "th_message_count t = 0" "th_last_sequence t = 0"
    and d1: "d1 = d\<lparr>db_threads := db_threads d @ [t], seq_thread := seq_thread d + 1\<rparr>"
    using new by (auto simp: new_thread_def Let_def)
  have lt: "th_id x < seq_thread d" if "x \<in> set (db_threads d)" for x
    using st that by (simp add: struct_ok_def)
  have none': "\<not> (th_user x = u_id u \<and> th_thread_id x = tid)" if "x \<in> set (db_threads d)" for x
    using find_NoneD [OF none [unfolded thread_of_user_def] that] .
  have "m_thread m < seq_thread d" if "m \<in> set (db_messages d)" for m
    using st that lt unfolding struct_ok_def by metis
  then have empty: "thread_messages (db_messages d) (seq_thread d) = []"
    by (fastforce simp: thread_messages_def filter_empty_conv)
  have "struct_ok (db_users d) (db_threads d @ [t]) (db_messages d) (db_runs d) (seq_thread d + 1)
      (seq_message d)"
    unfolding struct_ok_def
  proof (intro conjI)
    show "distinct (map th_id (db_threads d @ [t]))"
      using st lt t(1) by (fastforce simp: struct_ok_def)
    show "\<forall>x \<in> set (db_threads d @ [t]). th_id x < seq_thread d + 1"
      using lt t(1) by fastforce
    show "threads_ok (db_threads d @ [t])"
      using st none' t(2,3) by (fastforce simp: struct_ok_def threads_ok_def)
    show "\<forall>x \<in> set (db_threads d @ [t]). thread_counts (db_messages d) x"
      using st t empty by (auto simp: struct_ok_def thread_counts_def)
    show "\<forall>r \<in> set (db_runs d). run_links (db_users d) (db_threads d @ [t]) (db_messages d) r"
      using st unfolding struct_ok_def run_links_def by auto
    show "\<forall>m \<in> set (db_messages d). \<exists>x \<in> set (db_threads d @ [t]). th_id x = m_thread m"
      using st unfolding struct_ok_def by auto
  qed (use st in \<open>auto simp: struct_ok_def\<close>)
  then have "run_inv d1" "evolves d d1"
    using run_inv_struct [OF inv, of d1] by (auto simp: d1 parents_kept_def)
  moreover have "fresh_env e d1" by (rule fresh_env_same [OF fresh]) (simp_all add: d1)
  ultimately show ?thesis using t by (simp add: thread_ready_def d1)
qed

lemma get_or_create_thread_ready:
  assumes inv: "run_inv d" and fresh: "fresh_env e d"
    and res: "get_or_create_thread e u tid title allow d = Inr (t, d1)"
  shows "thread_ready e d u tid t d1"
proof (cases "thread_of_user d (u_id u) tid")
  case None
  with res show ?thesis
    using new_thread_ready [OF inv fresh None]
    by (auto simp: get_or_create_thread_def split: if_splits)
next
  case (Some t0)
  have t0: "t0 \<in> set (db_threads d)" "th_user t0 = u_id u" "th_thread_id t0 = tid"
    using find_SomeD [OF Some [unfolded thread_of_user_def]] by auto
  have tin: "tables_inv d" using inv by (simp add: run_inv_def)
  show ?thesis
  proof (cases "or_else title '''' \<noteq> '''' \<and> \<not> has_title t0")
    case False
    then have "t = t0" "d1 = d"
      using res Some by (auto simp: get_or_create_thread_def)
    with inv fresh t0 show ?thesis by (simp add: thread_ready_def)
  next
    case True
    define t1 where "t1 = t0\<lparr>th_metadata := AList.update ''title'' (JStr (or_else title '''')) (th_metadata t0),
        th_updated_at := env_now e\<rparr>"
    have t: "t = t1" and d1: "d1 = put_thread t1 d"
      using res Some True by (auto simp: get_or_create_thread_def Let_def t1_def)
    have "find_thread d (th_id t0) = Some t0"
      unfolding find_thread_def by (rule find_unique [OF tables_inv_keys(2) [OF tin] t0(1)])
    then have "same_tables d d1"
      unfolding d1 using tables_inv_keys(2) [OF tin]
      by (intro same_tables_thread [of t1 t0]) (simp_all add: t1_def erase_thread_def)
    moreover have "db_events d1 = db_events d" by (simp add: d1 put_thread_def)
    ultimately have "run_inv d1" "evolves d d1"
      using run_inv_same_tables [OF inv] by simp_all
    moreover have "fresh_env e d1"
      by (rule fresh_env_same [OF fresh]) (simp_all add: d1 put_thread_def)
    moreover have "t1 \<in> set (db_threads d1)"
      using t0(1) by (auto simp: d1 put_thread_def set_update_where t1_def)
    ultimately show ?thesis
      using t0 by (simp add: thread_ready_def t d1 put_thread_def) (simp add: t1_def)
  qed
qed

lemma get_or_create_thread_error:
  "get_or_create_thread e u tid title allow d = Inl ex \<Longrightarrow> ex = app_error NOT_FOUND 404"
  by (auto simp: get_or_create_thread_def Let_def split: option.splits if_splits)

section \<open>The row and its messages\<close>

text \<open>A row that \<open>reserve\<close> may insert into \<open>d\<close> for the thread \<open>t\<close>.\<close>

definition insertable :: "env \<Rightarrow> db \<Rightarrow> thread \<Rightarrow> run \<Rightarrow> bool" where
  "insertable e d t r \<longleftrightarrow>
     r_id r = ''run_'' @ env_uuid4 e 0 \<and> r_thread r = th_id t \<and> r_user r = th_user t \<and>
     (\<exists>u \<in> set (db_users d). u_id u = r_user r) \<and>
     existing_run d (r_user r) (r_thread r) (r_idempotency_key r) = None \<and>
     r_status r = (if active_run d (th_id t) = None then PENDING else QUEUED) \<and>
     length (r_model_catalog_hash r) = 64 \<and> r_owner r = None \<and> r_lease r = None \<and> r_skill r = (None, None, None, None)"

lemma runs_ok_insert:
  assumes inv: "run_inv d" and fresh: "fresh_env e d" and ins: "insertable e d t r"
    and msg: "\<And>i. r_assistant_message r = Some i \<Longrightarrow> seq_message d \<le> i"
  shows "runs_ok (db_runs d @ [r])"
proof -
  have old: "runs_ok (db_runs d)"
    using run_inv_integrity [OF inv] by (simp add: integrity_def)
  have st: "struct_ok (db_users d) (db_threads d) (db_messages d) (db_runs d) (seq_thread d) (seq_message d)"
    using inv by (simp add: run_inv_def tables_inv_def)
  have "r_id r \<notin> r_id ` set (db_runs d)"
    using fresh ins unfolding fresh_env_def insertable_def image_iff by metis
  moreover have "\<not> (r_user x = r_user r \<and> r_thread x = r_thread r \<and>
      r_idempotency_key x = r_idempotency_key r)" if "x \<in> set (db_runs d)" for x
    using ins find_NoneD [OF _ that] unfolding insertable_def existing_run_def by blast
  then have "(r_user r, r_thread r, r_idempotency_key r) \<notin>
      (\<lambda>r. (r_user r, r_thread r, r_idempotency_key r)) ` set (db_runs d)"
    unfolding image_iff by (metis Pair_inject)
  moreover have "\<not> active (r_status x)"
    if "x \<in> set (db_runs d)" "r_thread x = r_thread r" "active (r_status r)" for x
  proof -
    have "active_run d (th_id t) = None"
      using ins that(3) by (auto simp: insertable_def split: if_splits)
    then have "filter (\<lambda>r. r_thread r = th_id t \<and> active (r_status r)) (db_runs d) = []"
      unfolding active_run_def first_by_None .
    then show ?thesis
      using that ins unfolding filter_empty_conv insertable_def by auto
  qed
  then have "one_active_per_thread (db_runs d @ [r])"
    using old by (auto simp: one_active_per_thread_def runs_ok_def)
  moreover have "i < seq_message d"
    if x: "x \<in> set (db_runs d)" and i: "r_assistant_message x = Some i" for x i
  proof -
    have "run_links (db_users d) (db_threads d) (db_messages d) x"
      using st x by (simp add: struct_ok_def)
    then obtain m where "m \<in> set (db_messages d)" "m_id m = i"
      using i by (auto simp: run_links_def)
    then show ?thesis using st by (auto simp: struct_ok_def)
  qed
  then have "distinct (List.map_filter r_assistant_message (db_runs d @ [r]))"
    using old msg
    by (cases "r_assistant_message r")
      (fastforce simp: runs_ok_def map_filter_def)+
  ultimately show ?thesis
    using old ins by (auto simp: runs_ok_def idempotency_unique_def insertable_def skill_complete_def)
qed

text \<open>Appending messages to a thread, with its counters moved along.\<close>

lemma sequence_bound:
  assumes "struct_ok us ts ms rs nt nm" and "t \<in> set ts" and "m \<in> set ms" and "m_thread m = th_id t"
  shows "m_sequence m \<le> th_last_sequence t"
proof -
  have "m_sequence m \<in> set (map m_sequence (thread_messages ms (th_id t)))"
    using assms(3,4) by (simp add: thread_messages_def)
  also have "map m_sequence (thread_messages ms (th_id t)) = [1..th_last_sequence t]"
    using assms(1,2) by (simp add: struct_ok_def thread_counts_def)
  finally show ?thesis by simp
qed

definition appends :: "int \<Rightarrow> thread \<Rightarrow> message list \<Rightarrow> bool" where
  "appends nm t ns \<longleftrightarrow>
     (\<forall>m \<in> set ns. m_thread m = th_id t) \<and> map m_id ns = [nm..nm + int (length ns) - 1] \<and>
     map m_sequence ns = [th_last_sequence t + 1..th_last_sequence t + int (length ns)]"

definition moved_by :: "int \<Rightarrow> thread \<Rightarrow> thread \<Rightarrow> bool" where
  "moved_by n t t' \<longleftrightarrow>
     th_id t' = th_id t \<and> th_user t' = th_user t \<and> th_thread_id t' = th_thread_id t \<and>
     th_last_sequence t' = th_last_sequence t + n \<and> th_message_count t' = th_message_count t + n \<and>
     th_version t' = th_version t + n"

lemma messages_ok_append:
  assumes st: "struct_ok us ts ms rs nt nm" and t: "t \<in> set ts" and ns: "appends nm t ns"
    and new: "distinct (List.map_filter m_client_id ns)"
      "\<And>m n. m \<in> set ms \<Longrightarrow> n \<in> set ns \<Longrightarrow> m_thread m = th_id t \<Longrightarrow> m_client_id n \<noteq> None \<Longrightarrow>
         m_client_id m \<noteq> m_client_id n"
  shows "messages_ok (ms @ ns)"
proof -
  have old: "messages_ok ms" using st by (simp add: struct_ok_def)
  have th: "m_thread n = th_id t" if "n \<in> set ns" for n
    using ns that by (simp add: appends_def)
  have seq: "th_last_sequence t < m_sequence n" if "n \<in> set ns" for n
  proof -
    have "m_sequence n \<in> set (map m_sequence ns)" using that by simp
    also have "map m_sequence ns = [th_last_sequence t + 1..th_last_sequence t + int (length ns)]"
      using ns by (simp add: appends_def)
    finally show ?thesis by simp
  qed
  have "distinct (map m_sequence ns)" using ns by (simp add: appends_def)
  then have "distinct (map (\<lambda>m. (m_thread m, m_sequence m)) ns)"
    by (auto simp: distinct_map inj_on_def)
  moreover have "(m_thread m, m_sequence m) \<noteq> (m_thread n, m_sequence n)" if "m \<in> set ms" "n \<in> set ns" for m n
    using seq [OF that(2)] sequence_bound [OF st t that(1)] th [OF that(2)] by (metis Pair_inject not_less)
  then have "set (map (\<lambda>m. (m_thread m, m_sequence m)) ms) \<inter> set (map (\<lambda>m. (m_thread m, m_sequence m)) ns) = {}"
    unfolding set_map by blast
  ultimately have 1: "distinct (map (\<lambda>m. (m_thread m, m_sequence m)) (ms @ ns))"
    using old by (simp add: messages_ok_def)
  let ?k = "\<lambda>m. map_option (Pair (m_thread m)) (m_client_id m)"
  have app: "List.map_filter ?k (ms @ ns) = List.map_filter ?k ms @ List.map_filter ?k ns"
    by (simp add: List.map_filter_def)
  have "List.map_filter ?k ns = map (Pair (th_id t)) (List.map_filter m_client_id ns)"
    using th by (induction ns) (auto simp: List.map_filter_simps split: option.splits)
  then have "distinct (List.map_filter ?k ns)"
    using new(1) by (simp add: distinct_map inj_on_def)
  moreover have "?k m \<noteq> ?k n" if "m \<in> set ms" "n \<in> set ns" "m_client_id n \<noteq> None" for m n
    using new(2) [OF that(1,2) _ that(3)] th [OF that(2)] that(3)
    by (cases "m_client_id m"; cases "m_client_id n") auto
  then have "set (List.map_filter ?k ms) \<inter> set (List.map_filter ?k ns) = {}"
    by (fastforce simp: List.map_filter_def)
  ultimately have "distinct (List.map_filter ?k (ms @ ns))"
    using old by (simp add: app messages_ok_def)
  with 1 show ?thesis by (simp add: messages_ok_def)
qed

lemma run_links_mono:
  assumes "run_links us ts ms r" and "set ms \<subseteq> set ms'"
    and "(\<lambda>t. (th_id t, th_user t)) ` set ts \<subseteq> (\<lambda>t. (th_id t, th_user t)) ` set ts'"
  shows "run_links us ts' ms' r"
proof -
  obtain t where "t \<in> set ts" "th_id t = r_thread r" "th_user t = r_user r"
    using assms(1) by (auto simp: run_links_def)
  then have "(r_thread r, r_user r) \<in> (\<lambda>t. (th_id t, th_user t)) ` set ts'"
    using assms(3) by force
  then have "\<exists>t \<in> set ts'. th_id t = r_thread r \<and> th_user t = r_user r"
    by auto
  then show ?thesis
    using assms(1,2) unfolding run_links_def by (meson subsetD)
qed

lemma struct_ok_append:
  assumes st: "struct_ok us ts ms rs nt nm" and t: "t \<in> set ts" and ns: "appends nm t ns"
    and t': "moved_by (int (length ns)) t t'" and ok: "messages_ok (ms @ ns)"
  defines "ts' \<equiv> update_where (\<lambda>x. th_id x = th_id t) (\<lambda>_. t') ts"
  shows "struct_ok us ts' (ms @ ns) rs nt (nm + int (length ns))"
    and "(\<lambda>x. (th_id x, th_user x)) ` set ts' = (\<lambda>x. (th_id x, th_user x)) ` set ts"
proof -
  have bt: "th_id t' = th_id t" "th_user t' = th_user t" "th_thread_id t' = th_thread_id t"
    using t' by (simp_all add: moved_by_def)
  have uniq: "x = t" if "x \<in> set ts" "th_id x = th_id t" for x
    using distinct_key_unique [OF _ that(1) t that(2)] st by (simp add: struct_ok_def)
  have keys: "map (\<lambda>x. (th_id x, th_user x, th_thread_id x)) ts' =
      map (\<lambda>x. (th_id x, th_user x, th_thread_id x)) ts"
    unfolding ts'_def update_where_def map_map comp_def
    using uniq bt by (intro map_cong [OF refl]) auto
  have ids: "map th_id ts' = map th_id ts"
    using arg_cong [OF keys, of "map fst"] by (simp add: comp_def)
  show pairs: "(\<lambda>x. (th_id x, th_user x)) ` set ts' = (\<lambda>x. (th_id x, th_user x)) ` set ts"
    using arg_cong [OF keys, of "\<lambda>xs. (\<lambda>y. (fst y, fst (snd y))) ` set xs"] by (simp add: image_image)
  have idset: "th_id ` set ts' = th_id ` set ts"
    using arg_cong [OF ids, of set] by simp
  have th: "m_thread n = th_id t" if "n \<in> set ns" for n
    using ns that by (simp add: appends_def)
  have lt: "m_id m < nm" if "m \<in> set ms" for m
    using st that by (simp add: struct_ok_def)
  have nid: "nm \<le> m_id n \<and> m_id n < nm + int (length ns)" if "n \<in> set ns" for n
  proof -
    have "m_id n \<in> set (map m_id ns)" using that by simp
    also have "map m_id ns = [nm..nm + int (length ns) - 1]" using ns by (simp add: appends_def)
    finally show ?thesis by simp
  qed
  have ms': "thread_messages (ms @ ns) i = thread_messages ms i @ (if i = th_id t then ns else [])" for i
    using th by (auto simp: thread_messages_def intro!: filter_True filter_False)
  have "distinct (map m_id (ms @ ns))"
  proof -
    have "distinct (map m_id ns)" using ns by (simp add: appends_def)
    moreover have "set (map m_id ms) \<inter> set (map m_id ns) = {}" using lt nid by fastforce
    moreover have "distinct (map m_id ms)" using st by (simp add: struct_ok_def)
    ultimately show ?thesis by simp
  qed
  moreover have "\<forall>m \<in> set (ms @ ns). m_id m < nm + int (length ns)"
    using lt nid by fastforce
  moreover have "\<forall>m \<in> set (ms @ ns). \<exists>x \<in> set ts'. th_id x = m_thread m"
  proof
    fix m
    assume "m \<in> set (ms @ ns)"
    then consider "m \<in> set ms" | "m \<in> set ns" by auto
    then have "m_thread m \<in> th_id ` set ts"
    proof cases
      case 1
      then have "\<exists>x \<in> set ts. th_id x = m_thread m" using st by (simp add: struct_ok_def)
      then show ?thesis by force
    qed (simp add: th t)
    then have "m_thread m \<in> th_id ` set ts'" unfolding idset .
    then show "\<exists>x \<in> set ts'. th_id x = m_thread m" by force
  qed
  moreover have "thread_counts (ms @ ns) x" if x: "x \<in> set ts'" for x
  proof -
    consider "x = t'" | "x \<in> set ts" "th_id x \<noteq> th_id t"
      using x unfolding ts'_def by (auto elim!: in_update_whereE)
    then show ?thesis
    proof cases
      case 1
      have c: "thread_counts ms t" using st t by (simp add: struct_ok_def)
      with 1 show ?thesis
        using t' ns upto_split [of "th_last_sequence t" "length ns"]
        by (simp add: thread_counts_def ms' bt moved_by_def appends_def)
    next
      case 2
      then show ?thesis using st by (simp add: struct_ok_def thread_counts_def ms')
    qed
  qed
  moreover have "\<forall>x \<in> set ts'. th_id x < nt"
    using st idset unfolding struct_ok_def by (metis (no_types, lifting) image_iff)
  moreover have "threads_ok ts'"
    using st arg_cong [OF keys, of "map snd"] by (simp add: struct_ok_def threads_ok_def comp_def)
  moreover have "run_links us ts' (ms @ ns) r" if "r \<in> set rs" for r
  proof (rule run_links_mono)
    show "run_links us ts ms r" using st that by (simp add: struct_ok_def)
  qed (simp_all add: pairs)
  ultimately show "struct_ok us ts' (ms @ ns) rs nt (nm + int (length ns))"
    using st ok unfolding struct_ok_def ids by blast
qed

text \<open>The database after the insertion, table by table.\<close>

definition inserted_run :: "db \<Rightarrow> thread \<Rightarrow> run \<Rightarrow> run" where
  "inserted_run d t r =
     r\<lparr>r_user_message := Some (seq_message d), r_assistant_message := Some (seq_message d + 1),
       r_fencing_token := th_version t + 2, r_last_event_sequence := 1\<rparr>"

definition bumped_thread :: "env \<Rightarrow> thread \<Rightarrow> thread" where
  "bumped_thread e t =
     t\<lparr>th_last_sequence := th_last_sequence t + 2, th_message_count := th_message_count t + 2,
       th_version := th_version t + 2, th_updated_at := env_now e\<rparr>"

definition after_insert :: "env \<Rightarrow> string \<Rightarrow> run \<Rightarrow> thread \<Rightarrow> db \<Rightarrow> db \<Rightarrow> bool" where
  "after_insert e body r t d d' \<longleftrightarrow>
     db_users d' = db_users d \<and> db_runs d' = db_runs d @ [inserted_run d t r] \<and>
     db_threads d' =
       update_where (\<lambda>x. th_id x = th_id t) (\<lambda>_. bumped_thread e t) (db_threads d) \<and>
     db_messages d' = db_messages d @ reserved_messages e body r t d \<and>
     db_checkpoints d' = db_checkpoints d \<and> seq_checkpoint d' = seq_checkpoint d \<and>
     db_audits d' = db_audits d \<and> seq_thread d' = seq_thread d \<and> seq_message d' = seq_message d + 2 \<and>
     (\<exists>row. db_events d' = db_events d @ [row] \<and> e_run row = r_id r \<and> e_sequence row = 1 \<and>
        e_event_id row = ''evt_'' @ env_uuid4 e 1 \<and> e_type row = RUN_CREATED)"

lemma upto_two: "m = k + 1 \<Longrightarrow> [k..m] = [k, m :: int]"
  using upto_rec1 [of k "k + 1"] by simp

lemma reserved_appends:
  assumes inv: "run_inv d" and fresh: "fresh_env e d" and ins: "insertable e d t r"
    and t: "t \<in> set (db_threads d)"
  shows "appends (seq_message d) t (reserved_messages e body r t d)"
    and "messages_ok (db_messages d @ reserved_messages e body r t d)"
proof -
  show ap: "appends (seq_message d) t (reserved_messages e body r t d)"
    by (simp add: appends_def reserved_messages_def upto_two)
  have st: "struct_ok (db_users d) (db_threads d) (db_messages d) (db_runs d) (seq_thread d) (seq_message d)"
    using inv by (simp add: run_inv_def tables_inv_def)
  have cid: "m_client_id m \<noteq> Some (r_id r @ '':user'') \<and> m_client_id m \<noteq> Some (r_id r @ '':assistant'')"
    if "m \<in> set (db_messages d)" for m
    using fresh ins that by (simp add: fresh_env_def insertable_def)
  show "messages_ok (db_messages d @ reserved_messages e body r t d)"
    using cid by (intro messages_ok_append [OF st t ap])
      (auto simp: reserved_messages_def List.map_filter_simps)
qed

lemma insert_struct_ok:
  assumes inv: "run_inv d" and fresh: "fresh_env e d" and ins: "insertable e d t r"
    and t: "t \<in> set (db_threads d)" and aft: "after_insert e body r t d d'"
  shows "struct_ok (db_users d') (db_threads d') (db_messages d') (db_runs d') (seq_thread d')
    (seq_message d')"
proof -
  have st: "struct_ok (db_users d) (db_threads d) (db_messages d) (db_runs d) (seq_thread d) (seq_message d)"
    using inv by (simp add: run_inv_def tables_inv_def)
  let ?r = "inserted_run d t r"
  let ?ms = "reserved_messages e body r t d"
  have th: "db_threads d' = update_where (\<lambda>x. th_id x = th_id t) (\<lambda>_. bumped_thread e t) (db_threads d)"
    and ms: "db_messages d' = db_messages d @ ?ms" and rs: "db_runs d' = db_runs d @ [?r]"
    and us: "db_users d' = db_users d" and sq: "seq_thread d' = seq_thread d" "seq_message d' = seq_message d + 2"
    using aft by (simp_all add: after_insert_def)
  note ap = reserved_appends [OF inv fresh ins t, of body]
  have len: "length ?ms = 2" by (simp add: reserved_messages_def)
  have mv: "moved_by (int (length ?ms)) t (bumped_thread e t)"
    by (simp add: len moved_by_def bumped_thread_def)
  have base: "struct_ok (db_users d) (db_threads d') (db_messages d') (db_runs d) (seq_thread d) (seq_message d + 2)"
    and pairs: "(\<lambda>x. (th_id x, th_user x)) ` set (db_threads d') = (\<lambda>x. (th_id x, th_user x)) ` set (db_threads d)"
    using struct_ok_append [OF st t ap(1) mv ap(2)] by (simp_all add: th ms len)
  have runs: "runs_ok (db_runs d @ [?r])"
    using ins by (intro runs_ok_insert [OF inv fresh])
      (auto simp: insertable_def inserted_run_def)
  have "run_links (db_users d) (db_threads d) (db_messages d') ?r"
    using ins t by (auto simp: run_links_def ms reserved_messages_def insertable_def inserted_run_def)
  then have "run_links (db_users d) (db_threads d') (db_messages d') ?r"
    by (rule run_links_mono) (simp_all add: pairs)
  then show ?thesis
    using base runs unfolding struct_ok_def us sq rs runs_ok_def by simp
qed

lemma after_insert_inv:
  assumes inv: "run_inv d" and fresh: "fresh_env e d" and ins: "insertable e d t r"
    and t: "t \<in> set (db_threads d)" and aft: "after_insert e body r t d d'"
  shows "run_inv d'" and "evolves d d'"
proof -
  let ?r = "inserted_run d t r"
  obtain row where row: "db_events d' = db_events d @ [row]" "e_run row = r_id r" "e_sequence row = 1"
      "e_event_id row = ''evt_'' @ env_uuid4 e 1" "e_type row = RUN_CREATED"
    using aft by (auto simp: after_insert_def)
  have rs: "db_runs d' = db_runs d @ [?r]" using aft by (simp add: after_insert_def)
  have rid: "r_id r = ''run_'' @ env_uuid4 e 0" using ins by (simp add: insertable_def)
  have noev: "e_run ev \<noteq> r_id r" if "ev \<in> set (db_events d)" for ev
    using fresh that rid by (simp add: fresh_env_def)
  have norun: "r_id x \<noteq> r_id r" if "x \<in> set (db_runs d)" for x
    using fresh that rid by (simp add: fresh_env_def)
  have ri: "r_id ?r = r_id r" by (simp add: inserted_run_def)
  have log: "run_log d' (r_id r) = [row]"
    using noev row(2) by (simp add: run_log_def row(1) filter_False)
  have others: "run_log d' (r_id x) = run_log d (r_id x)" if "x \<in> set (db_runs d)" for x
    using norun [OF that] row(2) by (simp add: run_log_def row(1))
  have oldok: "run_ok d x" if "x \<in> set (db_runs d)" for x
    using inv that by (simp add: run_inv_def tables_inv_def)
  have "run_ok d' x" if "x \<in> set (db_runs d)" for x
    using oldok [OF that] others [OF that] by (simp add: run_ok_def log_of_def)
  moreover have "r_status ?r = PENDING \<or> r_status ?r = QUEUED" "r_owner ?r = None" "r_lease ?r = None"
      "r_skill ?r = (None, None, None, None)" "r_last_event_sequence ?r = 1"
    using ins by (simp_all add: insertable_def inserted_run_def)
  then have "run_ok d' ?r"
    using row(3,5) by (auto simp: run_ok_def log_of_def ri log ends_with_def lease_ok_def skill_complete_def)
  ultimately have ok: "\<forall>x \<in> set (db_runs d'). run_ok d' x" by (simp add: rs)
  have "events_ok (db_events d')"
  proof -
    have "events_ok (db_events d)" using inv by (simp add: run_inv_def tables_inv_def)
    moreover have "e_event_id row \<notin> e_event_id ` set (db_events d)"
      using fresh row(4) unfolding fresh_env_def image_iff by metis
    moreover have "(e_run row, e_sequence row) \<notin> (\<lambda>e. (e_run e, e_sequence e)) ` set (db_events d)"
      using noev row(2) unfolding image_iff by (metis Pair_inject)
    ultimately show ?thesis by (simp add: events_ok_def row(1))
  qed
  moreover have "\<exists>x \<in> set (db_runs d'). r_id x = e_run ev" if "ev \<in> set (db_events d')" for ev
  proof (cases "ev = row")
    case False
    then have "ev \<in> set (db_events d)" using that by (simp add: row(1))
    then have "\<exists>x \<in> set (db_runs d). r_id x = e_run ev"
      using inv by (simp add: run_inv_def tables_inv_def)
    then show ?thesis by (simp add: rs)
  qed (simp add: rs ri row(2))
  moreover have "checkpoints_ok (db_checkpoints d')" "audits_ok (db_audits d')"
      "distinct (map c_id (db_checkpoints d'))" "\<forall>c \<in> set (db_checkpoints d'). c_id c < seq_checkpoint d'"
    using aft inv by (simp_all add: after_insert_def run_inv_def tables_inv_def)
  ultimately have "tables_inv d'"
    using ok insert_struct_ok [OF inv fresh ins t aft] by (simp add: tables_inv_def)
  moreover have "runs_ok (db_runs d')"
    unfolding rs using ins
    by (intro runs_ok_insert [OF inv fresh]) (auto simp: insertable_def inserted_run_def)
  ultimately show "run_inv d'" by (simp add: run_inv_def runs_ok_def)
  have "run_evolves d d' x x" if "x \<in> set (db_runs d)" for x
    using others [OF that] by (simp add: run_evolves_def)
  moreover have "parents_kept d d'"
    using aft update_thread_keys [OF inv t, of "bumped_thread e t"]
    by (simp add: parents_kept_def after_insert_def bumped_thread_def thread_key_def)
  ultimately show "evolves d d'" unfolding evolves_def rs by fastforce
qed

lemma insert_run_ok:
  assumes inv: "run_inv d" and fresh: "fresh_env e d" and ins: "insertable e d t r"
    and t: "t \<in> set (db_threads d)" and zero: "r_last_event_sequence r = 0"
      "r_assistant_message r = None"
  obtains res d' where "insert_run e body tid r t d = Inr (res, d')" "after_insert e body r t d d'"
    "rs_created res" "rs_run res = record_of (inserted_run d t r) tid"
    "rs_thread_version res = th_version t + 2"
proof -
  define d1 where "d1 = d\<lparr>db_runs := db_runs d @ [r]\<rparr>"
  define d2 where "d2 = d1\<lparr>db_messages := db_messages d1 @ reserved_messages e body r t d1,
      seq_message := seq_message d1 + 2\<rparr>"
  define s where "s = append_event_in_session e 1 tid RUN_CREATED
      [(''status'', JStr (status_value (r_status r))), (''user_message_id'', JInt (seq_message d)),
       (''assistant_message_id'', JInt (seq_message d + 1)),
       (''multitask_strategy'', JStr (strategy_value (r_multitask_strategy r)))]
      (r\<lparr>r_user_message := Some (seq_message d), r_assistant_message := Some (seq_message d + 1),
         r_fencing_token := th_version t + 2\<rparr>) (put_thread (bumped_thread e t) d2)"
  have ok: "integrity d" by (rule run_inv_integrity [OF inv])
  have ms: "reserved_messages e body r t d1 = reserved_messages e body r t d"
    by (simp add: reserved_messages_def d1_def)
  have i1: "integrity d1"
    using ok runs_ok_insert [OF inv fresh ins] zero(2) by (simp add: integrity_def d1_def)
  have i2: "integrity d2"
    using i1 reserved_appends(2) [OF inv fresh ins t, of body]
    by (simp add: integrity_def d2_def ms) (simp add: d1_def)
  have norun: "r_id x \<noteq> r_id r" if "x \<in> set (db_runs d)" for x
    using fresh that ins by (simp add: fresh_env_def insertable_def)
  then have upd: "update_where (\<lambda>x. r_id x = r_id r) f (db_runs d) = db_runs d" for f
    by (rule update_where_none)
  have r2: "fst (snd s) = inserted_run d t r"
    using zero by (simp add: s_def append_event_in_session_def Let_def inserted_run_def)
  let ?d' = "put_run (inserted_run d t r) (snd (snd s))"
  have aft: "after_insert e body r t d ?d'"
    by (simp add: after_insert_def s_def append_event_in_session_def Let_def new_run_event_def
        put_run_def put_thread_def d2_def d1_def zero reserved_messages_def)
      (simp add: inserted_run_def bumped_thread_def upd)
  have inv': "run_inv ?d'" by (rule after_insert_inv [OF inv fresh ins t aft])
  have "insert_run e body tid r t d =
      (case s of ((event, oid), r2, d3) \<Rightarrow>
         commit \<lparr> rs_run = record_of r2 tid, rs_created = True,
                  rs_thread_version = th_version t + 2, rs_created_event = Some event \<rparr> (put_run r2 d3))"
    using i1 i2
    by (simp add: insert_run_def Let_def s_def flip: d1_def d2_def)
      (simp add: d1_def bumped_thread_def case_prod_beta)
  then have "insert_run e body tid r t d =
      Inr (\<lparr> rs_run = record_of (inserted_run d t r) tid, rs_created = True,
             rs_thread_version = th_version t + 2, rs_created_event = Some (fst (fst s)) \<rparr>, ?d')"
    using r2 commit_inv [OF inv'] by (simp add: case_prod_beta)
  then show thesis
    using aft by (rule that) simp_all
qed

section \<open>The reservation transaction\<close>

text \<open>The catalog hash a reservation pins is a SHA-256 hex digest.\<close>

definition snapshot_ok :: "reserve_args \<Rightarrow> bool" where
  "snapshot_ok a \<longleftrightarrow> (\<forall>s. ra_model_snapshot a = Some s \<longrightarrow> length (fst s) = 64)"

lemma find_user_SomeD: "find_user d name = Some u \<Longrightarrow> u \<in> set (db_users d) \<and> u_username u = name"
  by (auto simp: find_user_def dest: find_SomeD)

lemma new_run_insertable:
  assumes "thread_ready e d u tid t d1" and "u \<in> set (db_users d)" and "snapshot_ok a"
    and "existing_run d1 (u_id u) (th_id t) key = None"
  shows "insertable e d1 t (new_run e a key hash tenant channel tools u t (active_run d1 (th_id t)))"
proof -
  have "length (fst (case ra_model_snapshot a of None \<Rightarrow> empty_model_snapshot | Some s \<Rightarrow> s)) = 64"
    using assms(3)
    by (auto simp: snapshot_ok_def empty_model_snapshot_def empty_model_catalog_hash_def split: option.splits)
  then show ?thesis
    using assms(1,2,4) by (auto simp: insertable_def new_run_def thread_ready_def Let_def)
qed

lemma reserve_tx_safe:
  assumes inv: "run_inv d" and fresh: "fresh_env e d" and snap: "snapshot_ok a"
  shows "safe_tx d (reserve_tx e a key hash tenant channel tools d)"
proof (cases "find_user d (ra_username a)")
  case None
  then show ?thesis by (simp add: reserve_tx_def)
next
  case u: (Some u)
  show ?thesis
  proof (cases "get_or_create_thread e u (ra_thread_id a) (ra_title a) (ra_allow_implicit_thread a) d")
    case (Inl ex)
    then show ?thesis
      using u get_or_create_thread_error [OF Inl] by (simp add: reserve_tx_def)
  next
    case (Inr p)
    obtain t d1 where p: "p = (t, d1)" by fastforce
    have ready: "thread_ready e d u (ra_thread_id a) t d1"
      using get_or_create_thread_ready [OF inv fresh] Inr p by blast
    then have inv1: "run_inv d1" "evolves d d1" "fresh_env e d1" "t \<in> set (db_threads d1)"
      by (simp_all add: thread_ready_def)
    define r where "r = new_run e a key hash tenant channel tools u t (active_run d1 (th_id t))"
    have "safe_tx d (insert_run e (ra_message a) (ra_thread_id a) r t d1)"
      if "existing_run d1 (u_id u) (th_id t) key = None"
    proof -
      have ins: "insertable e d1 t r"
        unfolding r_def using find_user_SomeD [OF u] that by (intro new_run_insertable [OF ready _ snap]) auto
      have zero: "r_last_event_sequence r = 0" "r_assistant_message r = None"
        by (simp_all add: r_def new_run_def Let_def)
      obtain res d' where d': "insert_run e (ra_message a) (ra_thread_id a) r t d1 = Inr (res, d')"
          "after_insert e (ra_message a) r t d1 d'"
        using insert_run_ok [OF inv1(1,3) ins inv1(4) zero] by blast
      have "run_inv d'" "evolves d1 d'"
        by (rule after_insert_inv [OF inv1(1,3) ins inv1(4) d'(2)])+
      then show ?thesis
        using d'(1) evolves_trans [OF inv1(2)] by simp
    qed
    then show ?thesis
      using inv1
      by (auto simp: reserve_tx_def Let_def u Inr p commit_inv r_def split: option.splits)
  qed
qed

lemma safe_case_sum:
  "(\<And>ex. v = Inl ex \<Longrightarrow> ex \<noteq> IntegrityError) \<Longrightarrow> (\<And>x. v = Inr x \<Longrightarrow> safe_tx d (g x)) \<Longrightarrow>
   safe_tx d (case v of Inl ex \<Rightarrow> Inl ex | Inr x \<Rightarrow> g x)"
  by (cases v) simp_all

lemma no_integrity_error:
  "safe_tx d res \<Longrightarrow> (case res of Inl IntegrityError \<Rightarrow> h | res' \<Rightarrow> res') = res"
  by (auto simp: safe_tx_def split: sum.splits exn.splits)

lemma validation_errors:
  "validate_thread_id x = Inl ex \<Longrightarrow> ex \<noteq> IntegrityError"
  "validate_idempotency_key x = Inl ex \<Longrightarrow> ex \<noteq> IntegrityError"
  "security_identifier n x = Inl ex \<Longrightarrow> ex \<noteq> IntegrityError"
  "approved_tools xs = Inl ex \<Longrightarrow> ex \<noteq> IntegrityError"
  by (auto simp: validate_thread_id_def validate_idempotency_key_def security_identifier_def
      approved_tools_def Let_def split: if_splits)

lemma reserve_safe:
  assumes "run_inv d" and "fresh_env e d" and "snapshot_ok a"
  shows "safe_tx d (reserve e a d)"
  unfolding reserve_def Let_def no_integrity_error [OF reserve_tx_safe [OF assms]]
  by (intro safe_case_sum reserve_tx_safe [OF assms]) (erule validation_errors)+

end
