(* ===== verification/Checkpoints.thy ===== *)
theory Checkpoints
  imports Run_Reserve
begin

text \<open>
  Human-in-the-loop suspension, \<^verbatim>\<open>src/backend/rag/checkpoint_runner.py\<close>: a worker pauses its
  Run at a checkpoint and hands out a token; an answer consumes the token once, puts the
  Run back to work and is replayed idempotently. The JSON state is stored as is
  (\<open>_jsonable\<close> is the identity on JSON values).
\<close>

section \<open>Compaction of the stored state\<close>

definition RAG_TRACE_BULK_FIELDS :: "string list" where
  "RAG_TRACE_BULK_FIELDS =
     [''retrieved_chunks'', ''initial_retrieved_chunks'', ''rewrite_retrieved_chunks'',
      ''hitl_targeted_retrieved_chunks'', ''sub_traces'']"

definition compact_hitl_state :: "(string \<times> json) list \<Rightarrow> (string \<times> json) list" where
  "compact_hitl_state state =
     (let compact = filter (\<lambda>kv. fst kv \<notin> set [''docs'', ''context'', ''sub_results'']) state
      in case map_of state ''rag_trace'' of
           Some (JObj trace) \<Rightarrow>
             AList.update ''rag_trace''
               (JObj (filter (\<lambda>kv. fst kv \<notin> set RAG_TRACE_BULK_FIELDS) trace)) compact
         | _ \<Rightarrow> compact)"

text \<open>\<open>d.get(key) or dflt\<close>.\<close>

definition get_or :: "(string \<times> json) list \<Rightarrow> string \<Rightarrow> json \<Rightarrow> json" where
  "get_or state key dflt =
     (case map_of state key of None \<Rightarrow> dflt | Some v \<Rightarrow> if truthy v then v else dflt)"

definition compact_resume_result :: "(string \<times> json) list \<Rightarrow> (string \<times> json) list" where
  "compact_resume_result state =
     AList.update ''docs'' (get_or state ''docs'' (JList [])) (compact_hitl_state state)"

definition setdefault :: "string \<Rightarrow> json \<Rightarrow> (string \<times> json) list \<Rightarrow> (string \<times> json) list" where
  "setdefault key v kvs = (if map_of kvs key = None then kvs @ [(key, v)] else kvs)"

text \<open>
  \<open>_restore_resume_result\<close>. \<open>list(docs)\<close> is asked of a JSON list and \<open>dict(trace)\<close> of a
  JSON object, as \<open>compact_resume_result\<close> stores them; other values are a \<open>TypeError\<close> here.
\<close>

definition restore_resume_result :: "(string \<times> json) list \<Rightarrow> exn + (string \<times> json) list" where
  "restore_resume_result state =
     (case get_or state ''docs'' (JList []) of
        JList docs \<Rightarrow>
          if docs = [] then Inr state
          else (case get_or state ''rag_trace'' (JObj []) of
              JObj trace \<Rightarrow>
                (let trace1 = setdefault ''retrieved_chunks'' (JList docs) trace;
                     trace2 = (case map_of trace1 ''hitl_resumed'' of
                         None \<Rightarrow> trace1
                       | Some v \<Rightarrow>
                           if truthy v
                           then setdefault ''hitl_targeted_retrieved_chunks'' (JList docs) trace1
                           else trace1)
                 in Inr (AList.update ''rag_trace'' (JObj trace2) state))
            | _ \<Rightarrow> Inl TypeError)
      | _ \<Rightarrow> Inl TypeError)"

text \<open>
  \<open>_assert_checkpoint_tenant\<close>; \<open>context_tenant\<close> is what \<open>require_tenant_id\<close> returns, \<open>None\<close>
  when it raises.
\<close>

definition assert_checkpoint_tenant ::
    "(string \<times> json) list \<Rightarrow> string option \<Rightarrow> exn + string" where
  "assert_checkpoint_tenant state context_tenant =
     (case map_of state ''tenant_id'' of
        Some (JStr s) \<Rightarrow>
          if py_strip s = '''' \<or> context_tenant \<noteq> Some (py_strip s)
          then Inl (app_error RUN_STATE_CONFLICT 409)
          else Inr (py_strip s)
      | _ \<Rightarrow> Inl (app_error RUN_STATE_CONFLICT 409))"

section \<open>Pause\<close>

text \<open>The interrupt \<open>_outcome\<close> raises, and the event payload made from it.\<close>

record interrupt_value =
  iv_prompt :: string
  iv_options :: "string list"
  iv_route :: "string option"
  iv_retrieval_status :: "string option"
  iv_original_question :: "string option"

definition interrupt_json :: "interrupt_value \<Rightarrow> (string \<times> json) list" where
  "interrupt_json v =
     [(''prompt'', JStr (iv_prompt v)), (''options'', JList (map JStr (iv_options v))),
      (''route'', jopt JStr (iv_route v)),
      (''retrieval_status'', jopt JStr (iv_retrieval_status v)),
      (''original_question'', jopt JStr (iv_original_question v))]"

record checkpoint_pause =
  cp_run_id :: string
  cp_checkpoint_id :: string
  cp_interrupt_id :: string
  cp_hitl_token :: string
  cp_prompt :: string
  cp_options :: "string list"
  cp_route :: "string option"
  cp_retrieval_status :: "string option"

definition pause_of :: "string \<Rightarrow> string \<Rightarrow> string \<Rightarrow> string \<Rightarrow> interrupt_value \<Rightarrow> checkpoint_pause" where
  "pause_of rid cid iid token v =
     \<lparr> cp_run_id = rid, cp_checkpoint_id = cid, cp_interrupt_id = iid, cp_hitl_token = token,
       cp_prompt = iv_prompt v, cp_options = iv_options v, cp_route = iv_route v,
       cp_retrieval_status = iv_retrieval_status v \<rparr>"

record pause_args =
  pa_run_id :: string
  pa_worker :: string
  pa_fence :: int
  pa_checkpoint_id :: string
  pa_interrupt_id :: string
  pa_interrupt :: interrupt_value
  pa_state :: json
  pa_next_nodes :: "string list"

definition pause_row :: "env \<Rightarrow> pause_args \<Rightarrow> run \<Rightarrow> thread \<Rightarrow> int \<Rightarrow> checkpoint" where
  "pause_row e a r t i =
     \<lparr> c_id = i, c_run = r_id r, c_thread = th_id t, c_user = r_user r,
       c_checkpoint_id = pa_checkpoint_id a, c_hitl_token = Some (''hitl_'' @ env_uuid4 e 0),
       c_interrupt_id = Some (pa_interrupt_id a), c_resume_key = None, c_resume_payload = None,
       c_state = pa_state a, c_next_nodes = pa_next_nodes a, c_consumed_at = None,
       c_created_at = env_now e, c_updated_at = env_now e \<rparr>"

text \<open>The suspension itself, once every guard has passed.\<close>

definition pause_apply :: "env \<Rightarrow> pause_args \<Rightarrow> thread \<Rightarrow> run \<Rightarrow> db \<Rightarrow> checkpoint_pause tx" where
  "pause_apply e a t r d =
     (let token = ''hitl_'' @ env_uuid4 e 0;
          r1 = r\<lparr>r_status := WAITING_INPUT, r_owner := None, r_lease := None,
                 r_updated_at := env_now e\<rparr>;
          d1 = set_message (r_assistant_message r1)
                 (\<lambda>m. m\<lparr>m_status := ''waiting_input'', m_updated_at := env_now e\<rparr>) d;
          s1 = emit e 1 (th_thread_id t) RUN_WAITING_INPUT
                 [(''status'', JStr (status_value (r_status r1)))] (r1, d1);
          (r2, d2) = emit e 2 (th_thread_id t) HITL_REQUIRED
                 ([(''hitl_token'', JStr token), (''checkpoint_id'', JStr (pa_checkpoint_id a))] @
                  interrupt_json (pa_interrupt a)) s1
      in commit (pause_of (pa_run_id a) (pa_checkpoint_id a) (pa_interrupt_id a) token (pa_interrupt a))
           ((put_run r2 d2)\<lparr>db_checkpoints := db_checkpoints d @ [pause_row e a r t (seq_checkpoint d)],
              seq_checkpoint := seq_checkpoint d + 1\<rparr>))"

definition record_pause :: "env \<Rightarrow> pause_args \<Rightarrow> db \<Rightarrow> checkpoint_pause tx" where
  "record_pause e a d =
     (case find_run d (pa_run_id a) of
        None \<Rightarrow> Inl (app_error RUN_NOT_FOUND 404)
      | Some r \<Rightarrow>
          (case find (\<lambda>c. c_run c = pa_run_id a \<and> c_checkpoint_id c = pa_checkpoint_id a)
                  (db_checkpoints d) of
             Some c \<Rightarrow>
               if c_consumed_at c \<noteq> None then Inl (app_error RUN_STATE_CONFLICT 409)
               else if r_fencing_token r \<noteq> pa_fence a then Inl (app_error RUN_STATE_CONFLICT 409)
               else if c_interrupt_id c \<noteq> Some (pa_interrupt_id a)
               then Inl (app_error RUN_STATE_CONFLICT 409)
               else Inr (pause_of (pa_run_id a) (pa_checkpoint_id a)
                       (or_else (c_interrupt_id c) (pa_interrupt_id a)) (or_else (c_hitl_token c) '''')
                       (pa_interrupt a), d)
           | None \<Rightarrow>
               if r_owner r \<noteq> Some (pa_worker a) \<or> r_fencing_token r \<noteq> pa_fence a
               then Inl (app_error RUN_STATE_CONFLICT 409)
               else if r_status r \<noteq> RUNNING then Inl (app_error RUN_STATE_CONFLICT 409)
               else (case find_thread d (r_thread r) of
                   None \<Rightarrow> Inl RuntimeError
                 | Some t \<Rightarrow> pause_apply e a t r d)))"

section \<open>Resume\<close>

record resume_access_state =
  ras_user_db_id :: int
  ras_username :: string
  ras_role :: string
  ras_skill :: skill_columns

record resume_args =
  rm_username :: string
  rm_run_id :: string
  rm_token :: string
  rm_answer :: string
  rm_key :: string
  rm_worker :: "string option"

record consumed_resume =
  cr_checkpoint_id :: string
  cr_thread_id :: string
  cr_answer :: string
  cr_state :: json
  cr_next_nodes :: "string list"
  cr_fencing_token :: int
  cr_already_consumed :: bool
  cr_should_resume :: bool

definition consumed_of ::
    "checkpoint \<Rightarrow> thread \<Rightarrow> string \<Rightarrow> int \<Rightarrow> bool \<Rightarrow> bool \<Rightarrow> consumed_resume" where
  "consumed_of c t answer fence already should =
     \<lparr> cr_checkpoint_id = c_checkpoint_id c, cr_thread_id = th_thread_id t, cr_answer = answer,
       cr_state = c_state c, cr_next_nodes = c_next_nodes c, cr_fencing_token = fence,
       cr_already_consumed = already, cr_should_resume = should \<rparr>"

definition resume_payload :: "string \<Rightarrow> json" where
  "resume_payload answer = JObj [(''answer'', JStr answer)]"

text \<open>The row a worker takes over: running, leased to it, under the next fencing token.\<close>

definition taken_run :: "env \<Rightarrow> string \<Rightarrow> run \<Rightarrow> run" where
  "taken_run e worker r =
     r\<lparr>r_status := RUNNING, r_owner := Some worker, r_fencing_token := r_fencing_token r + 1,
       r_lease := Some (env_now e + seconds (env_lease_seconds e)), r_updated_at := env_now e\<rparr>"

definition started_data :: "checkpoint \<Rightarrow> string \<Rightarrow> run \<Rightarrow> (string \<times> json) list" where
  "started_data c worker r =
     [(''status'', JStr (status_value (r_status r))), (''worker_id'', JStr worker),
      (''fencing_token'', JInt (r_fencing_token r)),
      (''resume_checkpoint_id'', JStr (c_checkpoint_id c))]"

definition is_latest :: "db \<Rightarrow> checkpoint \<Rightarrow> bool" where
  "is_latest d c = list_all (\<lambda>x. c_run x = c_run c \<longrightarrow> c_id x \<le> c_id c) (db_checkpoints d)"

text \<open>A token that was consumed before: the same request is replayed, another one conflicts.\<close>

definition replay_resume ::
    "env \<Rightarrow> resume_args \<Rightarrow> string \<Rightarrow> checkpoint \<Rightarrow> run \<Rightarrow> thread \<Rightarrow> db \<Rightarrow> consumed_resume tx" where
  "replay_resume e a answer c r t d =
     (if \<not> (c_resume_key c = Some (rm_key a) \<and> c_resume_payload c = Some (resume_payload answer))
      then Inl (app_error IDEMPOTENCY_CONFLICT 409)
      else if nonempty (rm_worker a) \<and> is_latest d c \<and> r_status r = PENDING
      then (let worker = or_else (rm_worker a) '''';
                r1 = taken_run e worker r;
                (r2, d2) = emit e 0 (th_thread_id t) RUN_STARTED (started_data c worker r1) (r1, d)
            in commit (consumed_of c t answer (r_fencing_token r2) True True) (put_run r2 d2))
      else if nonempty (rm_worker a) \<and> is_latest d c \<and> r_status r = RUNNING
      then (if r_owner r \<noteq> rm_worker a then Inl (app_error RUN_ACTIVE 409)
            else commit (consumed_of c t answer (r_fencing_token r) True True) d)
      else commit (consumed_of c t answer (r_fencing_token r) True False) d)"

text \<open>The first use of a token.\<close>

definition first_resume ::
    "env \<Rightarrow> resume_args \<Rightarrow> string \<Rightarrow> checkpoint \<Rightarrow> run \<Rightarrow> thread \<Rightarrow> db \<Rightarrow> consumed_resume tx" where
  "first_resume e a answer c r t d =
     (if r_status r \<noteq> WAITING_INPUT then Inl (app_error RUN_STATE_CONFLICT 409)
      else
       (let worker = or_else (rm_worker a) '''';
            c1 = c\<lparr>c_consumed_at := Some (env_now e), c_resume_key := Some (rm_key a),
                   c_resume_payload := Some (resume_payload answer), c_updated_at := env_now e\<rparr>;
            r1 = (if nonempty (rm_worker a) then taken_run e worker r
                  else r\<lparr>r_status := PENDING, r_owner := None, r_lease := None,
                         r_updated_at := env_now e\<rparr>);
            d1 = set_message (r_assistant_message r1)
                   (\<lambda>m. m\<lparr>m_status := ''streaming'', m_updated_at := env_now e\<rparr>) d;
            s1 = emit e 0 (th_thread_id t) HITL_RESUMED
                   [(''checkpoint_id'', JStr (c_checkpoint_id c)), (''answer'', JStr answer),
                    (''status'', JStr (status_value (r_status r1)))] (r1, d1);
            (r2, d2) = (if nonempty (rm_worker a)
                        then emit e 1 (th_thread_id t) RUN_STARTED (started_data c worker r1) s1
                        else s1)
        in commit (consumed_of c1 t answer (r_fencing_token r2) False (nonempty (rm_worker a)))
             (put_checkpoint c1 (put_run r2 d2))))"

definition consume_resume_tx ::
    "(resume_access_state \<Rightarrow> exn option) \<Rightarrow> env \<Rightarrow> resume_args \<Rightarrow> string \<Rightarrow> db \<Rightarrow> consumed_resume tx" where
  "consume_resume_tx preflight e a answer d =
     (case find (\<lambda>c. c_run c = rm_run_id a \<and> c_hitl_token c = Some (rm_token a)) (db_checkpoints d) of
        None \<Rightarrow> Inl (app_error RUN_NOT_FOUND 404)
      | Some c \<Rightarrow>
      case find_run d (rm_run_id a) of None \<Rightarrow> Inl (app_error RUN_NOT_FOUND 404) | Some r \<Rightarrow>
      case (find_thread d (r_thread r), find_user_id d (r_user r)) of
        (Some t, Some u) \<Rightarrow>
          if u_username u \<noteq> rm_username a then Inl (app_error RUN_NOT_FOUND 404)
          else (case preflight \<lparr> ras_user_db_id = u_id u, ras_username = u_username u,
                               ras_role = u_role u, ras_skill = r_skill r \<rparr> of
              Some ex \<Rightarrow> Inl ex
            | None \<Rightarrow>
                if list_ex (\<lambda>x. c_run x = r_id r \<and> c_resume_key x = Some (rm_key a) \<and> c_id x \<noteq> c_id c)
                     (db_checkpoints d)
                then Inl (app_error IDEMPOTENCY_CONFLICT 409)
                else if c_consumed_at c \<noteq> None then replay_resume e a answer c r t d
                else first_resume e a answer c r t d)
      | _ \<Rightarrow> Inl (app_error RUN_NOT_FOUND 404))"

definition consume_resume ::
    "(resume_access_state \<Rightarrow> exn option) \<Rightarrow> env \<Rightarrow> resume_args \<Rightarrow> db \<Rightarrow> consumed_resume tx" where
  "consume_resume preflight e a d =
     (let answer = py_strip (rm_answer a)
      in if answer = '''' then Inl (app_error INVALID_REQUEST 400)
         else (case consume_resume_tx preflight e a answer d of
             Inl IntegrityError \<Rightarrow> Inl (app_error IDEMPOTENCY_CONFLICT 409)
           | res \<Rightarrow> res))"

section \<open>Result of a resumed Run\<close>

definition record_resume_result ::
    "env \<Rightarrow> string \<Rightarrow> string \<Rightarrow> string \<Rightarrow> int \<Rightarrow> (string \<times> json) list \<Rightarrow> db \<Rightarrow> unit tx" where
  "record_resume_result e rid cid worker fence state d =
     (case (find (\<lambda>c. c_run c = rid \<and> c_checkpoint_id c = cid) (db_checkpoints d), find_run d rid) of
        (Some c, Some r) \<Rightarrow>
          if r_fencing_token r \<noteq> fence then Inl (app_error RUN_STATE_CONFLICT 409)
          else if r_status r = RUNNING \<and> r_owner r \<noteq> Some worker
          then Inl (app_error RUN_STATE_CONFLICT 409)
          else commit () (put_checkpoint
                 (c\<lparr>c_state := JObj (compact_resume_result state), c_next_nodes := [],
                    c_updated_at := env_now e\<rparr>) d)
      | _ \<Rightarrow> Inl (app_error RUN_STATE_CONFLICT 409))"

section \<open>Recovery list\<close>

record pending_resume =
  pr_username :: string
  pr_run_id :: string
  pr_token :: string
  pr_answer :: string
  pr_key :: string

fun collect_resumes ::
    "(checkpoint \<times> run \<times> user) list \<Rightarrow> string list \<Rightarrow> pending_resume list" where
  "collect_resumes [] seen = []"
| "collect_resumes ((c, r, u) # rows) seen =
     (let answer = (case c_resume_payload c of
              Some p \<Rightarrow> (case jget p ''answer'' of Some (JStr s) \<Rightarrow> py_strip s | _ \<Rightarrow> '''')
            | None \<Rightarrow> '''')
      in if r_id r \<in> set seen \<or> answer = '''' \<or> \<not> nonempty (c_resume_key c)
         then collect_resumes rows seen
         else \<lparr> pr_username = u_username u, pr_run_id = r_id r,
                pr_token = or_else (c_hitl_token c) '''', pr_answer = answer,
                pr_key = or_else (c_resume_key c) '''' \<rparr>
              # collect_resumes rows (r_id r # seen))"

definition list_pending_resumes :: "db \<Rightarrow> int \<Rightarrow> pending_resume list" where
  "list_pending_resumes d limit =
     collect_resumes
       (take (nat (max 1 (min limit 5000)))
         (sort_key (\<lambda>(c, r, u). - (case c_consumed_at c of None \<Rightarrow> 0 | Some s \<Rightarrow> s))
           (List.map_filter
             (\<lambda>c. if c_consumed_at c \<noteq> None \<and> c_resume_key c \<noteq> None
                  then (case find_run d (c_run c) of
                      None \<Rightarrow> None
                    | Some r \<Rightarrow>
                        if r_status r = PENDING
                        then map_option (\<lambda>u. (c, r, u)) (find_user_id d (r_user r))
                        else None)
                  else None)
             (db_checkpoints d)))) []"

end
