(* ===== verification/Fixtures.thy ===== *)
theory Fixtures
  imports Run_Invariant
begin

text \<open>
  A small concrete database on which the properties of the run tables are exercised: one
  user, one thread, and a list of Runs with their reserved messages and creation events.
\<close>

definition fx_env :: env where
  "fx_env = \<lparr> env_now = 1000, env_uuid4 = (\<lambda>k. ''u'' @ replicate k CHR ''x''),
     env_lease_seconds = 30, env_deadline = 600, env_disconnect_policy = ''continue'',
     env_multitask_strategy = ENQUEUE, env_sha256 = (\<lambda>s. s) \<rparr>"

type_synonym fx_row = "char \<times> run_status \<times> string option \<times> timestamp option"

definition fx_run :: "nat \<Rightarrow> fx_row \<Rightarrow> run" where
  "fx_run i row =
     (case row of (c, st, worker, lease) \<Rightarrow>
      \<lparr> r_id = ''run_'' @ [c], r_thread = 1, r_user = 1, r_tenant = ''default'', r_channel = ''run'',
        r_approved_tools = [], r_status = st, r_idempotency_key = [c], r_request_hash = ''h'',
        r_model_name = ''m'', r_model_catalog_hash = replicate 64 CHR ''0'',
        r_model_snapshot = JNull, r_on_disconnect = ''continue'', r_multitask_strategy = ENQUEUE,
        r_fencing_token = 2 * int i + 2, r_user_message = Some (2 * int i + 1),
        r_assistant_message = Some (2 * int i + 2), r_supersedes = None,
        r_last_event_sequence = 1, r_owner = worker, r_lease = lease, r_deadline = None,
        r_started_at = None, r_finished_at = None, r_error_code = None, r_error_detail = None,
        r_skill = (None, None, None, None), r_input_tokens = 0, r_output_tokens = 0, r_cost = 0,
        r_created_at = int i, r_updated_at = int i \<rparr>)"

definition fx_message :: "int \<Rightarrow> char \<Rightarrow> string \<Rightarrow> string \<Rightarrow> message" where
  "fx_message i c ty suffix =
     \<lparr> m_id = i, m_thread = 1, m_run = Some (''run_'' @ [c]), m_client_id = Some (''run_'' @ [c] @ suffix),
       m_sequence = i, m_type = ty, m_content = '''', m_content_json = None,
       m_status = ''completed'', m_timestamp = 0, m_updated_at = 0, m_rag_trace = None \<rparr>"

definition fx_event :: "nat \<Rightarrow> fx_row \<Rightarrow> run_event" where
  "fx_event i row =
     \<lparr> e_id = int i + 1, e_event_id = ''evt_'' @ [fst row], e_run = ''run_'' @ [fst row], e_sequence = 1,
       e_type = RUN_CREATED, e_payload = [], e_created_at = int i \<rparr>"

definition fx_db :: "fx_row list \<Rightarrow> checkpoint list \<Rightarrow> db" where
  "fx_db rows cps =
     \<lparr> db_users = [\<lparr> u_id = 1, u_username = ''alice'', u_role = ''user'' \<rparr>],
       db_threads = [\<lparr> th_id = 1, th_user = 1, th_thread_id = ''t1'', th_status = ''active'',
         th_version = 2 * int (length rows), th_message_count = 2 * int (length rows),
         th_last_sequence = 2 * int (length rows), th_metadata = [], th_updated_at = 0,
         th_created_at = 0 \<rparr>],
       db_runs = map (\<lambda>(i, row). fx_run i row) (enumerate 0 rows),
       db_messages = concat (map (\<lambda>(i, row).
         [fx_message (2 * int i + 1) (fst row) ''human'' '':user'',
          fx_message (2 * int i + 2) (fst row) ''ai'' '':assistant'']) (enumerate 0 rows)),
       db_events = map (\<lambda>(i, row). fx_event i row) (enumerate 0 rows),
       db_outbox = [], db_checkpoints = cps, db_audits = [], seq_thread = 2,
       seq_message = 2 * int (length rows) + 1, seq_event = int (length rows) + 1, seq_outbox = 1,
       seq_checkpoint = int (length cps) + 1, seq_audit = 1 \<rparr>"

text \<open>A Run executed by worker \<open>w1\<close> with two more waiting behind it.\<close>

definition fx_queue :: db where
  "fx_queue = fx_db [(CHR ''a'', RUNNING, Some ''w1'', Some 500), (CHR ''b'', QUEUED, None, None),
     (CHR ''c'', QUEUED, None, None)] []"

definition fx_pending :: db where
  "fx_pending = fx_db [(CHR ''a'', PENDING, None, None)] []"

definition fx_checkpoint :: checkpoint where
  "fx_checkpoint =
     \<lparr> c_id = 1, c_run = ''run_a'', c_thread = 1, c_user = 1, c_checkpoint_id = ''cp'',
       c_hitl_token = Some ''hitl_a'', c_interrupt_id = Some ''i'', c_resume_key = None,
       c_resume_payload = None, c_state = JNull, c_next_nodes = [''await_hitl''],
       c_consumed_at = None, c_created_at = 0, c_updated_at = 0 \<rparr>"

definition fx_waiting :: db where
  "fx_waiting = fx_db [(CHR ''a'', WAITING_INPUT, None, None)] [fx_checkpoint]"

lemma fx_queue_inv: "run_inv fx_queue"
  by code_simp

lemma fx_pending_inv: "run_inv fx_pending"
  by code_simp

lemma fx_waiting_inv: "run_inv fx_waiting"
  by code_simp

lemma fx_uuid: "inj (env_uuid4 fx_env)"
  by (auto simp: fx_env_def inj_def)

lemmas fx_defs = fx_env_def fx_db_def fx_run_def fx_message_def fx_event_def fx_checkpoint_def

lemma fx_queue_fresh: "fresh_env fx_env fx_queue"
  using fx_uuid by (simp add: fresh_env_def fx_queue_def fx_defs enumerate_eq_zip)

lemma fx_pending_fresh: "fresh_env fx_env fx_pending"
  using fx_uuid by (simp add: fresh_env_def fx_pending_def fx_defs)

lemma fx_waiting_fresh: "fresh_env fx_env fx_waiting"
  using fx_uuid by (simp add: fresh_env_def fx_waiting_def fx_defs)

end
