(* ===== verification/Checkpoint_Safety.thy ===== *)
theory Checkpoint_Safety
  imports Checkpoints Fixtures
begin

text \<open>
  The suspension transactions keep the invariant of the run tables, a token is consumed once
  and replayed idempotently, and what is restored is what was stored.
\<close>

section \<open>The checkpoint table\<close>

definition cps_ok :: "checkpoint list \<Rightarrow> int \<Rightarrow> bool" where
  "cps_ok cs n \<longleftrightarrow> checkpoints_ok cs \<and> distinct (map c_id cs) \<and> (\<forall>c \<in> set cs. c_id c < n)"

lemma run_inv_checkpoints:
  assumes "run_inv d" and "cps_ok cs n"
  shows "run_inv (d\<lparr>db_checkpoints := cs, seq_checkpoint := n\<rparr>)"
proof -
  let ?d = "d\<lparr>db_checkpoints := cs, seq_checkpoint := n\<rparr>"
  have "run_log ?d = run_log d" by (simp add: run_log_def fun_eq_iff)
  then show ?thesis
    using assms by (simp add: run_inv_def tables_inv_def cps_ok_def run_ok_def log_of_def)
qed

lemma evolves_checkpoints:
  assumes "evolves d d1"
  shows "evolves d (d1\<lparr>db_checkpoints := cs, seq_checkpoint := n\<rparr>)"
  using assms by (simp add: evolves_def parents_kept_def run_evolves_def run_log_def)

lemma cps_ok_inv: "run_inv d \<Longrightarrow> cps_ok (db_checkpoints d) (seq_checkpoint d)"
  by (simp add: run_inv_def tables_inv_def cps_ok_def)

lemma put_checkpoint_eq:
  "put_checkpoint c d = d\<lparr>db_checkpoints := db_checkpoints (put_checkpoint c d), seq_checkpoint := seq_checkpoint d\<rparr>"
  by (simp add: put_checkpoint_def)

lemma cps_ok_put:
  assumes ok: "cps_ok (db_checkpoints d) (seq_checkpoint d)" and c: "c \<in> set (db_checkpoints d)"
    and c1: "c_id c1 = c_id c" "c_run c1 = c_run c" "c_checkpoint_id c1 = c_checkpoint_id c"
      "c_hitl_token c1 = c_hitl_token c"
    and key: "\<And>x. x \<in> set (db_checkpoints d) \<Longrightarrow> c_run x = c_run c \<Longrightarrow> c_resume_key c1 \<noteq> None \<Longrightarrow>
      c_resume_key x = c_resume_key c1 \<Longrightarrow> c_id x = c_id c"
  shows "cps_ok (db_checkpoints (put_checkpoint c1 d)) (seq_checkpoint d)"
proof -
  let ?cs = "db_checkpoints d"
  let ?cs' = "db_checkpoints (put_checkpoint c1 d)"
  have ids: "distinct (map c_id ?cs)" using ok by (simp add: cps_ok_def)
  have uniq: "x = c" if "x \<in> set ?cs" "c_id x = c_id c" for x
    using distinct_key_unique [OF ids that(1) c that(2)] .
  have upd: "?cs' = map (\<lambda>x. if c_id x = c_id c then c1 else x) ?cs"
    by (simp add: put_checkpoint_def update_where_def c1)
  have col: "map k ?cs' = map k ?cs" if "k c1 = k c" for k :: "checkpoint \<Rightarrow> 'b"
    unfolding upd map_map comp_def using uniq that by (intro map_cong [OF refl]) auto
  have ids': "distinct (map c_id ?cs')" unfolding col [OF c1(1)] by (rule ids)
  then have dist: "distinct ?cs'" "distinct ?cs" using ids by (auto simp: distinct_map)
  have set': "set ?cs' = insert c1 (set ?cs - {c})"
    unfolding upd using uniq c by auto
  have "map (\<lambda>c. (c_run c, c_checkpoint_id c)) ?cs' = map (\<lambda>c. (c_run c, c_checkpoint_id c)) ?cs"
    by (rule col) (simp add: c1)
  moreover have "distinct (List.map_filter c_hitl_token ?cs')"
  proof -
    have old: "x = y" if "x \<in> set ?cs" "y \<in> set ?cs" "c_hitl_token x \<noteq> None"
      "c_hitl_token x = c_hitl_token y" for x y
      using ok that distinct_map_filter_iff [OF dist(2), of c_hitl_token]
      unfolding cps_ok_def checkpoints_ok_def by blast
    show ?thesis
      unfolding distinct_map_filter_iff [OF dist(1)] set'
      using old [OF _ c] old [OF c] old by (auto simp: c1)
  qed
  moreover have "distinct (List.map_filter (\<lambda>c. map_option (Pair (c_run c)) (c_resume_key c)) ?cs')"
  proof -
    have old: "x = y" if "x \<in> set ?cs" "y \<in> set ?cs" "c_resume_key x \<noteq> None"
      "c_run x = c_run y" "c_resume_key x = c_resume_key y" for x y
      using ok that
        distinct_map_filter_iff [OF dist(2), of "\<lambda>c. map_option (Pair (c_run c)) (c_resume_key c)"]
      unfolding cps_ok_def checkpoints_ok_def by force
    have new: "x = c" if "x \<in> set ?cs" "c_resume_key c1 \<noteq> None" "c_run x = c_run c"
      "c_resume_key x = c_resume_key c1" for x
      using key [OF that(1,3,2,4)] uniq [OF that(1)] by blast
    have eq: "map_option (Pair a) k = map_option (Pair b) l \<longleftrightarrow> k = l \<and> (k = None \<or> a = b)"
      for a b :: string and k l :: "string option"
      by (cases k; cases l) auto
    show ?thesis
      unfolding distinct_map_filter_iff [OF dist(1)] set' eq
      using new old c1(2) by auto
  qed
  moreover have "c_id x < seq_checkpoint d" if "x \<in> set ?cs'" for x
    using ok c that by (auto simp: set' cps_ok_def c1)
  ultimately show ?thesis
    using ok ids' by (simp add: cps_ok_def checkpoints_ok_def)
qed

section \<open>Pause\<close>

lemma set_message_status_frame:
  assumes "\<And>m. erase_message (f m) = erase_message m"
  shows "tx_frame e [] d r (set_message i f d)"
  by (rule tx_frame_step [OF tx_frame_refl same_tables_message [OF assms]]) simp

lemma pause_apply_inv:
  assumes inv: "run_inv d" and fresh: "fresh_env e d" and r: "r \<in> set (db_runs d)"
    and st: "r_status r = RUNNING" and rid: "r_id r = pa_run_id a"
    and new: "find (\<lambda>c. c_run c = pa_run_id a \<and> c_checkpoint_id c = pa_checkpoint_id a)
      (db_checkpoints d) = None"
  shows "safe_tx d (pause_apply e a t r d)"
proof -
  define r1 where "r1 = r\<lparr>r_status := WAITING_INPUT, r_owner := None, r_lease := None,
      r_updated_at := env_now e\<rparr>"
  define d1 where "d1 = set_message (r_assistant_message r1)
      (\<lambda>m. m\<lparr>m_status := ''waiting_input'', m_updated_at := env_now e\<rparr>) d"
  define s where "s = emit e 2 (th_thread_id t) HITL_REQUIRED
      ([(''hitl_token'', JStr (''hitl_'' @ env_uuid4 e 0)), (''checkpoint_id'', JStr (pa_checkpoint_id a))] @
       interrupt_json (pa_interrupt a))
      (emit e 1 (th_thread_id t) RUN_WAITING_INPUT [(''status'', JStr (status_value (r_status r1)))]
         (r1, d1))"
  let ?row = "pause_row e a r t (seq_checkpoint d)"
  let ?cs = "db_checkpoints d @ [?row]"
  have frame: "tx_frame e [] d r d1"
    unfolding d1_def by (rule set_message_status_frame) (simp add: erase_message_def)
  have em: "emitted e (([] @ [(1, RUN_WAITING_INPUT)]) @ [(2, HITL_REQUIRED)]) d r r1 s"
    unfolding s_def by (intro emitted_emit emitted_refl [OF frame]) (simp_all add: r1_def)
  have "run_inv (put_run (fst s) (snd s))" "evolves d (put_run (fst s) (snd s))"
    using st run_ok_facts [OF inv r]
    by (intro put_emitted [OF inv fresh r em]; simp add: r1_def erase_run_def lease_ok_def)+
  moreover have "cps_ok ?cs (seq_checkpoint d + 1)"
  proof -
    have ok: "cps_ok (db_checkpoints d) (seq_checkpoint d)" by (rule cps_ok_inv [OF inv])
    have row: "c_run ?row = pa_run_id a" "c_checkpoint_id ?row = pa_checkpoint_id a"
      "c_hitl_token ?row = Some (''hitl_'' @ env_uuid4 e 0)" "c_resume_key ?row = None"
      "c_id ?row = seq_checkpoint d"
      by (simp_all add: pause_row_def rid)
    have "(c_run ?row, c_checkpoint_id ?row) \<notin> (\<lambda>c. (c_run c, c_checkpoint_id c)) ` set (db_checkpoints d)"
      using find_NoneD [OF new] unfolding row image_iff by (metis Pair_inject)
    moreover have "''hitl_'' @ env_uuid4 e 0 \<notin> set (List.map_filter c_hitl_token (db_checkpoints d))"
      using fresh unfolding fresh_env_def List.map_filter_def by auto
    moreover have "c_id ?row \<notin> c_id ` set (db_checkpoints d)"
      using ok unfolding cps_ok_def row by fastforce
    moreover have "c_id x < seq_checkpoint d + 1" if "x \<in> set ?cs" for x
      using that ok by (auto simp: cps_ok_def row)
    ultimately show ?thesis
      using ok by (simp add: cps_ok_def checkpoints_ok_def row map_filter_snoc)
  qed
  ultimately have "run_inv ((put_run (fst s) (snd s))\<lparr>db_checkpoints := ?cs, seq_checkpoint := seq_checkpoint d + 1\<rparr>)"
    "evolves d ((put_run (fst s) (snd s))\<lparr>db_checkpoints := ?cs, seq_checkpoint := seq_checkpoint d + 1\<rparr>)"
    using run_inv_checkpoints evolves_checkpoints by blast+
  then show ?thesis
    by (simp add: pause_apply_def Let_def case_prod_beta commit_inv flip: r1_def d1_def)
      (simp add: s_def commit_inv)
qed

lemma record_pause_safe:
  assumes "run_inv d" and "fresh_env e d"
  shows "safe_tx d (record_pause e a d)"
  unfolding record_pause_def
proof (intro safe_intros safe_case_option)
  fix r t
  assume "find_run d (pa_run_id a) = Some r" and r: "r \<in> set (db_runs d)"
    and "find (\<lambda>c. c_run c = pa_run_id a \<and> c_checkpoint_id c = pa_checkpoint_id a) (db_checkpoints d) = None"
    and "\<not> r_status r \<noteq> RUNNING"
  then show "safe_tx d (pause_apply e a t r d)"
    using find_run_SomeD [of d "pa_run_id a" r] by (intro pause_apply_inv [OF assms r]) simp_all
qed (use assms in simp_all)

section \<open>Resume\<close>

lemma taken_run_facts:
  "erase_run (taken_run e w r) = erase_run r" "r_status (taken_run e w r) = RUNNING"
  "r_fencing_token (taken_run e w r) = r_fencing_token r + 1" "r_skill (taken_run e w r) = r_skill r"
  "r_last_event_sequence (taken_run e w r) = r_last_event_sequence r" "lease_ok (taken_run e w r)"
  "r_id (taken_run e w r) = r_id r"
  by (simp_all add: taken_run_def erase_run_def lease_ok_def)

lemma replay_resume_safe:
  assumes inv: "run_inv d" and fresh: "fresh_env e d" and r: "r \<in> set (db_runs d)"
  shows "safe_tx d (replay_resume e a answer c r t d)"
  unfolding replay_resume_def Let_def
proof (intro safe_if)
  assume st: "nonempty (rm_worker a) \<and> is_latest d c \<and> r_status r = PENDING"
  let ?w = "or_else (rm_worker a) ''''"
  show "safe_tx d (case emit e 0 (th_thread_id t) RUN_STARTED (started_data c ?w (taken_run e ?w r))
      (taken_run e ?w r, d) of (r2, d2) \<Rightarrow>
      commit (consumed_of c t answer (r_fencing_token r2) True True) (put_run r2 d2))"
    using st run_ok_facts [OF inv r]
    by (intro safe_emit [OF inv fresh r]) (simp_all add: taken_run_facts same_tables_def)
qed (use inv in simp_all)

lemma first_resume_safe:
  assumes inv: "run_inv d" and fresh: "fresh_env e d" and r: "r \<in> set (db_runs d)"
    and c: "c \<in> set (db_checkpoints d)" "c_run c = r_id r"
    and key: "\<not> list_ex (\<lambda>x. c_run x = r_id r \<and> c_resume_key x = Some (rm_key a) \<and> c_id x \<noteq> c_id c)
      (db_checkpoints d)"
  shows "safe_tx d (first_resume e a answer c r t d)"
proof (cases "r_status r = WAITING_INPUT")
  case st: True
  let ?w = "or_else (rm_worker a) ''''"
  define r1 where "r1 = (if nonempty (rm_worker a) then taken_run e ?w r
      else r\<lparr>r_status := PENDING, r_owner := None, r_lease := None, r_updated_at := env_now e\<rparr>)"
  define d1 where "d1 = set_message (r_assistant_message r1)
      (\<lambda>m. m\<lparr>m_status := ''streaming'', m_updated_at := env_now e\<rparr>) d"
  define s1 where "s1 = emit e 0 (th_thread_id t) HITL_RESUMED
      [(''checkpoint_id'', JStr (c_checkpoint_id c)), (''answer'', JStr answer),
       (''status'', JStr (status_value (r_status r1)))] (r1, d1)"
  define s where "s = (if nonempty (rm_worker a)
      then emit e 1 (th_thread_id t) RUN_STARTED (started_data c ?w r1) s1 else s1)"
  define c1 where "c1 = c\<lparr>c_consumed_at := Some (env_now e), c_resume_key := Some (rm_key a),
      c_resume_payload := Some (resume_payload answer), c_updated_at := env_now e\<rparr>"
  define evs where "evs = [(0, HITL_RESUMED)] @ (if nonempty (rm_worker a) then [(1 :: nat, RUN_STARTED)] else [])"
  have r1: "erase_run r1 = erase_run r" "lease_ok r1" "r_skill r1 = r_skill r" "r_id r1 = r_id r"
    "r_fencing_token r \<le> r_fencing_token r1" "r_last_event_sequence r1 = r_last_event_sequence r"
    "r_status r1 = RUNNING \<or> r_status r1 = PENDING"
    by (simp_all add: r1_def taken_run_facts) (simp_all add: erase_run_def lease_ok_def)
  have frame: "tx_frame e [] d r d1"
    unfolding d1_def by (rule set_message_status_frame) (simp add: erase_message_def)
  have em1: "emitted e ([] @ [(0, HITL_RESUMED)]) d r r1 s1"
    unfolding s1_def by (intro emitted_emit emitted_refl [OF frame] r1(4,6))
  then have em: "emitted e evs d r r1 s"
    using emitted_emit [OF em1 r1(4), of 1 RUN_STARTED] by (simp add: s_def evs_def)
  have evs: "distinct (map fst evs)" "list_all (\<lambda>t. \<not> terminal_event t) (map snd evs)"
    by (simp_all add: evs_def)
  have put: "run_inv (put_run (fst s) (snd s))" "evolves d (put_run (fst s) (snd s))"
    using st run_ok_facts(2) [OF inv r] r1(3,7)
    by (intro put_emitted [OF inv fresh r em evs r1(1,2) _ r1(5)]; auto)+
  have cps: "db_checkpoints (snd s) = db_checkpoints d" "seq_checkpoint (snd s) = seq_checkpoint d"
    using em by (auto simp: emitted_def tx_frame_def same_tables_def)
  have "cps_ok (db_checkpoints (put_checkpoint c1 (put_run (fst s) (snd s)))) (seq_checkpoint d)"
    using cps_ok_inv [OF put(1)] cps
  proof (intro cps_ok_put [where c = c and d = "put_run (fst s) (snd s)", unfolded put_run_frame cps(2)])
    show "c_id x = c_id c"
      if "x \<in> set (db_checkpoints (snd s))" "c_run x = c_run c"
        "c_resume_key x = c_resume_key c1" for x
      using key that by (auto simp: cps list_ex_iff c1_def c(2))
  qed (simp_all add: c c1_def)
  then have "run_inv (put_checkpoint c1 (put_run (fst s) (snd s)))"
    "evolves d (put_checkpoint c1 (put_run (fst s) (snd s)))"
    using run_inv_checkpoints [OF put(1)] evolves_checkpoints [OF put(2)]
    by (subst put_checkpoint_eq; simp add: cps)+
  moreover have "first_resume e a answer c r t d =
      commit (consumed_of c1 t answer (r_fencing_token (fst s)) False (nonempty (rm_worker a)))
        (put_checkpoint c1 (put_run (fst s) (snd s)))"
    using st by (simp add: first_resume_def Let_def case_prod_beta s_def s1_def d1_def c1_def r1_def)
  ultimately show ?thesis by (simp add: commit_inv)
qed (simp add: first_resume_def)

lemma find_cp_SomeD:
  "find P (db_checkpoints d) = Some c \<Longrightarrow> c \<in> set (db_checkpoints d) \<and> P c"
  by (rule find_SomeD)

lemma safe_case_pair:
  assumes "ex \<noteq> IntegrityError"
    and "\<And>x y. v = Some x \<Longrightarrow> w = Some y \<Longrightarrow> safe_tx d (g x y)"
  shows "safe_tx d (case (v, w) of (Some x, Some y) \<Rightarrow> g x y | _ \<Rightarrow> Inl ex)"
  using assms by (cases v; cases w) simp_all

lemma consume_resume_tx_safe:
  assumes inv: "run_inv d" and fresh: "fresh_env e d"
  shows "safe_tx d (consume_resume_tx preflight e a answer d) \<or>
    consume_resume_tx preflight e a answer d = Inl IntegrityError"
proof -
  have "safe_tx d (consume_resume_tx pf e a answer d)" if pf: "\<And>s. pf s \<noteq> Some IntegrityError" for pf
    unfolding consume_resume_tx_def
  proof (intro safe_case_option safe_case_pair safe_if)
    fix c r t u
    assume c: "find (\<lambda>c. c_run c = rm_run_id a \<and> c_hitl_token c = Some (rm_token a)) (db_checkpoints d) = Some c"
      and r: "find_run d (rm_run_id a) = Some r"
      and key: "\<not> list_ex (\<lambda>x. c_run x = r_id r \<and> c_resume_key x = Some (rm_key a) \<and> c_id x \<noteq> c_id c)
        (db_checkpoints d)"
    have cd: "c \<in> set (db_checkpoints d)" "c_run c = rm_run_id a"
      using find_cp_SomeD [OF c] by auto
    have rd: "r \<in> set (db_runs d)" "r_id r = rm_run_id a"
      using find_run_SomeD [OF r] by auto
    show "safe_tx d (replay_resume e a answer c r t d)"
      by (rule replay_resume_safe [OF inv fresh rd(1)])
    show "safe_tx d (first_resume e a answer c r t d)"
      using cd rd by (intro first_resume_safe [OF inv fresh rd(1) cd(1) _ key]) simp
  qed (use pf in auto)
  then have *: "safe_tx d (consume_resume_tx (\<lambda>s. if pf s = Some IntegrityError then Some ValueError else pf s)
      e a answer d)" for pf
    by simp
  show ?thesis
    using * [of preflight] by (auto simp: consume_resume_tx_def split: option.splits if_splits)
qed

lemma consume_resume_safe:
  assumes "run_inv d" and "fresh_env e d"
  shows "safe_tx d (consume_resume preflight e a d)"
  using consume_resume_tx_safe [OF assms, of preflight a "py_strip (rm_answer a)"]
  by (auto simp: consume_resume_def Let_def safe_tx_def split: sum.splits exn.splits)

lemma resume_key_unique:
  assumes inv: "run_inv d" and "x \<in> set (db_checkpoints d)" and "y \<in> set (db_checkpoints d)"
    and "c_resume_key x \<noteq> None" and "c_run x = c_run y" and "c_resume_key x = c_resume_key y"
  shows "x = y"
  using cps_ok_inv [OF inv] assms(2-) distinct_map_filter_iff [of "db_checkpoints d"
      "\<lambda>c. map_option (Pair (c_run c)) (c_resume_key c)"]
  by (force simp: cps_ok_def checkpoints_ok_def distinct_map)

lemma record_resume_result_safe:
  assumes inv: "run_inv d"
  shows "safe_tx d (record_resume_result e rid cid worker fence state d)"
  unfolding record_resume_result_def
proof (intro safe_case_pair safe_if)
  fix c r
  assume "find (\<lambda>c. c_run c = rid \<and> c_checkpoint_id c = cid) (db_checkpoints d) = Some c"
  then have c: "c \<in> set (db_checkpoints d)" using find_cp_SomeD by blast
  let ?c = "c\<lparr>c_state := JObj (compact_resume_result state), c_next_nodes := [], c_updated_at := env_now e\<rparr>"
  have "cps_ok (db_checkpoints (put_checkpoint ?c d)) (seq_checkpoint d)"
    using resume_key_unique [OF inv _ c] by (intro cps_ok_put [OF cps_ok_inv [OF inv] c]) auto
  then have "run_inv (put_checkpoint ?c d)"
    by (subst put_checkpoint_eq) (rule run_inv_checkpoints [OF inv])
  moreover have "evolves d (put_checkpoint ?c d)"
    by (subst put_checkpoint_eq) (rule evolves_checkpoints [OF evolves_refl])
  ultimately show "safe_tx d (commit () (put_checkpoint ?c d))" by (simp add: commit_inv)
qed simp_all

section \<open>A token is consumed once\<close>

text \<open>What a successful \<open>consume_resume\<close> leaves behind for its token.\<close>

definition consumed_with :: "db \<Rightarrow> string \<Rightarrow> string \<Rightarrow> string \<Rightarrow> string \<Rightarrow> bool" where
  "consumed_with d rid token key answer \<longleftrightarrow>
     (\<exists>c \<in> set (db_checkpoints d). c_run c = rid \<and> c_hitl_token c = Some token \<and>
        c_consumed_at c \<noteq> None \<and> c_resume_key c = Some key \<and>
        c_resume_payload c = Some (resume_payload answer))"

lemma tail_checkpoints [simp]: "db_checkpoints (snd (emit e k tid ty data s)) = db_checkpoints (snd s)"
  by (simp add: emit_def append_event_in_session_def Let_def)

lemma put_checkpoint_mem:
  "c_id c1 = c_id c \<Longrightarrow> c \<in> set (db_checkpoints d) \<Longrightarrow> c1 \<in> set (db_checkpoints (put_checkpoint c1 d))"
  by (auto simp: put_checkpoint_def set_update_where)

lemma first_resume_consumed:
  assumes "first_resume e a answer c r t d = Inr (x, d')" and "c \<in> set (db_checkpoints d)"
    and "c_run c = rid" and "c_hitl_token c = Some token"
  shows "consumed_with d' rid token (rm_key a) answer"
proof -
  let ?c1 = "c\<lparr>c_consumed_at := Some (env_now e), c_resume_key := Some (rm_key a),
      c_resume_payload := Some (resume_payload answer), c_updated_at := env_now e\<rparr>"
  obtain r2 d2 where d': "d' = put_checkpoint ?c1 (put_run r2 d2)" "db_checkpoints d2 = db_checkpoints d"
    using assms(1)
    by (auto simp: first_resume_def Let_def case_prod_beta commit_def split: if_splits)
  have "?c1 \<in> set (db_checkpoints d')"
    unfolding d'(1) by (rule put_checkpoint_mem [of _ c]) (simp_all add: d'(2) assms(2))
  then show ?thesis
    using assms(3,4) by (auto simp: consumed_with_def intro!: bexI [of _ ?c1])
qed

lemma replay_resume_consumed:
  assumes "replay_resume e a answer c r t d = Inr (x, d')" and "c \<in> set (db_checkpoints d)"
    and "c_run c = rid" and "c_hitl_token c = Some token" and "c_consumed_at c \<noteq> None"
  shows "consumed_with d' rid token (rm_key a) answer"
proof -
  have key: "c_resume_key c = Some (rm_key a)" "c_resume_payload c = Some (resume_payload answer)"
    and "db_checkpoints d' = db_checkpoints d"
    using assms(1) by (auto simp: replay_resume_def Let_def case_prod_beta commit_def split: if_splits)
  then show ?thesis
    using assms(2-5) by (auto simp: consumed_with_def intro!: bexI [of _ c])
qed

lemma consume_resume_consumed:
  assumes "consume_resume pf e a d = Inr (x, d')"
  shows "consumed_with d' (rm_run_id a) (rm_token a) (rm_key a) (py_strip (rm_answer a))"
proof -
  have tx: "consume_resume_tx pf e a (py_strip (rm_answer a)) d = Inr (x, d')"
    using assms by (auto simp: consume_resume_def Let_def split: if_splits sum.splits exn.splits)
  then obtain c where c: "find (\<lambda>c. c_run c = rm_run_id a \<and> c_hitl_token c = Some (rm_token a)) (db_checkpoints d) = Some c"
    by (auto simp: consume_resume_tx_def split: option.splits)
  have cd: "c \<in> set (db_checkpoints d)" "c_run c = rm_run_id a" "c_hitl_token c = Some (rm_token a)"
    using find_cp_SomeD [OF c] by auto
  obtain r t where "c_consumed_at c \<noteq> None \<and> replay_resume e a (py_strip (rm_answer a)) c r t d = Inr (x, d') \<or>
      first_resume e a (py_strip (rm_answer a)) c r t d = Inr (x, d')"
    using tx by (auto simp: consume_resume_tx_def c split: option.splits if_splits)
  then show ?thesis
    using first_resume_consumed [OF _ cd] replay_resume_consumed [OF _ cd] by blast
qed

lemma consumed_token_unique:
  assumes "run_inv d" and "consumed_with d rid token key answer"
    and "find (\<lambda>c. c_run c = rid \<and> c_hitl_token c = Some token) (db_checkpoints d) = Some c"
  shows "c_consumed_at c \<noteq> None" "c_resume_key c = Some key" "c_resume_payload c = Some (resume_payload answer)"
proof -
  obtain c0 where c0: "c0 \<in> set (db_checkpoints d)" "c_run c0 = rid" "c_hitl_token c0 = Some token"
      "c_consumed_at c0 \<noteq> None" "c_resume_key c0 = Some key" "c_resume_payload c0 = Some (resume_payload answer)"
    using assms(2) by (auto simp: consumed_with_def)
  have dist: "distinct (List.map_filter c_hitl_token (db_checkpoints d))" "distinct (db_checkpoints d)"
    using cps_ok_inv [OF assms(1)] by (auto simp: cps_ok_def checkpoints_ok_def distinct_map)
  have "c \<in> set (db_checkpoints d)" "c_hitl_token c = c_hitl_token c0"
    using find_cp_SomeD [OF assms(3)] c0(3) by auto
  then have "c = c0"
    using dist(1) c0(1,3) unfolding distinct_map_filter_iff [OF dist(2)] by (metis option.distinct(1))
  with c0 show "c_consumed_at c \<noteq> None" "c_resume_key c = Some key" "c_resume_payload c = Some (resume_payload answer)"
    by simp_all
qed

text \<open>
  C32. A HITL token is consumed once. After an answer to it has been accepted, any other
  request for the same token (a different idempotency key or a different answer) is refused,
  whoever sends it and whatever the preflight says.
\<close>

theorem hitl_token_single_use:
  assumes "run_inv d" and "fresh_env e d" and "consume_resume preflight e a d = Inr (x, d')"
    and "rm_run_id b = rm_run_id a" and "rm_token b = rm_token a"
    and "rm_key b \<noteq> rm_key a \<or> py_strip (rm_answer b) \<noteq> py_strip (rm_answer a)"
  shows "\<exists>ex. consume_resume preflight' e' b d' = Inl ex"
proof (cases "consume_resume preflight' e' b d'")
  case (Inr y)
  obtain x2 d2 where y: "y = (x2, d2)" by fastforce
  have inv: "run_inv d'"
    using consume_resume_safe [OF assms(1,2), of preflight a] assms(3) by simp
  have con: "consumed_with d' (rm_run_id b) (rm_token b) (rm_key a) (py_strip (rm_answer a))"
    using consume_resume_consumed [OF assms(3)] assms(4,5) by simp
  have tx: "consume_resume_tx preflight' e' b (py_strip (rm_answer b)) d' = Inr (x2, d2)"
    using Inr y by (auto simp: consume_resume_def Let_def split: if_splits sum.splits exn.splits)
  then obtain c where c: "find (\<lambda>c. c_run c = rm_run_id b \<and> c_hitl_token c = Some (rm_token b)) (db_checkpoints d') = Some c"
    by (auto simp: consume_resume_tx_def split: option.splits)
  note unique = consumed_token_unique [OF inv con c]
  obtain r t where "replay_resume e' b (py_strip (rm_answer b)) c r t d' = Inr (x2, d2)"
    using tx unique(1) by (auto simp: consume_resume_tx_def c split: option.splits if_splits)
  then have "rm_key b = rm_key a" "py_strip (rm_answer b) = py_strip (rm_answer a)"
    using unique(2,3) by (auto simp: replay_resume_def resume_payload_def split: if_splits)
  with assms(6) show ?thesis by simp
qed simp

definition fx_answer :: resume_args where
  "fx_answer = \<lparr> rm_username = ''alice'', rm_run_id = ''run_a'', rm_token = ''hitl_a'',
     rm_answer = ''yes'', rm_key = ''k1'', rm_worker = None \<rparr>"

lemma fx_answer_accepted: "\<not> isl (consume_resume (\<lambda>_. None) fx_env fx_answer fx_waiting)"
  by code_simp

theorem hitl_token_single_use_witness:
  "\<exists>x d'. consume_resume (\<lambda>_. None) fx_env fx_answer fx_waiting = Inr (x, d') \<and>
     (\<exists>ex. consume_resume (\<lambda>_. None) fx_env (fx_answer\<lparr>rm_key := ''k2''\<rparr>) d' = Inl ex)"
proof -
  obtain x d' where "consume_resume (\<lambda>_. None) fx_env fx_answer fx_waiting = Inr (x, d')"
    using fx_answer_accepted by (cases "consume_resume (\<lambda>_. None) fx_env fx_answer fx_waiting") auto
  then show ?thesis
    using hitl_token_single_use [OF fx_waiting_inv fx_waiting_fresh, of "\<lambda>_. None" fx_answer x d'
        "fx_answer\<lparr>rm_key := ''k2''\<rparr>" "\<lambda>_. None" fx_env] by (auto simp: fx_answer_def)
qed

section \<open>Replay\<close>

lemma emit_lookups [simp]:
  "db_users (snd (emit e k tid ty data s)) = db_users (snd s)"
  "db_threads (snd (emit e k tid ty data s)) = db_threads (snd s)"
  "db_runs (snd (emit e k tid ty data s)) = db_runs (snd s)"
  by (simp_all add: emit_def append_event_in_session_def Let_def)

lemma emit_run_pair: "fst (emit e k tid ty data s) = (fst s)\<lparr>r_last_event_sequence := r_last_event_sequence (fst s) + 1\<rparr>"
  using emit_run [of e k tid ty data "fst s" "snd s"] by simp

lemma put_checkpoint_frame [simp]:
  "db_users (put_checkpoint c d) = db_users d" "db_threads (put_checkpoint c d) = db_threads d"
  "db_runs (put_checkpoint c d) = db_runs d"
  by (simp_all add: put_checkpoint_def)

lemma first_resume_state:
  assumes "first_resume e a answer c r t d = Inr (x, d')" and "rm_worker a = None"
    and r: "find_run d rid = Some r"
    and c: "find (\<lambda>c. c_run c = rid \<and> c_hitl_token c = Some token) (db_checkpoints d) = Some c"
    and ids: "distinct (map c_id (db_checkpoints d))"
  obtains r2 c1 where "find_run d' rid = Some r2" "r_skill r2 = r_skill r" "r_thread r2 = r_thread r"
    "r_user r2 = r_user r" "db_users d' = db_users d" "db_threads d' = db_threads d"
    "find (\<lambda>c. c_run c = rid \<and> c_hitl_token c = Some token) (db_checkpoints d') = Some c1"
    "x = consumed_of c1 t answer (r_fencing_token r2) False False"
proof -
  let ?c1 = "c\<lparr>c_consumed_at := Some (env_now e), c_resume_key := Some (rm_key a),
      c_resume_payload := Some (resume_payload answer), c_updated_at := env_now e\<rparr>"
  define s where "s = emit e 0 (th_thread_id t) HITL_RESUMED
      [(''checkpoint_id'', JStr (c_checkpoint_id c)), (''answer'', JStr answer),
       (''status'', JStr (status_value PENDING))]
      (r\<lparr>r_status := PENDING, r_owner := None, r_lease := None, r_updated_at := env_now e\<rparr>,
       set_message (r_assistant_message r)
         (\<lambda>m. m\<lparr>m_status := ''streaming'', m_updated_at := env_now e\<rparr>) d)"
  have nw: "\<not> nonempty (rm_worker a)" by (simp add: assms(2) nonempty_def or_else_def)
  have "r_status r = WAITING_INPUT"
    using assms(1) by (simp add: first_resume_def split: if_splits)
  then have "first_resume e a answer c r t d =
      commit (consumed_of ?c1 t answer (r_fencing_token (fst s)) False False)
        (put_checkpoint ?c1 (put_run (fst s) (snd s)))"
    using nw by (simp add: first_resume_def Let_def case_prod_beta s_def)
  then have d': "d' = put_checkpoint ?c1 (put_run (fst s) (snd s))"
    and x: "x = consumed_of ?c1 t answer (r_fencing_token (fst s)) False False"
    using assms(1) by (simp_all add: commit_def split: if_splits)
  have s: "r_id (fst s) = r_id r" "r_skill (fst s) = r_skill r" "r_thread (fst s) = r_thread r"
    "r_user (fst s) = r_user r" "db_runs (snd s) = db_runs d" "db_users (snd s) = db_users d"
    "db_threads (snd s) = db_threads d" "db_checkpoints (snd s) = db_checkpoints d"
    by (simp_all add: s_def emit_run_pair)
  have cin: "c \<in> set (db_checkpoints d)" "c_run c = rid" "c_hitl_token c = Some token"
    using find_cp_SomeD [OF c] by auto
  have "find_run (put_run (fst s) (snd s)) rid = Some (fst s)"
    using r find_run_SomeD [OF r] find_put_run [OF s(1), of "snd s" rid] s(5)
    by (simp add: find_run_def)
  then have "find_run d' rid = Some (fst s)" unfolding d' by (simp add: find_run_def)
  moreover have "find (\<lambda>c. c_run c = rid \<and> c_hitl_token c = Some token) (db_checkpoints d') = Some ?c1"
  proof -
    have "(c_run (if c_id y = c_id c then ?c1 else y) = rid \<and>
        c_hitl_token (if c_id y = c_id c then ?c1 else y) = Some token) \<longleftrightarrow>
        (c_run y = rid \<and> c_hitl_token y = Some token)" if "y \<in> set (db_checkpoints d)" for y
      using distinct_key_unique [OF ids that cin(1)] by auto
    then have "find (\<lambda>c. c_run c = rid \<and> c_hitl_token c = Some token)
        (map (\<lambda>y. if c_id y = c_id c then ?c1 else y) (db_checkpoints d)) =
        map_option (\<lambda>y. if c_id y = c_id c then ?c1 else y)
          (find (\<lambda>c. c_run c = rid \<and> c_hitl_token c = Some token) (db_checkpoints d))"
      by (rule find_map_same)
    then show ?thesis using c by (simp add: d' put_checkpoint_def update_where_def s(8))
  qed
  moreover have "db_users d' = db_users d" "db_threads d' = db_threads d"
    by (simp_all add: d' s)
  ultimately show thesis
    using that [of "fst s" ?c1] s(2-4) x by blast
qed


lemma consume_resume_txD:
  assumes "consume_resume_tx pf e a answer d = Inr (x, d')"
  obtains c r t u where
    "find (\<lambda>c. c_run c = rm_run_id a \<and> c_hitl_token c = Some (rm_token a)) (db_checkpoints d) = Some c"
    "find_run d (rm_run_id a) = Some r" "find_thread d (r_thread r) = Some t"
    "find_user_id d (r_user r) = Some u" "u_username u = rm_username a"
    "pf \<lparr> ras_user_db_id = u_id u, ras_username = u_username u, ras_role = u_role u, ras_skill = r_skill r \<rparr> = None"
    "c_consumed_at c \<noteq> None \<and> replay_resume e a answer c r t d = Inr (x, d') \<or>
     c_consumed_at c = None \<and> first_resume e a answer c r t d = Inr (x, d')"
  using assms by (auto simp: consume_resume_tx_def split: option.splits if_splits)

text \<open>
  C33. Replaying an accepted answer is idempotent. When the endpoint (which passes no worker)
  gets the same request again, nothing is written and it reports the same checkpoint, answer
  and state, marked as already consumed.
\<close>

theorem hitl_replay_idempotent:
  assumes inv: "run_inv d" and fresh: "fresh_env e d" and acc: "consume_resume preflight e a d = Inr (x, d')"
    and worker: "rm_worker a = None"
  shows "consume_resume preflight e' a d' = Inr (x\<lparr>cr_already_consumed := True\<rparr>, d')"
proof -
  let ?answer = "py_strip (rm_answer a)"
  have inv': "run_inv d'"
    using consume_resume_safe [OF inv fresh, of preflight a] acc by simp
  have con: "consumed_with d' (rm_run_id a) (rm_token a) (rm_key a) ?answer"
    by (rule consume_resume_consumed [OF acc])
  have ans: "?answer \<noteq> ''''" and tx: "consume_resume_tx preflight e a ?answer d = Inr (x, d')"
    using acc by (auto simp: consume_resume_def Let_def split: if_splits sum.splits exn.splits)
  have nw: "\<not> nonempty (rm_worker a)" by (simp add: worker nonempty_def or_else_def)
  obtain c r t u where *:
    "find (\<lambda>c. c_run c = rm_run_id a \<and> c_hitl_token c = Some (rm_token a)) (db_checkpoints d) = Some c"
    "find_run d (rm_run_id a) = Some r" "find_thread d (r_thread r) = Some t"
    "find_user_id d (r_user r) = Some u" "u_username u = rm_username a"
    "preflight \<lparr> ras_user_db_id = u_id u, ras_username = u_username u, ras_role = u_role u, ras_skill = r_skill r \<rparr> = None"
    "c_consumed_at c \<noteq> None \<and> replay_resume e a ?answer c r t d = Inr (x, d') \<or>
     c_consumed_at c = None \<and> first_resume e a ?answer c r t d = Inr (x, d')"
    using consume_resume_txD [OF tx] .
  have ids: "distinct (map c_id (db_checkpoints d))"
    using cps_ok_inv [OF inv] by (simp add: cps_ok_def)
  obtain r2 c1 b where **: "find_run d' (rm_run_id a) = Some r2" "r_skill r2 = r_skill r"
    "r_thread r2 = r_thread r" "r_user r2 = r_user r" "db_users d' = db_users d" "db_threads d' = db_threads d"
    "find (\<lambda>c. c_run c = rm_run_id a \<and> c_hitl_token c = Some (rm_token a)) (db_checkpoints d') = Some c1"
    "x = consumed_of c1 t ?answer (r_fencing_token r2) b False"
  proof -
    consider (replay) "replay_resume e a ?answer c r t d = Inr (x, d')"
      | (first) "first_resume e a ?answer c r t d = Inr (x, d')"
      using *(7) by blast
    then show thesis
    proof cases
      case replay
      then have "d' = d" "x = consumed_of c t ?answer (r_fencing_token r) True False"
        using nw by (auto simp: replay_resume_def commit_def split: if_splits)
      then show ?thesis using that * by blast
    next
      case first
      from first worker *(2,1) ids show ?thesis
        by (rule first_resume_state) (rule that)
    qed
  qed
  note c1 = consumed_token_unique [OF inv' con **(7)]
  have c1': "c1 \<in> set (db_checkpoints d')" "c_run c1 = r_id r2"
    using find_cp_SomeD [OF **(7)] find_run_SomeD [OF **(1)] by auto
  have nokey: "\<not> list_ex (\<lambda>x. c_run x = r_id r2 \<and> c_resume_key x = Some (rm_key a) \<and> c_id x \<noteq> c_id c1)
      (db_checkpoints d')"
    using resume_key_unique [OF inv' _ c1'(1)] c1(2) c1'(2) by (auto simp: list_ex_iff)
  have th: "find_thread d' (r_thread r) = Some t" and us: "find_user_id d' (r_user r) = Some u"
    using *(3,4) **(5,6) by (simp_all add: find_thread_def find_user_id_def)
  have "consume_resume_tx preflight e' a ?answer d' =
      commit (consumed_of c1 t ?answer (r_fencing_token r2) True False) d'"
    using *(5,6) c1 nokey nw
    by (simp add: consume_resume_tx_def **(1-4,7) th us replay_resume_def)
  then show ?thesis
    using ans by (simp add: consume_resume_def commit_inv [OF inv'] **(8) consumed_of_def)
qed

theorem hitl_replay_idempotent_witness:
  "\<exists>x d'. consume_resume (\<lambda>_. None) fx_env fx_answer fx_waiting = Inr (x, d') \<and>
     consume_resume (\<lambda>_. None) fx_env fx_answer d' = Inr (x\<lparr>cr_already_consumed := True\<rparr>, d')"
proof -
  obtain x d' where acc: "consume_resume (\<lambda>_. None) fx_env fx_answer fx_waiting = Inr (x, d')"
    using fx_answer_accepted by (cases "consume_resume (\<lambda>_. None) fx_env fx_answer fx_waiting") auto
  show ?thesis
    using hitl_replay_idempotent [OF fx_waiting_inv fx_waiting_fresh acc, of fx_env] acc
    by (auto simp: fx_answer_def)
qed

section \<open>Stored and restored results\<close>

lemma map_of_filter_key: "P k \<Longrightarrow> map_of (filter (\<lambda>kv. P (fst kv)) kvs) k = map_of kvs k"
  by (induction kvs) auto

lemma map_of_filter_out: "\<not> P k \<Longrightarrow> map_of (filter (\<lambda>kv. P (fst kv)) kvs) k = None"
  by (induction kvs) auto

lemma map_of_setdefault: "map_of (setdefault k v kvs) x =
   (if x = k \<and> map_of kvs k = None then Some v else map_of kvs x)"
  by (auto simp: setdefault_def map_add_def split: option.splits)

text \<open>
  C34. A resumed result survives its compact storage: when a state whose \<open>docs\<close> is a non-empty
  list and whose \<open>rag_trace\<close> is an object is stored and read back, the documents, and every
  field outside the dropped bulk fields, are the ones of the state, and the trace shows the
  documents as its retrieved chunks.
\<close>

theorem resume_result_roundtrip:
  assumes "map_of state ''docs'' = Some (JList docs)" and "docs \<noteq> []"
    and "map_of state ''rag_trace'' = Some (JObj trace)"
  shows "\<exists>restored trace'. restore_resume_result (compact_resume_result state) = Inr restored \<and>
     map_of restored ''docs'' = Some (JList docs) \<and>
     (\<forall>k. k \<notin> set [''docs'', ''context'', ''sub_results'', ''rag_trace''] \<longrightarrow>
        map_of restored k = map_of state k) \<and>
     map_of restored ''rag_trace'' = Some (JObj trace') \<and>
     map_of trace' ''retrieved_chunks'' = Some (JList docs) \<and>
     (\<forall>k. k \<notin> set RAG_TRACE_BULK_FIELDS \<longrightarrow> map_of trace' k = map_of trace k)"
proof -
  let ?t0 = "filter (\<lambda>kv. fst kv \<notin> set RAG_TRACE_BULK_FIELDS) trace"
  let ?c = "compact_resume_result state"
  have docs: "map_of ?c ''docs'' = Some (JList docs)"
    using assms(1,2) by (simp add: compact_resume_result_def get_or_def update_conv)
  have tr: "map_of ?c ''rag_trace'' = Some (JObj ?t0)"
    using assms(3) by (simp add: compact_resume_result_def compact_hitl_state_def update_conv)
  have other: "map_of ?c k = map_of state k"
    if "k \<notin> set [''docs'', ''context'', ''sub_results'', ''rag_trace'']" for k
    using assms(3) that
    by (simp add: compact_resume_result_def compact_hitl_state_def update_conv Let_def
        map_of_filter_key [where P = "\<lambda>k. k \<noteq> ''docs'' \<and> k \<noteq> ''context'' \<and> k \<noteq> ''sub_results''"])
  define t1 where "t1 = setdefault ''retrieved_chunks'' (JList docs) ?t0"
  define t2 where "t2 = (case map_of t1 ''hitl_resumed'' of None \<Rightarrow> t1
      | Some v \<Rightarrow> if truthy v then setdefault ''hitl_targeted_retrieved_chunks'' (JList docs) t1 else t1)"
  have out: "map_of ?t0 k = (if k \<in> set RAG_TRACE_BULK_FIELDS then None else map_of trace k)" for k
    using map_of_filter_key [where P = "\<lambda>k. k \<notin> set RAG_TRACE_BULK_FIELDS"]
      map_of_filter_out [where P = "\<lambda>k. k \<notin> set RAG_TRACE_BULK_FIELDS"]
    by (cases "k \<in> set RAG_TRACE_BULK_FIELDS") simp_all
  have bulk: "''retrieved_chunks'' \<in> set RAG_TRACE_BULK_FIELDS"
    "''hitl_targeted_retrieved_chunks'' \<in> set RAG_TRACE_BULK_FIELDS"
    by (simp_all add: RAG_TRACE_BULK_FIELDS_def)
  have t2: "map_of t2 ''retrieved_chunks'' = Some (JList docs)"
    "k \<notin> set RAG_TRACE_BULK_FIELDS \<Longrightarrow> map_of t2 k = map_of trace k" for k
    using bulk by (auto simp: t2_def t1_def map_of_setdefault out split: option.splits)
  have "get_or ?c ''docs'' (JList []) = JList docs" "get_or ?c ''rag_trace'' (JObj []) = JObj ?t0"
    using assms(2) by (simp_all add: get_or_def docs tr)
  then have "restore_resume_result ?c = Inr (AList.update ''rag_trace'' (JObj t2) ?c)"
    using assms(2) by (simp add: restore_resume_result_def Let_def flip: t1_def t2_def)
  then show ?thesis
    using docs other t2 by (intro exI [of _ "AList.update ''rag_trace'' (JObj t2) ?c"] exI [of _ t2])
      (simp add: update_conv)
qed

theorem resume_result_roundtrip_witness:
  "\<exists>restored trace'. restore_resume_result (compact_resume_result
       [(''docs'', JList [JInt 1]), (''question'', JStr ''q''), (''rag_trace'', JObj [(''route'', JStr ''r'')])]) =
       Inr restored \<and>
     map_of restored ''question'' = Some (JStr ''q'') \<and>
     map_of restored ''rag_trace'' = Some (JObj trace') \<and>
     map_of trace' ''retrieved_chunks'' = Some (JList [JInt 1]) \<and> map_of trace' ''route'' = Some (JStr ''r'')"
proof -
  let ?st = "[(''docs'', JList [JInt 1]), (''question'', JStr ''q''), (''rag_trace'', JObj [(''route'', JStr ''r'')])]"
  obtain restored trace' where *: "restore_resume_result (compact_resume_result ?st) = Inr restored"
      "\<forall>k. k \<notin> set [''docs'', ''context'', ''sub_results'', ''rag_trace''] \<longrightarrow> map_of restored k = map_of ?st k"
      "map_of restored ''rag_trace'' = Some (JObj trace')"
      "map_of trace' ''retrieved_chunks'' = Some (JList [JInt 1])"
      "\<forall>k. k \<notin> set RAG_TRACE_BULK_FIELDS \<longrightarrow> map_of trace' k = map_of [(''route'', JStr ''r'')] k"
    using resume_result_roundtrip [of ?st "[JInt 1]" "[(''route'', JStr ''r'')]"] by auto
  have "map_of restored ''question'' = Some (JStr ''q'')" "map_of trace' ''route'' = Some (JStr ''r'')"
    using *(2) [rule_format, of "''question''"] *(5) [rule_format, of "''route''"]
    by (simp_all add: RAG_TRACE_BULK_FIELDS_def)
  with *(1,3,4) show ?thesis by blast
qed

end
