(* ===== verification/Threads.thy ===== *)
theory Threads
  imports Run_Reserve "HOL-Library.Product_Lexorder"
begin

text \<open>
  Threads and their message journal, \<^verbatim>\<open>src/backend/threads/repository.py\<close> and
  \<^verbatim>\<open>src/backend/threads/service.py\<close>. The trace normaliser \<open>normalize_rag_trace\<close> is the
  parameter \<open>nrm\<close> of the operations that store or return a trace.
\<close>

section \<open>Records\<close>

record message_append =
  ma_role :: string
  ma_content :: string
  ma_status :: string
  ma_run_id :: "string option"
  ma_client_id :: "string option"
  ma_content_json :: "json option"
  ma_rag_trace :: "json option"

record message_record =
  mr_id :: int
  mr_thread_id :: string
  mr_sequence :: int
  mr_role :: string
  mr_content :: string
  mr_status :: string
  mr_run_id :: "string option"
  mr_client_id :: "string option"
  mr_timestamp :: timestamp
  mr_updated_at :: timestamp
  mr_rag_trace :: "json option"
  mr_skill_name :: "string option"

type_synonym trace_norm = "json option \<Rightarrow> json option"

definition message_record_of :: "trace_norm \<Rightarrow> message \<Rightarrow> string \<Rightarrow> string option \<Rightarrow> message_record" where
  "message_record_of nrm m tid skill =
     \<lparr> mr_id = m_id m, mr_thread_id = tid, mr_sequence = m_sequence m, mr_role = m_type m,
       mr_content = m_content m, mr_status = m_status m, mr_run_id = m_run m,
       mr_client_id = m_client_id m, mr_timestamp = m_timestamp m, mr_updated_at = m_updated_at m,
       mr_rag_trace = nrm (m_rag_trace m), mr_skill_name = skill \<rparr>"

section \<open>Appending\<close>

record user_access =
  ua_user_id :: int
  ua_username :: string
  ua_role :: string

definition current_user_access :: "db \<Rightarrow> string \<Rightarrow> exn + user_access" where
  "current_user_access d username =
     (case find_user d username of
        None \<Rightarrow> Inl (app_error AUTHENTICATION_REQUIRED 401)
      | Some u \<Rightarrow> Inr \<lparr> ua_user_id = u_id u, ua_username = u_username u, ua_role = u_role u \<rparr>)"

text \<open>\<open>{**old, **new}\<close>.\<close>

definition dict_merge :: "(string \<times> json) list \<Rightarrow> (string \<times> json) list \<Rightarrow> (string \<times> json) list" where
  "dict_merge old new = fold (\<lambda>(k, v). AList.update k v) new old"

definition assert_version :: "thread \<Rightarrow> int option \<Rightarrow> exn option" where
  "assert_version t expected =
     (if expected \<noteq> None \<and> expected \<noteq> Some (th_version t)
      then Some (AppError CONFLICT 409 False [(''current_version'', JInt (th_version t))])
      else None)"

definition get_or_create :: "env \<Rightarrow> user \<Rightarrow> string \<Rightarrow> (string \<times> json) list \<Rightarrow> db \<Rightarrow> thread \<times> db" where
  "get_or_create e u tid metadata d =
     (case thread_of_user d (u_id u) tid of
        Some t \<Rightarrow> (t, d)
      | None \<Rightarrow> new_thread e u tid metadata d)"

definition appended_message :: "trace_norm \<Rightarrow> env \<Rightarrow> message_append \<Rightarrow> thread \<Rightarrow> int \<Rightarrow> message" where
  "appended_message nrm e m t i =
     \<lparr> m_id = i, m_thread = th_id t, m_run = ma_run_id m, m_client_id = ma_client_id m,
       m_sequence = th_last_sequence t + 1, m_type = ma_role m, m_content = ma_content m,
       m_content_json = ma_content_json m, m_status = ma_status m, m_timestamp = env_now e,
       m_updated_at = env_now e, m_rag_trace = nrm (ma_rag_trace m) \<rparr>"

definition append_row ::
    "trace_norm \<Rightarrow> env \<Rightarrow> message_append \<Rightarrow> (string \<times> json) list \<Rightarrow> thread \<Rightarrow> db \<Rightarrow> message \<times> db" where
  "append_row nrm e m metadata t d =
     (let row = appended_message nrm e m t (seq_message d);
          t' = t\<lparr>th_last_sequence := m_sequence row, th_message_count := th_message_count t + 1,
                 th_version := th_version t + 1, th_updated_at := env_now e,
                 th_metadata := (if metadata = [] then th_metadata t
                                 else dict_merge (th_metadata t) metadata)\<rparr>
      in (row, put_thread t' (d\<lparr>db_messages := db_messages d @ [row],
                               seq_message := seq_message d + 1\<rparr>)))"

definition append_message_tx ::
    "trace_norm \<Rightarrow> env \<Rightarrow> string \<Rightarrow> string \<Rightarrow> message_append \<Rightarrow> int option \<Rightarrow> (string \<times> json) list \<Rightarrow> db
       \<Rightarrow> message_record option tx" where
  "append_message_tx nrm e username tid m expected metadata d =
     (case find_user d username of
        None \<Rightarrow> Inr (None, d)
      | Some u \<Rightarrow>
          (let (t, d1) = get_or_create e u tid metadata d
           in case assert_version t expected of
                Some ex \<Rightarrow> Inl ex
              | None \<Rightarrow>
                  (case (if nonempty (ma_client_id m)
                         then find (\<lambda>x. m_thread x = th_id t \<and> m_client_id x = ma_client_id m)
                                (db_messages d1)
                         else None) of
                     Some x \<Rightarrow> commit (Some (message_record_of nrm x tid None)) d1
                   | None \<Rightarrow>
                       if (case ma_run_id m of None \<Rightarrow> False | Some i \<Rightarrow> find_run d1 i = None)
                       then Inl IntegrityError
                       else (let (row, d2) = append_row nrm e m metadata t d1
                             in commit (Some (message_record_of nrm row tid None)) d2))))"

definition append_message ::
    "trace_norm \<Rightarrow> env \<Rightarrow> string \<Rightarrow> string \<Rightarrow> message_append \<Rightarrow> int option \<Rightarrow> (string \<times> json) list \<Rightarrow> db
       \<Rightarrow> message_record option tx" where
  "append_message nrm e username tid m expected metadata d =
     (case append_message_tx nrm e username tid m expected metadata d of
        Inl IntegrityError \<Rightarrow> Inl (AppError CONFLICT 409 True [])
      | res \<Rightarrow> res)"

definition create_assistant_placeholder ::
    "trace_norm \<Rightarrow> env \<Rightarrow> string \<Rightarrow> string \<Rightarrow> string \<Rightarrow> int option \<Rightarrow> db \<Rightarrow> message_record option tx" where
  "create_assistant_placeholder nrm e username tid rid expected d =
     append_message nrm e username tid
       \<lparr> ma_role = ''ai'', ma_content = '''', ma_status = ''streaming'', ma_run_id = Some rid,
         ma_client_id = Some (rid @ '':assistant''), ma_content_json = None, ma_rag_trace = None \<rparr>
       expected [] d"

definition finalize_message ::
    "trace_norm \<Rightarrow> env \<Rightarrow> string \<Rightarrow> string \<Rightarrow> int \<Rightarrow> string \<Rightarrow> string \<Rightarrow> json option \<Rightarrow> db
       \<Rightarrow> message_record option tx" where
  "finalize_message nrm e username tid mid content status trace d =
     (case find_user d username of None \<Rightarrow> Inr (None, d) | Some u \<Rightarrow>
      case thread_of_user d (u_id u) tid of None \<Rightarrow> Inr (None, d) | Some t \<Rightarrow>
      case find (\<lambda>m. m_id m = mid \<and> m_thread m = th_id t) (db_messages d) of
        None \<Rightarrow> Inr (None, d)
      | Some row \<Rightarrow>
          if m_content row = content \<and> m_status row = status \<and> m_rag_trace row = nrm trace
          then commit (Some (message_record_of nrm row tid None)) d
          else
           (let f = (\<lambda>m. m\<lparr>m_content := content, m_status := status, m_rag_trace := nrm trace,
                           m_updated_at := env_now e\<rparr>)
            in commit (Some (message_record_of nrm (f row) tid None))
                 (put_thread (t\<lparr>th_updated_at := env_now e\<rparr>) (set_message (Some mid) f d))))"

section \<open>Threads\<close>

definition create_thread :: "env \<Rightarrow> string \<Rightarrow> string \<Rightarrow> string option \<Rightarrow> db \<Rightarrow> unit tx" where
  "create_thread e username tid title d =
     (case find_user d username of
        None \<Rightarrow> Inl (app_error AUTHENTICATION_REQUIRED 401)
      | Some u \<Rightarrow>
          (let titled = or_else title '''' \<noteq> '''';
               metadata = (if titled then [(''title'', JStr (or_else title ''''))] else []);
               (t, d1) = get_or_create e u tid metadata d
           in if titled \<and> \<not> has_title t
              then commit () (put_thread (t\<lparr>th_metadata := dict_merge (th_metadata t) metadata,
                                            th_updated_at := env_now e\<rparr>) d1)
              else commit () d1))"

text \<open>
  Deleting a thread cascades to its messages and Runs, and with a Run to its events and
  checkpoints; an audit row or a message of another thread outlives the Run it refers to
  without the reference.
\<close>

definition remove_thread :: "thread \<Rightarrow> db \<Rightarrow> db" where
  "remove_thread t d =
     (let gone = map r_id (filter (\<lambda>r. r_thread r = th_id t) (db_runs d))
      in d\<lparr>db_threads := filter (\<lambda>x. th_id x \<noteq> th_id t) (db_threads d),
           db_messages := map (\<lambda>m. if (\<exists>r \<in> set gone. m_run m = Some r) then m\<lparr>m_run := None\<rparr> else m)
                            (filter (\<lambda>m. m_thread m \<noteq> th_id t) (db_messages d)),
           db_runs := filter (\<lambda>r. r_thread r \<noteq> th_id t) (db_runs d),
           db_events := filter (\<lambda>ev. e_run ev \<notin> set gone) (db_events d),
           db_checkpoints := filter (\<lambda>c. c_run c \<notin> set gone \<and> c_thread c \<noteq> th_id t) (db_checkpoints d),
           db_audits := map (\<lambda>a. if (\<exists>r \<in> set gone. a_run a = Some r) then a\<lparr>a_run := None\<rparr> else a)
                          (db_audits d)\<rparr>)"

definition delete_thread :: "string \<Rightarrow> string \<Rightarrow> db \<Rightarrow> bool tx" where
  "delete_thread username tid d =
     (case find_user d username of None \<Rightarrow> Inr (False, d) | Some u \<Rightarrow>
      case thread_of_user d (u_id u) tid of None \<Rightarrow> Inr (False, d) | Some t \<Rightarrow>
      case find (\<lambda>r. r_thread r = th_id t \<and> \<not> terminal (r_status r)) (db_runs d) of
        Some r \<Rightarrow>
          Inl (AppError RUN_ACTIVE 409 False
                 [(''active_run_id'', JStr (r_id r)),
                  (''active_run_status'', JStr (status_value (r_status r)))])
      | None \<Rightarrow> commit True (remove_thread t d))"

section \<open>Reads\<close>

definition skill_of :: "db \<Rightarrow> string option \<Rightarrow> string option" where
  "skill_of d rid =
     (case rid of None \<Rightarrow> None
      | Some i \<Rightarrow> (case find_run d i of None \<Rightarrow> None | Some r \<Rightarrow> fst (r_skill r)))"

definition list_messages_before ::
    "trace_norm \<Rightarrow> db \<Rightarrow> string \<Rightarrow> string \<Rightarrow> int option \<Rightarrow> int \<Rightarrow> message_record list option" where
  "list_messages_before nrm d username tid before limit =
     (case find_user d username of None \<Rightarrow> None | Some u \<Rightarrow>
      case thread_of_user d (u_id u) tid of None \<Rightarrow> None | Some t \<Rightarrow>
        Some (map (\<lambda>m. message_record_of nrm m tid (skill_of d (m_run m)))
          (take (nat (max 1 (min limit 501)))
            (sort_key (\<lambda>m. - m_sequence m)
              (filter (\<lambda>m. m_thread m = th_id t \<and>
                 (case before of None \<Rightarrow> True | Some b \<Rightarrow> m_sequence m < b)) (db_messages d))))))"

record thread_summary =
  ts_thread_id :: string
  ts_title :: string
  ts_created_at :: timestamp
  ts_updated_at :: timestamp
  ts_message_count :: int
  ts_version :: int
  ts_status :: string
  ts_active_run_id :: "string option"
  ts_active_run_status :: "run_status option"

fun active_run_priority :: "run_status \<Rightarrow> nat" where
  "active_run_priority RUNNING = 0"
| "active_run_priority WAITING_INPUT = 1"
| "active_run_priority CANCELLING = 2"
| "active_run_priority PENDING = 3"
| "active_run_priority QUEUED = 4"
| "active_run_priority _ = 5"

definition thread_title :: "thread \<Rightarrow> string" where
  "thread_title t =
     (case map_of (th_metadata t) ''title'' of
        Some (JStr s) \<Rightarrow> (if s = '''' then th_thread_id t else s)
      | _ \<Rightarrow> th_thread_id t)"

definition summary_record :: "thread \<Rightarrow> run option \<Rightarrow> thread_summary" where
  "summary_record t r =
     \<lparr> ts_thread_id = th_thread_id t, ts_title = thread_title t, ts_created_at = th_created_at t,
       ts_updated_at = th_updated_at t, ts_message_count = th_message_count t,
       ts_version = th_version t, ts_status = th_status t,
       ts_active_run_id = map_option r_id r, ts_active_run_status = map_option r_status r \<rparr>"

definition live_runs :: "db \<Rightarrow> thread \<Rightarrow> run list" where
  "live_runs d t = filter (\<lambda>r. r_thread r = th_id t \<and> \<not> terminal (r_status r)) (db_runs d)"

definition run_order :: "run \<Rightarrow> nat \<times> timestamp \<times> string" where
  "run_order r = (active_run_priority (r_status r), r_created_at r, r_id r)"

definition get_thread_summary :: "db \<Rightarrow> string \<Rightarrow> string \<Rightarrow> thread_summary option" where
  "get_thread_summary d username tid =
     (case find_user d username of None \<Rightarrow> None | Some u \<Rightarrow>
      case thread_of_user d (u_id u) tid of None \<Rightarrow> None | Some t \<Rightarrow>
        Some (summary_record t (first_by run_order (live_runs d t))))"

text \<open>The outer join of threads and live Runs, ordered; a thread without one has no priority.\<close>

definition summary_order :: "thread \<times> run option \<Rightarrow> timestamp \<times> nat \<times> timestamp \<times> string" where
  "summary_order p =
     (case p of (t, r) \<Rightarrow> (- th_updated_at t, case r of None \<Rightarrow> (5, 0, '''') | Some x \<Rightarrow> run_order x))"

fun first_per_thread :: "(thread \<times> run option) list \<Rightarrow> int list \<Rightarrow> thread_summary list" where
  "first_per_thread [] seen = []"
| "first_per_thread ((t, r) # rows) seen =
     (if th_id t \<in> set seen then first_per_thread rows seen
      else summary_record t r # first_per_thread rows (th_id t # seen))"

definition list_thread_summaries :: "db \<Rightarrow> string \<Rightarrow> thread_summary list" where
  "list_thread_summaries d username =
     (case find_user d username of None \<Rightarrow> [] | Some u \<Rightarrow>
        first_per_thread
          (sort_key summary_order
            (concat (map (\<lambda>t. if live_runs d t = [] then [(t, None)]
                              else map (\<lambda>r. (t, Some r)) (live_runs d t))
               (filter (\<lambda>t. th_user t = u_id u) (db_threads d))))) [])"

section \<open>The service\<close>

text \<open>\<open>str.split()\<close>, and the title made of the words.\<close>

function split_ws :: "string \<Rightarrow> string \<Rightarrow> string list" where
  "split_ws acc s =
     (let word = (if acc = [] then [] else [rev acc])
      in if s = [] then word
         else if 0 < ws_head (map byte s) then word @ split_ws [] (drop (ws_head (map byte s)) s)
         else split_ws (hd s # acc) (tl s))"
  by pat_completeness auto
termination
  by (relation "measure (\<lambda>(acc, s). length s)") (auto simp: length_greater_0_conv)

declare split_ws.simps [simp del]

definition resolved_title :: "string option \<Rightarrow> string option" where
  "resolved_title title =
     (let t = join_with '' '' (split_ws [] (or_else title '''')) in if t = '''' then None else Some t)"

fun message_role :: "string \<Rightarrow> exn + string" where
  "message_role s =
     (if s = ''human'' then Inr ''user'' else if s = ''ai'' then Inr ''assistant''
      else if s = ''system'' then Inr ''system'' else Inl RuntimeError)"

text \<open>
  \<open>ThreadService.create_thread\<close>; \<open>tid\<close> is the identifier the caller gave, or the new one drawn
  when it gave none.
\<close>

definition service_create_thread ::
    "env \<Rightarrow> string \<Rightarrow> string option \<Rightarrow> string option \<Rightarrow> db \<Rightarrow> thread_summary tx" where
  "service_create_thread e username tid title d =
     (case validate_thread_id (or_else tid (''thread_'' @ env_uuid4 e 0)) of Inl ex \<Rightarrow> Inl ex | Inr rid \<Rightarrow>
      let rt = resolved_title title
      in if (case rt of None \<Rightarrow> False | Some t \<Rightarrow> 160 < py_len t) then Inl ValueError
         else (case create_thread e username rid rt d of
             Inl ex \<Rightarrow> Inl ex
           | Inr (_, d1) \<Rightarrow>
               (case get_thread_summary d1 username rid of
                  None \<Rightarrow> Inl RuntimeError
                | Some s \<Rightarrow> Inr (s, d1))))"

record thread_message =
  tm_id :: int
  tm_run_id :: "string option"
  tm_sequence :: int
  tm_status :: string
  tm_role :: string
  tm_content :: string
  tm_timestamp :: timestamp
  tm_rag_trace :: "json option"
  tm_skill_name :: "string option"

definition thread_message_of :: "message_record \<Rightarrow> exn + thread_message" where
  "thread_message_of r =
     (case message_role (mr_role r) of
        Inl ex \<Rightarrow> Inl ex
      | Inr role \<Rightarrow>
          Inr \<lparr> tm_id = mr_id r, tm_run_id = mr_run_id r, tm_sequence = mr_sequence r,
                tm_status = mr_status r, tm_role = role, tm_content = mr_content r,
                tm_timestamp = mr_timestamp r, tm_rag_trace = mr_rag_trace r,
                tm_skill_name = mr_skill_name r \<rparr>)"

fun map_result :: "('a \<Rightarrow> exn + 'b) \<Rightarrow> 'a list \<Rightarrow> exn + 'b list" where
  "map_result f [] = Inr []"
| "map_result f (x # xs) =
     (case f x of Inl ex \<Rightarrow> Inl ex
      | Inr y \<Rightarrow> (case map_result f xs of Inl ex \<Rightarrow> Inl ex | Inr ys \<Rightarrow> Inr (y # ys)))"

definition recent_messages ::
    "trace_norm \<Rightarrow> db \<Rightarrow> string \<Rightarrow> string \<Rightarrow> int option \<Rightarrow> int
       \<Rightarrow> exn + thread_message list \<times> int option" where
  "recent_messages nrm d username tid before limit =
     (case validate_thread_id tid of Inl ex \<Rightarrow> Inl ex | Inr rid \<Rightarrow>
      if (case before of None \<Rightarrow> False | Some b \<Rightarrow> b < 1) then Inl ValueError
      else if \<not> (1 \<le> limit \<and> limit \<le> 500) then Inl ValueError
      else (case list_messages_before nrm d username rid before (limit + 1) of
          None \<Rightarrow> Inl (app_error NOT_FOUND 404)
        | Some rows \<Rightarrow>
            (let has_previous = limit < int (length rows)
             in case map_result thread_message_of (rev (take (nat limit) rows)) of
                  Inl ex \<Rightarrow> Inl ex
                | Inr ms \<Rightarrow>
                    Inr (ms, if has_previous then Some (tm_sequence (hd ms)) else None))))"

definition service_delete_thread :: "string \<Rightarrow> string \<Rightarrow> db \<Rightarrow> bool tx" where
  "service_delete_thread username tid d =
     (case validate_thread_id tid of Inl ex \<Rightarrow> Inl ex | Inr rid \<Rightarrow> delete_thread username rid d)"

end
