(* ===== verification/Thread_Safety.thy ===== *)
theory Thread_Safety
  imports Threads Fixtures
begin

text \<open>
  The thread operations keep the invariant of the run tables. Appending keeps the journal of
  a thread contiguous; deleting a thread removes exactly the rows that hang off it.
\<close>

section \<open>Appending\<close>

lemma get_or_create_ready:
  assumes "run_inv d" and "fresh_env e d" and "get_or_create e u tid metadata d = (t, d1)"
  shows "thread_ready e d u tid t d1"
proof (cases "thread_of_user d (u_id u) tid")
  case None
  then show ?thesis
    using assms(3) by (intro new_thread_ready [OF assms(1,2)]) (simp_all add: get_or_create_def)
next
  case (Some t0)
  then have "t0 \<in> set (db_threads d)" "th_user t0 = u_id u" "th_thread_id t0 = tid"
    using find_SomeD [OF Some [unfolded thread_of_user_def]] by auto
  then show ?thesis
    using assms Some by (simp add: get_or_create_def thread_ready_def)
qed

definition appended_thread :: "env \<Rightarrow> (string \<times> json) list \<Rightarrow> thread \<Rightarrow> thread" where
  "appended_thread e metadata t =
     t\<lparr>th_last_sequence := th_last_sequence t + 1, th_message_count := th_message_count t + 1,
       th_version := th_version t + 1, th_updated_at := env_now e,
       th_metadata := (if metadata = [] then th_metadata t else dict_merge (th_metadata t) metadata)\<rparr>"

lemma append_row_eq:
  "append_row nrm e m metadata t d =
     (appended_message nrm e m t (seq_message d),
      put_thread (appended_thread e metadata t)
        (d\<lparr>db_messages := db_messages d @ [appended_message nrm e m t (seq_message d)],
           seq_message := seq_message d + 1\<rparr>))"
  by (simp add: append_row_def appended_thread_def Let_def appended_message_def)

lemma append_row_inv:
  assumes inv: "run_inv d" and t: "t \<in> set (db_threads d)"
    and row: "append_row nrm e m metadata t d = (x, d')" and ok: "messages_ok (db_messages d')"
  shows "run_inv d'" and "evolves d d'"
proof -
  have st: "struct_ok (db_users d) (db_threads d) (db_messages d) (db_runs d) (seq_thread d) (seq_message d)"
    using inv by (simp add: run_inv_def tables_inv_def)
  let ?n = "appended_message nrm e m t (seq_message d)"
  have d': "d' = put_thread (appended_thread e metadata t)
      (d\<lparr>db_messages := db_messages d @ [?n], seq_message := seq_message d + 1\<rparr>)"
    using row by (auto simp: append_row_eq)
  have "appends (seq_message d) t [?n]"
    by (simp add: appends_def appended_message_def)
  moreover have "moved_by (int (length [?n])) t (appended_thread e metadata t)"
    by (simp add: moved_by_def appended_thread_def)
  moreover have "messages_ok (db_messages d @ [?n])"
    using ok by (simp add: d' put_thread_def)
  ultimately have "struct_ok (db_users d') (db_threads d') (db_messages d') (db_runs d') (seq_thread d')
      (seq_message d')"
    using struct_ok_append(1) [OF st t, of "[?n]" "appended_thread e metadata t"]
    by (simp add: d' put_thread_def appended_thread_def)
  then show "run_inv d'" "evolves d d'"
    using run_inv_struct [OF inv, of d'] update_thread_keys [OF inv t, of "appended_thread e metadata t"]
    by (simp_all add: d' put_thread_def parents_kept_def thread_key_def appended_thread_def)
qed

lemma append_message_tx_inv:
  assumes inv: "run_inv d" and fresh: "fresh_env e d"
    and res: "append_message_tx nrm e username tid m expected metadata d = Inr (x, d')"
  shows "run_inv d' \<and> evolves d d'"
proof (cases "find_user d username")
  case None
  with res inv show ?thesis by (auto simp: append_message_tx_def)
next
  case (Some u)
  obtain t d1 where gc: "get_or_create e u tid metadata d = (t, d1)" by force
  have rdy: "thread_ready e d u tid t d1" by (rule get_or_create_ready [OF inv fresh gc])
  then have inv1: "run_inv d1" and ev1: "evolves d d1" and t: "t \<in> set (db_threads d1)"
    by (simp_all add: thread_ready_def)
  obtain row d2 where ap: "append_row nrm e m metadata t d1 = (row, d2)" by force
  have "d' = d1 \<or> d' = d2 \<and> integrity d2"
    using res Some gc ap
    by (auto simp: append_message_tx_def commit_def split: option.splits if_splits)
  then show ?thesis
  proof
    assume "d' = d2 \<and> integrity d2"
    then show ?thesis
      using append_row_inv [OF inv1 t ap] evolves_trans [OF ev1] by (simp add: integrity_def)
  qed (use inv1 ev1 in simp)
qed

lemma append_message_safe:
  assumes "run_inv d" and "fresh_env e d"
  shows "safe_tx d (append_message nrm e username tid m expected metadata d)"
proof (cases "append_message_tx nrm e username tid m expected metadata d")
  case (Inl ex)
  then show ?thesis by (cases ex) (simp_all add: append_message_def)
next
  case (Inr p)
  then show ?thesis
    using append_message_tx_inv [OF assms] by (cases p) (simp add: append_message_def)
qed

lemma create_assistant_placeholder_safe:
  "run_inv d \<Longrightarrow> fresh_env e d \<Longrightarrow>
    safe_tx d (create_assistant_placeholder nrm e username tid rid expected d)"
  unfolding create_assistant_placeholder_def by (rule append_message_safe)

section \<open>Titles and message contents\<close>

lemma put_thread_inv:
  assumes inv: "run_inv d" and t0: "t0 \<in> set (db_threads d)" and er: "erase_thread t1 = erase_thread t0"
  shows "run_inv (put_thread t1 d)" and "evolves d (put_thread t1 d)"
proof -
  have keys: "distinct (map th_id (db_threads d))"
    using inv by (simp add: run_inv_def tables_inv_keys(2))
  have "find_thread d (th_id t0) = Some t0"
    unfolding find_thread_def by (rule find_unique [OF keys t0])
  then have "same_tables d (put_thread t1 d)"
    by (rule same_tables_thread [OF er _ keys])
  then show "run_inv (put_thread t1 d)" "evolves d (put_thread t1 d)"
    using run_inv_same_tables [OF inv] by (simp_all add: put_thread_def)
qed

lemma thread_of_user_SomeD:
  "thread_of_user d i tid = Some t \<Longrightarrow> t \<in> set (db_threads d) \<and> th_user t = i \<and> th_thread_id t = tid"
  unfolding thread_of_user_def by (drule find_SomeD) simp

lemma finalize_message_safe:
  assumes inv: "run_inv d"
  shows "safe_tx d (finalize_message nrm e username tid mid content status trace d)"
proof -
  have "safe_tx d (commit x (put_thread (t\<lparr>th_updated_at := env_now e\<rparr>) (set_message (Some mid) f d)))"
    if t: "thread_of_user d i tid = Some t" and f: "\<And>m. erase_message (f m) = erase_message m"
    for i t f and x :: "message_record option"
  proof -
    let ?d1 = "set_message (Some mid) f d"
    have "db_events ?d1 = db_events d" by (simp add: set_message_def)
    note 1 = run_inv_same_tables [OF inv same_tables_message [where f = f, OF f] this]
    have "t \<in> set (db_threads ?d1)"
      using thread_of_user_SomeD [OF t] by (simp add: set_message_def)
    then have "run_inv (put_thread (t\<lparr>th_updated_at := env_now e\<rparr>) ?d1)"
        "evolves ?d1 (put_thread (t\<lparr>th_updated_at := env_now e\<rparr>) ?d1)"
      using put_thread_inv [OF 1(1)] by (simp_all add: erase_thread_def)
    then show ?thesis
      using evolves_trans [OF 1(2)] by (simp add: commit_inv)
  qed
  then show ?thesis
    using inv by (auto simp: finalize_message_def Let_def erase_message_def split: option.splits)
qed

lemma create_thread_safe:
  assumes inv: "run_inv d" and fresh: "fresh_env e d"
  shows "safe_tx d (create_thread e username tid title d)"
proof (cases "find_user d username")
  case None
  then show ?thesis by (simp add: create_thread_def)
next
  case (Some u)
  let ?titled = "or_else title '''' \<noteq> ''''"
  let ?m = "if ?titled then [(''title'', JStr (or_else title ''''))] else []"
  obtain t d1 where gc: "get_or_create e u tid ?m d = (t, d1)" by force
  have rdy: "run_inv d1" "evolves d d1" "t \<in> set (db_threads d1)"
    using get_or_create_ready [OF inv fresh gc] by (simp_all add: thread_ready_def)
  have "safe_tx d (commit () (put_thread (t\<lparr>th_metadata := md, th_updated_at := env_now e\<rparr>) d1))" for md
    using put_thread_inv [OF rdy(1,3), of "t\<lparr>th_metadata := md, th_updated_at := env_now e\<rparr>"]
      evolves_trans [OF rdy(2)]
    by (simp add: erase_thread_def commit_inv)
  then show ?thesis
    using Some gc rdy by (simp add: create_thread_def Let_def commit_inv)
qed

section \<open>Deletion\<close>

lemma map_filter_filter: "List.map_filter f (filter P xs) = List.map_filter (\<lambda>x. if P x then f x else None) xs"
  by (induction xs) (auto simp: List.map_filter_simps split: option.splits)

lemma distinct_map_filter_sub:
  assumes "distinct (List.map_filter f xs)" and "\<And>x. x \<in> set xs \<Longrightarrow> g x = None \<or> g x = f x"
  shows "distinct (List.map_filter g xs)"
proof -
  have "set (List.map_filter g xs) \<subseteq> set (List.map_filter f xs) \<and> distinct (List.map_filter g xs)"
    using assms
  proof (induction xs)
    case (Cons x xs)
    then have "set (List.map_filter g xs) \<subseteq> set (List.map_filter f xs)" "distinct (List.map_filter g xs)"
      by (auto simp: List.map_filter_simps split: option.splits)
    moreover have "g x = None \<or> g x = f x" using Cons.prems(2) by simp
    ultimately show ?case
      using Cons.prems(1) by (auto simp: List.map_filter_simps split: option.splits)
  qed (simp add: List.map_filter_simps)
  then show ?thesis ..
qed

lemma distinct_map_mapped:
  assumes "distinct (map k xs)" and "\<And>x. k (g x) = k x"
  shows "distinct (map k (map g (filter P xs)))"
  using assms by (simp add: comp_def distinct_map_filter)

text \<open>The Runs that a deletion removes, and its effect on each table.\<close>

definition runs_of :: "db \<Rightarrow> thread \<Rightarrow> string set" where
  "runs_of d t = r_id ` {r \<in> set (db_runs d). r_thread r = th_id t}"

definition unlink :: "string set \<Rightarrow> message \<Rightarrow> message" where
  "unlink gone m = (if (\<exists>r \<in> gone. m_run m = Some r) then m\<lparr>m_run := None\<rparr> else m)"

lemma unlink_simps [simp]:
  "m_id (unlink g m) = m_id m" "m_thread (unlink g m) = m_thread m"
  "m_sequence (unlink g m) = m_sequence m" "m_client_id (unlink g m) = m_client_id m"
  "m_type (unlink g m) = m_type m"
  by (simp_all add: unlink_def)

lemma unlink_run: "rid \<notin> g \<Longrightarrow> m_run (unlink g m) = Some rid \<longleftrightarrow> m_run m = Some rid"
  by (auto simp: unlink_def)

lemma remove_thread_simps [simp]:
  "db_users (remove_thread t d) = db_users d"
  "db_threads (remove_thread t d) = filter (\<lambda>x. th_id x \<noteq> th_id t) (db_threads d)"
  "db_messages (remove_thread t d) =
     map (unlink (runs_of d t)) (filter (\<lambda>m. m_thread m \<noteq> th_id t) (db_messages d))"
  "db_runs (remove_thread t d) = filter (\<lambda>r. r_thread r \<noteq> th_id t) (db_runs d)"
  "db_events (remove_thread t d) = filter (\<lambda>ev. e_run ev \<notin> runs_of d t) (db_events d)"
  "db_checkpoints (remove_thread t d) =
     filter (\<lambda>c. c_run c \<notin> runs_of d t \<and> c_thread c \<noteq> th_id t) (db_checkpoints d)"
  "seq_thread (remove_thread t d) = seq_thread d" "seq_message (remove_thread t d) = seq_message d"
  "seq_checkpoint (remove_thread t d) = seq_checkpoint d"
  by (simp_all add: remove_thread_def runs_of_def unlink_def Let_def cong: map_cong)

lemma remove_thread_audits: "audits_ok (db_audits d) \<Longrightarrow> audits_ok (db_audits (remove_thread t d))"
proof -
  assume ok: "audits_ok (db_audits d)"
  have filt: "List.map_filter f (map g xs) = List.map_filter (\<lambda>x. f (g x)) xs"
    for f :: "tool_audit \<Rightarrow> 'c option" and g :: "tool_audit \<Rightarrow> tool_audit" and xs
    by (induction xs) (auto simp: List.map_filter_simps split: option.splits)
  show ?thesis
    using ok unfolding audits_ok_def remove_thread_def Let_def
    by (simp add: filt) (erule distinct_map_filter_sub, auto)
qed

lemma remove_thread_run:
  assumes inv: "run_inv d" and r: "r \<in> set (db_runs d)" "r_thread r \<noteq> th_id t"
  shows "r_id r \<notin> runs_of d t" and "run_log (remove_thread t d) (r_id r) = run_log d (r_id r)"
proof -
  have keys: "distinct (map r_id (db_runs d))"
    using inv by (simp add: run_inv_def tables_inv_keys(1))
  show out: "r_id r \<notin> runs_of d t"
    using distinct_key_unique [OF keys r(1)] r(2) by (auto simp: runs_of_def)
  then show "run_log (remove_thread t d) (r_id r) = run_log d (r_id r)"
    by (auto simp: run_log_def intro!: filter_cong)
qed

lemma remove_thread_struct:
  assumes inv: "run_inv d"
  shows "struct_ok (db_users d) (db_threads (remove_thread t d)) (db_messages (remove_thread t d))
    (db_runs (remove_thread t d)) (seq_thread d) (seq_message d)"
proof -
  have st: "struct_ok (db_users d) (db_threads d) (db_messages d) (db_runs d) (seq_thread d) (seq_message d)"
    using inv by (simp add: run_inv_def tables_inv_def)
  let ?u = "unlink (runs_of d t)"
  let ?ms = "db_messages (remove_thread t d)"
  let ?ts = "db_threads (remove_thread t d)"
  have counts: "thread_counts ?ms x" if "x \<in> set ?ts" for x
  proof -
    have "map m_sequence (thread_messages ?ms (th_id x)) = map m_sequence (thread_messages (db_messages d) (th_id x))"
      using that by (auto simp: thread_messages_def filter_map comp_def intro!: arg_cong [where f = "map m_sequence"] filter_cong)
    then show ?thesis
      using st that by (simp add: struct_ok_def thread_counts_def)
  qed
  have links: "run_links (db_users d) ?ts ?ms r" if "r \<in> set (db_runs (remove_thread t d))" for r
  proof -
    have r: "r \<in> set (db_runs d)" "r_thread r \<noteq> th_id t" using that by simp_all
    have l: "run_links (db_users d) (db_threads d) (db_messages d) r"
      using st r(1) by (simp add: struct_ok_def)
    have "?u m \<in> set ?ms \<and> m_run (?u m) = Some (r_id r)"
      if "m \<in> set (db_messages d)" "m_thread m = r_thread r" "m_run m = Some (r_id r)" for m
      using that r(2) unlink_run [OF remove_thread_run(1) [OF inv r]] by auto
    then show ?thesis
      using l r(2) unfolding run_links_def by (simp, metis unlink_simps(1,2,5))
  qed
  have msgs: "messages_ok ?ms"
  proof -
    have ok: "messages_ok (db_messages d)" using st by (simp add: struct_ok_def)
    have filt: "List.map_filter f (map g xs) = List.map_filter (\<lambda>x. f (g x)) xs"
      for f :: "message \<Rightarrow> 'c option" and g :: "message \<Rightarrow> message" and xs
      by (induction xs) (auto simp: List.map_filter_simps split: option.splits)
    show ?thesis
      using ok distinct_map_mapped [of "\<lambda>m. (m_thread m, m_sequence m)" "db_messages d" ?u]
      by (auto simp: messages_ok_def filt map_filter_filter comp_def elim!: distinct_map_filter_sub)
  qed
  have asst: "distinct (List.map_filter r_assistant_message (db_runs (remove_thread t d)))"
    using st by (auto simp: struct_ok_def map_filter_filter elim!: distinct_map_filter_sub)
  have owners: "\<forall>m \<in> set ?ms. \<exists>x \<in> set ?ts. th_id x = m_thread m"
    using st by (fastforce simp: struct_ok_def)
  show ?thesis
    unfolding struct_ok_def
    using st counts links msgs asst owners distinct_map_mapped [of m_id "db_messages d" ?u]
    by (simp add: struct_ok_def threads_ok_def idempotency_unique_def distinct_map_filter)
qed

lemma remove_thread_inv:
  assumes inv: "run_inv d"
  shows "run_inv (remove_thread t d)"
proof -
  have ok: "run_ok d r" if "r \<in> set (db_runs d)" for r
    using inv that by (simp add: run_inv_def tables_inv_def)
  have "run_ok (remove_thread t d) r" if "r \<in> set (db_runs (remove_thread t d))" for r
    using that ok remove_thread_run(2) [OF inv, of r t] by (simp add: run_ok_def log_of_def)
  moreover have "\<exists>r \<in> set (db_runs (remove_thread t d)). r_id r = e_run ev"
    if "ev \<in> set (db_events (remove_thread t d))" for ev
  proof -
    have "\<exists>r \<in> set (db_runs d). r_id r = e_run ev"
      using inv that by (simp add: run_inv_def tables_inv_def)
    then show ?thesis using that by (force simp: runs_of_def)
  qed
  moreover have "events_ok (db_events (remove_thread t d))"
    using inv by (simp add: run_inv_def tables_inv_def events_ok_def distinct_map_filter)
  moreover have "checkpoints_ok (db_checkpoints (remove_thread t d))"
    using inv
    by (auto simp: run_inv_def tables_inv_def checkpoints_ok_def distinct_map_filter map_filter_filter
        elim!: distinct_map_filter_sub)
  moreover have "one_active_per_thread (db_runs (remove_thread t d))"
    using inv by (simp add: run_inv_def one_active_per_thread_def filter_filter)
      (metis (no_types, lifting) conj_commute distinct_map_filter filter_cong filter_filter)
  ultimately show ?thesis
    using inv remove_thread_struct [OF inv] remove_thread_audits
    by (simp add: run_inv_def tables_inv_def distinct_map_filter)
qed

lemma delete_thread_inv:
  assumes inv: "run_inv d"
  shows "delete_thread username tid d \<noteq> Inl IntegrityError"
    and "delete_thread username tid d = Inr (x, d') \<Longrightarrow> run_inv d'"
proof -
  have "run_inv (remove_thread t d)" for t by (rule remove_thread_inv [OF inv])
  then have c: "commit True (remove_thread t d) = Inr (True, remove_thread t d)" for t
    by (rule commit_inv)
  show "delete_thread username tid d \<noteq> Inl IntegrityError"
    by (simp add: delete_thread_def c split: option.splits)
  show "delete_thread username tid d = Inr (x, d') \<Longrightarrow> run_inv d'"
    using inv remove_thread_inv [OF inv] by (auto simp: delete_thread_def c split: option.splits)
qed

end
