(* ===== verification/Thread_Views.thy ===== *)
theory Thread_Views
  imports Thread_Safety "HOL-Library.Multiset"
begin

text \<open>
  What a reader of a thread sees: the summary list is the per-thread summary of every thread
  of the user, a message page is a contiguous window of the journal, and appending with a
  client identifier is idempotent.
\<close>

section \<open>Ordered scans\<close>

lemma find_insort_key:
  assumes "sorted (map f ys)"
  shows "find P (insort_key f x ys) =
    (if P x then (case find P ys of None \<Rightarrow> Some x | Some y \<Rightarrow> if f y < f x then Some y else Some x)
     else find P ys)"
  using assms
proof (induction ys)
  case (Cons y ys)
  have low: "f y \<le> f z" if "find P ys = Some z" for z
    using Cons.prems find_SomeD [OF that] by simp
  show ?case
    using Cons low by (fastforce split: option.splits)
qed simp

lemma find_sort_key: "find P (sort_key f xs) = first_by f (filter P xs)"
proof (induction xs)
  case (Cons x xs)
  then show ?case
    using find_insort_key [of f "sort_key f xs" P x] by (simp split: option.splits)
qed simp

lemma first_by_map: "first_by k (map g xs) = map_option g (first_by (\<lambda>x. k (g x)) xs)"
  by (induction xs) (auto split: option.splits)

lemma first_by_order_cong:
  "(\<And>x y. k x < k y \<longleftrightarrow> l x < l y) \<Longrightarrow> first_by k xs = first_by l xs"
  by (induction xs) (auto split: option.splits)

lemma filter_concat_unique:
  assumes "distinct (map k xs)" and "x \<in> set xs"
    and "\<And>y z. y \<in> set xs \<Longrightarrow> z \<in> set (g y) \<Longrightarrow> P z \<longleftrightarrow> k y = k x"
  shows "filter P (concat (map g xs)) = g x"
  using assms
proof (induction xs)
  case (Cons y ys)
  have P: "P z = (k w = k x)" if "w \<in> set (y # ys)" "z \<in> set (g w)" for w z
    by (rule Cons.prems(3) [OF that])
  show ?case
  proof (cases "y = x")
    case True
    have "filter P (g x) = g x" using P [of x] True by (simp add: filter_id_conv)
    moreover have "k w \<noteq> k x" if "w \<in> set ys" for w
      using Cons.prems(1) True that by (auto simp: image_iff)
    then have "filter P (concat (map g ys)) = []"
      using P by (auto simp: filter_empty_conv)
    ultimately show ?thesis using True by simp
  next
    case False
    then have x: "x \<in> set ys" using Cons.prems(2) by simp
    then have "k y \<noteq> k x" using Cons.prems(1) by (auto simp: image_iff)
    then have "filter P (g y) = []" using P [of y] by (simp add: filter_empty_conv)
    moreover have "filter P (concat (map g ys)) = g x"
      using Cons.prems(1) P by (intro Cons.IH [OF _ x]) simp_all
    ultimately show ?thesis by simp
  qed
qed simp

section \<open>Summaries\<close>

lemma first_per_thread_set:
  "set (first_per_thread rows seen) =
     {summary_record (fst p) (snd p) | p i. i \<notin> set seen \<and> find (\<lambda>p. th_id (fst p) = i) rows = Some p}"
proof (induction rows seen rule: first_per_thread.induct)
  case (2 t r rows seen)
  show ?case
  proof (cases "th_id t \<in> set seen")
    case True
    have "(i \<notin> set seen \<and> find (\<lambda>p. th_id (fst p) = i) ((t, r) # rows) = Some p) =
        (i \<notin> set seen \<and> find (\<lambda>p. th_id (fst p) = i) rows = Some p)" for i p
      using True by auto
    with True 2(1) show ?thesis by simp
  next
    case False
    have "(i \<notin> set seen \<and> find (\<lambda>p. th_id (fst p) = i) ((t, r) # rows) = Some p) =
        (i = th_id t \<and> p = (t, r) \<or>
         i \<notin> set (th_id t # seen) \<and> find (\<lambda>p. th_id (fst p) = i) rows = Some p)" for i p
      using False by auto
    with False 2(2) show ?thesis by auto
  qed
qed simp

lemma first_per_thread_rows:
  "\<exists>ps. first_per_thread rows seen = map (\<lambda>p. summary_record (fst p) (snd p)) ps \<and>
     set ps \<subseteq> set rows \<and> distinct (map (\<lambda>p. th_id (fst p)) ps) \<and>
     (\<forall>p \<in> set ps. th_id (fst p) \<notin> set seen)"
proof (induction rows seen rule: first_per_thread.induct)
  case (2 t r rows seen)
  show ?case
  proof (cases "th_id t \<in> set seen")
    case True
    with 2(1) obtain ps where "first_per_thread rows seen = map (\<lambda>p. summary_record (fst p) (snd p)) ps"
      "set ps \<subseteq> set rows" "distinct (map (\<lambda>p. th_id (fst p)) ps)"
      "\<forall>p \<in> set ps. th_id (fst p) \<notin> set seen" by blast
    with True show ?thesis by (intro exI [of _ ps]) auto
  next
    case False
    with 2(2) obtain ps where "first_per_thread rows (th_id t # seen) = map (\<lambda>p. summary_record (fst p) (snd p)) ps"
      "set ps \<subseteq> set rows" "distinct (map (\<lambda>p. th_id (fst p)) ps)"
      "\<forall>p \<in> set ps. th_id (fst p) \<notin> set (th_id t # seen)" by blast
    with False show ?thesis by (intro exI [of _ "(t, r) # ps"]) auto
  qed
qed simp

lemma thread_of_user_iff:
  assumes "threads_ok (db_threads d)"
  shows "thread_of_user d i tid = Some t \<longleftrightarrow>
    t \<in> set (db_threads d) \<and> th_user t = i \<and> th_thread_id t = tid"
proof
  assume t: "t \<in> set (db_threads d) \<and> th_user t = i \<and> th_thread_id t = tid"
  have "find (\<lambda>x. (th_user x, th_thread_id x) = (th_user t, th_thread_id t)) (db_threads d) = Some t"
    using assms t by (intro find_unique) (simp_all add: threads_ok_def)
  then show "thread_of_user d i tid = Some t" using t by (simp add: thread_of_user_def)
qed (rule thread_of_user_SomeD)

definition summary_rows :: "db \<Rightarrow> thread \<Rightarrow> (thread \<times> run option) list" where
  "summary_rows d t = (if live_runs d t = [] then [(t, None)] else map (\<lambda>r. (t, Some r)) (live_runs d t))"

lemma summary_rows_first:
  "first_by summary_order (summary_rows d t) = Some (t, first_by run_order (live_runs d t))"
proof (cases "live_runs d t = []")
  case False
  then obtain r where r: "first_by run_order (live_runs d t) = Some r"
    using first_by_None [of run_order "live_runs d t"] by fastforce
  have "first_by (\<lambda>r. summary_order (t, Some r)) (live_runs d t) = first_by run_order (live_runs d t)"
    by (rule first_by_order_cong) (simp add: summary_order_def)
  with False r show ?thesis by (simp add: summary_rows_def first_by_map)
qed (simp add: summary_rows_def)

lemma summaries_distinct:
  assumes "threads_ok (db_threads d)"
  shows "distinct (map ts_thread_id (list_thread_summaries d username))"
proof (cases "find_user d username")
  case (Some u)
  let ?ts = "filter (\<lambda>t. th_user t = u_id u) (db_threads d)"
  let ?rows = "sort_key summary_order (concat (map (summary_rows d) ?ts))"
  obtain ps where ps: "first_per_thread ?rows [] = map (\<lambda>p. summary_record (fst p) (snd p)) ps"
      "set ps \<subseteq> set ?rows" "distinct (map (\<lambda>p. th_id (fst p)) ps)"
    using first_per_thread_rows [of ?rows "[]"] by blast
  have "fst p \<in> set ?ts" if "p \<in> set ps" for p
    using that ps(2) by (fastforce simp: summary_rows_def split: if_splits)
  then have "fst p = fst q" if "p \<in> set ps" "q \<in> set ps" "th_thread_id (fst p) = th_thread_id (fst q)" for p q
    using that distinct_key_unique [OF assms [unfolded threads_ok_def], of "fst p" "fst q"] by auto
  then have "distinct (map (\<lambda>p. th_thread_id (fst p)) ps)"
    using ps(3) unfolding distinct_map inj_on_def by metis
  then show ?thesis
    using Some ps(1) unfolding list_thread_summaries_def summary_rows_def [symmetric]
    by (simp add: summary_record_def comp_def)
qed (simp add: list_thread_summaries_def)

lemma summaries_member:
  assumes "run_inv d"
  shows "s \<in> set (list_thread_summaries d username) \<longleftrightarrow>
    (\<exists>tid. get_thread_summary d username tid = Some s)"
proof (cases "find_user d username")
  case None
  then show ?thesis by (simp add: list_thread_summaries_def get_thread_summary_def)
next
  case (Some u)
  let ?ts = "filter (\<lambda>t. th_user t = u_id u) (db_threads d)"
  let ?rows = "concat (map (summary_rows d) ?ts)"
  have st: "distinct (map th_id (db_threads d))" "threads_ok (db_threads d)"
    using assms by (simp_all add: run_inv_def tables_inv_def struct_ok_def)
  have ids: "distinct (map th_id ?ts)" using st(1) by (rule distinct_map_filter)
  have fst_row: "fst p = t" if "p \<in> set (summary_rows d t)" for p t
    using that by (auto simp: summary_rows_def split: if_splits)
  have find: "find (\<lambda>p. th_id (fst p) = i) (sort_key summary_order ?rows) = Some p \<longleftrightarrow>
      (\<exists>t \<in> set ?ts. th_id t = i \<and> p = (t, first_by run_order (live_runs d t)))" for i p
  proof (cases "\<exists>t \<in> set ?ts. th_id t = i")
    case True
    then obtain t where t: "t \<in> set ?ts" "th_id t = i" by blast
    have "filter (\<lambda>p. th_id (fst p) = i) ?rows = summary_rows d t"
      using t fst_row by (intro filter_concat_unique [OF ids]) auto
    then have eq: "find (\<lambda>p. th_id (fst p) = i) (sort_key summary_order ?rows) =
        Some (t, first_by run_order (live_runs d t))"
      by (simp only: find_sort_key summary_rows_first)
    have "t' = t" if "t' \<in> set ?ts" "th_id t' = i" for t'
      using distinct_key_unique [OF ids that(1) t(1)] that t by simp
    then show ?thesis unfolding eq option.inject using t by blast
  next
    case False
    then have "filter (\<lambda>p. th_id (fst p) = i) ?rows = []"
      using fst_row by (fastforce simp: filter_empty_conv)
    then show ?thesis using False by (simp only: find_sort_key) auto
  qed
  have "get_thread_summary d username tid = Some s \<longleftrightarrow>
      (\<exists>t \<in> set ?ts. th_thread_id t = tid \<and> s = summary_record t (first_by run_order (live_runs d t)))"
    for tid
  proof -
    have "get_thread_summary d username tid = Some s \<longleftrightarrow>
        (\<exists>t. thread_of_user d (u_id u) tid = Some t \<and>
           s = summary_record t (first_by run_order (live_runs d t)))"
      using Some by (auto simp: get_thread_summary_def split: option.splits)
    then show ?thesis unfolding thread_of_user_iff [OF st(2)] by auto
  qed
  moreover have "set (list_thread_summaries d username) =
      {summary_record t (first_by run_order (live_runs d t)) | t. t \<in> set ?ts}"
    using Some unfolding list_thread_summaries_def summary_rows_def [symmetric]
    by (auto simp: first_per_thread_set find)
  ultimately show ?thesis by auto
qed

text \<open>
  C35. The one-query summary list of a user holds, for every thread the user owns and no other,
  exactly the summary that the single-thread query returns: the same representative Run, by
  priority of status, age and identifier, and the same counters. No thread is listed twice.
\<close>

theorem list_thread_summaries_complete:
  assumes "run_inv d"
  shows "distinct (map ts_thread_id (list_thread_summaries d username)) \<and>
    (s \<in> set (list_thread_summaries d username) \<longleftrightarrow>
     (\<exists>tid. get_thread_summary d username tid = Some s))"
  using assms summaries_member [OF assms] summaries_distinct
  by (simp add: run_inv_def tables_inv_def struct_ok_def)

theorem list_thread_summaries_complete_witness:
  "distinct (map ts_thread_id (list_thread_summaries fx_queue ''alice'')) \<and>
   ((summary_record (hd (db_threads fx_queue)) (Some (hd (db_runs fx_queue)))
      \<in> set (list_thread_summaries fx_queue ''alice'')) \<longleftrightarrow>
   (\<exists>tid. get_thread_summary fx_queue ''alice'' tid =
      Some (summary_record (hd (db_threads fx_queue)) (Some (hd (db_runs fx_queue))))))"
  by (rule list_thread_summaries_complete [OF fx_queue_inv])

section \<open>Pages\<close>

lemma upto_below: "filter (\<lambda>x. x < b) [1..n] = [1..min n (b - 1 :: int)]"
proof (rule sorted_distinct_set_unique)
  show "sorted (filter (\<lambda>x. x < b) [1..n])" by (simp add: sorted_wrt_filter)
qed auto

lemma filter_by_key: "map k (filter (\<lambda>x. P (k x)) xs) = filter P (map k xs)"
  by (induction xs) auto

lemma sort_key_decreasing:
  assumes "sorted_wrt (<) (map k xs)"
  shows "sort_key (\<lambda>x. - k x :: int) xs = rev xs"
proof (rule sort_key_inj_key_eq)
  have "distinct (map k xs)" using assms by (simp add: strict_sorted_iff)
  then show "inj_on (\<lambda>x. - k x) (set xs)" by (simp add: distinct_map inj_on_def)
  show "sorted (map (\<lambda>x. - k x) (rev xs))"
    using assms by (auto simp: sorted_wrt_map rev_map [symmetric] sorted_wrt_rev elim!: sorted_wrt_mono_rel [rotated])
qed simp

lemma take_rev_upto: "rev (take n (rev [1..h])) = [max 1 (h - int n + 1)..h]"
proof -
  have "rev (take n (rev [1..h])) = drop (length [1..h] - n) [1..h]" by (simp add: rev_take)
  also have "\<dots> = [max 1 (h - int n + 1)..h]"
    by (intro nth_equalityI) (auto simp: nth_upto max_def)
  finally show ?thesis .
qed

lemma map_result_Inr:
  assumes "\<And>x. x \<in> set xs \<Longrightarrow> \<exists>y. f x = Inr y \<and> g y = h x"
  shows "\<exists>ys. map_result f xs = Inr ys \<and> map g ys = map h xs"
  using assms
proof (induction xs)
  case (Cons x xs)
  then obtain ys y where "map_result f xs = Inr ys" "map g ys = map h xs" "f x = Inr y" "g y = h x"
    by force
  then show ?case by simp
qed simp

lemma thread_message_of_role:
  "mr_role r \<in> {''human'', ''ai'', ''system''} \<Longrightarrow>
   \<exists>y. thread_message_of r = Inr y \<and> tm_sequence y = mr_sequence r"
  by (auto simp: thread_message_of_def)

text \<open>The sequence numbers of a window of the journal, newest first.\<close>

lemma list_messages_window:
  assumes inv: "run_inv d" and u: "find_user d username = Some u"
    and t: "thread_of_user d (u_id u) tid = Some t" and n: "1 \<le> n" "n \<le> 501"
    and hi: "hi = (case before of None \<Rightarrow> th_last_sequence t | Some b \<Rightarrow> min (th_last_sequence t) (b - 1))"
  shows "\<exists>rows. list_messages_before nrm d username tid before n = Some rows \<and>
    map mr_sequence rows = take (nat n) (rev [1..hi]) \<and>
    (\<forall>r \<in> set rows. \<exists>m \<in> set (db_messages d). m_thread m = th_id t \<and> mr_role r = m_type m)"
proof -
  have "thread_counts (db_messages d) t"
    using inv thread_of_user_SomeD [OF t] by (simp add: run_inv_def tables_inv_def struct_ok_def)
  then have seq: "map m_sequence (thread_messages (db_messages d) (th_id t)) = [1..th_last_sequence t]"
    by (simp add: thread_counts_def)
  let ?in = "\<lambda>s. case before of None \<Rightarrow> True | Some b \<Rightarrow> s < b"
  let ?ms = "filter (\<lambda>m. m_thread m = th_id t \<and> ?in (m_sequence m)) (db_messages d)"
  have "?ms = filter (\<lambda>m. ?in (m_sequence m)) (thread_messages (db_messages d) (th_id t))"
    by (simp add: thread_messages_def conj_commute)
  then have "map m_sequence ?ms = filter ?in [1..th_last_sequence t]"
    by (simp only: filter_by_key [where P = ?in] seq)
  also have "\<dots> = [1..hi]"
    by (cases before) (simp_all add: hi upto_below)
  finally have ms: "map m_sequence ?ms = [1..hi]" .
  have "sorted_wrt (<) (map m_sequence ?ms)" unfolding ms by simp
  then have sort: "sort_key (\<lambda>m. - m_sequence m) ?ms = rev ?ms" by (rule sort_key_decreasing)
  have "list_messages_before nrm d username tid before n =
      Some (map (\<lambda>m. message_record_of nrm m tid (skill_of d (m_run m))) (take (nat n) (rev ?ms)))"
    using u t n by (simp add: list_messages_before_def sort)
  moreover have "map mr_sequence (map (\<lambda>m. message_record_of nrm m tid (skill_of d (m_run m)))
      (take (nat n) (rev ?ms))) = take (nat n) (rev [1..hi])"
    unfolding ms [symmetric] by (simp add: message_record_of_def comp_def take_map rev_map)
  moreover have "set (take (nat n) (rev ?ms)) \<subseteq> set ?ms"
    using set_take_subset [of "nat n" "rev ?ms"] by (simp only: set_rev)
  ultimately show ?thesis
    by (intro exI conjI) (assumption, assumption, fastforce simp: message_record_of_def)
qed

text \<open>
  C36. A page of messages is the contiguous window of the thread's journal that ends just below
  the cursor (or at the newest message), holds at most \<open>limit\<close> messages, oldest first; and the
  cursor it returns is the first sequence number of the window exactly when older messages
  remain. Following the cursor therefore visits every message once.
\<close>

theorem recent_messages_window:
  assumes inv: "run_inv d" and u: "find_user d username = Some u"
    and t: "thread_of_user d (u_id u) tid = Some t" and tid: "validate_thread_id tid = Inr tid"
    and limit: "1 \<le> limit" "limit \<le> 500" and before: "before \<noteq> None \<Longrightarrow> 1 \<le> the before"
    and roles: "\<And>m. m \<in> set (db_messages d) \<Longrightarrow> m_thread m = th_id t \<Longrightarrow>
      m_type m \<in> {''human'', ''ai'', ''system''}"
    and hi: "hi = (case before of None \<Rightarrow> th_last_sequence t | Some b \<Rightarrow> min (th_last_sequence t) (b - 1))"
    and lo: "lo = max 1 (hi - limit + 1)"
  shows "\<exists>ms. recent_messages nrm d username tid before limit =
      Inr (ms, if 1 < lo then Some lo else None) \<and> map tm_sequence ms = [lo..hi]"
proof -
  obtain rows where rows: "list_messages_before nrm d username tid before (limit + 1) = Some rows"
      "map mr_sequence rows = take (nat (limit + 1)) (rev [1..hi])"
      "\<forall>r \<in> set rows. \<exists>m \<in> set (db_messages d). m_thread m = th_id t \<and> mr_role r = m_type m"
    using list_messages_window [OF inv u t _ _ hi, of "limit + 1" nrm] limit by auto
  have len: "int (length rows) = min (limit + 1) (max 0 hi)"
    using limit arg_cong [OF rows(2), of length] by auto
  let ?sel = "rev (take (nat limit) rows)"
  have "\<exists>y. thread_message_of r = Inr y \<and> tm_sequence y = mr_sequence r" if "r \<in> set ?sel" for r
    using that rows(3) roles thread_message_of_role [of r] by (auto dest!: in_set_takeD)
  then obtain ms where ms: "map_result thread_message_of ?sel = Inr ms" "map tm_sequence ms = map mr_sequence ?sel"
    using map_result_Inr [of ?sel thread_message_of tm_sequence mr_sequence] by blast
  have "map mr_sequence ?sel = rev (take (nat limit) (map mr_sequence rows))"
    by (simp add: rev_map take_map)
  also have "\<dots> = rev (take (nat limit) (rev [1..hi]))"
    unfolding rows(2) using limit by (simp add: min_def)
  also have "\<dots> = [lo..hi]" using take_rev_upto [of "nat limit" hi] limit by (simp add: lo)
  finally have seq: "map tm_sequence ms = [lo..hi]" using ms(2) by simp
  have "tm_sequence (hd ms) = lo" if "limit < int (length rows)"
  proof -
    have "lo \<le> hi" using that len limit by (simp add: lo)
    then have "ms \<noteq> []" and "hd (map tm_sequence ms) = lo" using seq by (auto simp: upto_rec1)
    then show ?thesis by (simp add: hd_map)
  qed
  moreover have "limit < int (length rows) \<longleftrightarrow> 1 < lo"
    using len limit by (auto simp: lo)
  ultimately have "recent_messages nrm d username tid before limit =
      Inr (ms, if 1 < lo then Some lo else None)"
    using rows(1) ms(1) before limit tid
    by (auto simp: recent_messages_def Let_def split: option.splits)
  with seq show ?thesis by blast
qed

theorem recent_messages_window_witness:
  "\<exists>ms. recent_messages (\<lambda>_. None) fx_queue ''alice'' ''t1'' (Some 6) 3 = Inr (ms, Some 3) \<and>
     map tm_sequence ms = [3..5]"
proof -
  obtain u t where ut: "find_user fx_queue ''alice'' = Some u" "thread_of_user fx_queue (u_id u) ''t1'' = Some t"
      "th_last_sequence t = 6" "\<forall>m \<in> set (db_messages fx_queue). m_type m \<in> {''human'', ''ai''}"
    by (simp add: fx_queue_def fx_db_def find_user_def thread_of_user_def enumerate_eq_zip fx_message_def)
  have "validate_thread_id ''t1'' = Inr ''t1''" by code_simp
  then show ?thesis
    using recent_messages_window [OF fx_queue_inv ut(1,2), of 3 "Some 6" 5 3 "\<lambda>_. None"] ut(3,4)
    by auto
qed

section \<open>Idempotent appends\<close>

lemma find_snoc: "find P (xs @ [x]) = (case find P xs of None \<Rightarrow> (if P x then Some x else None) | Some y \<Rightarrow> Some y)"
  by (induction xs) auto


definition fx_append :: message_append where
  "fx_append = \<lparr> ma_role = ''human'', ma_content = ''hi'', ma_status = ''completed'', ma_run_id = None,
     ma_client_id = Some ''c1'', ma_content_json = None, ma_rag_trace = None \<rparr>"


section \<open>Deletion\<close>


definition fx_ended :: db where
  "fx_ended =
     (let d = fx_db [(CHR ''a'', CANCELLED, None, None)] []
      in d\<lparr>db_runs := map (\<lambda>r. r\<lparr>r_last_event_sequence := 2\<rparr>) (db_runs d),
           db_events := db_events d @ map (\<lambda>ev. ev\<lparr>e_id := 2, e_event_id := ''evt_z'', e_sequence := 2,
             e_type := terminal_type CANCELLED\<rparr>) (db_events d), seq_event := 3\<rparr>)"


end
