(* ===== verification/Run_System.thy ===== *)
theory Run_System
  imports Checkpoint_Safety Thread_Views
begin

text \<open>
  The run tables as a transition system. A \<open>run_step\<close> is one committed transaction of the run
  repository, the event journal, the checkpoint runner or the thread repository, with an
  environment whose \<open>uuid4\<close> draws are fresh; a \<open>sys_step\<close> is a \<open>run_step\<close> or the deletion of a
  thread. A transaction that raises commits nothing and is not a step. Executors journal
  non-terminal events with their worker and fencing token; the terminal event is written by
  \<open>finalize\<close> alone.
\<close>

section \<open>Steps\<close>

inductive run_step :: "db \<Rightarrow> db \<Rightarrow> bool" where
  reserve: "fresh_env e d \<Longrightarrow> snapshot_ok a \<Longrightarrow> reserve e a d = Inr (x, d') \<Longrightarrow> run_step d d'"
| claim: "fresh_env e d \<Longrightarrow> claim e rid worker lease d = Inr (x, d') \<Longrightarrow> run_step d d'"
| heartbeat: "fresh_env e d \<Longrightarrow> heartbeat e rid worker fence lease d = Inr (x, d') \<Longrightarrow> run_step d d'"
| waiting: "fresh_env e d \<Longrightarrow> set_waiting_input e rid worker fence d = Inr (x, d') \<Longrightarrow> run_step d d'"
| cancelling: "fresh_env e d \<Longrightarrow> mark_cancelling e username rid d = Inr (x, d') \<Longrightarrow> run_step d d'"
| finalize: "fresh_env e d \<Longrightarrow> finalize e f d = Inr (x, d') \<Longrightarrow> run_step d d'"
| pin_skill: "fresh_env e d \<Longrightarrow>
    pin_skill_activation e rid worker fence name version hash source d = Inr (x, d') \<Longrightarrow> run_step d d'"
| audit: "record_tool_audit rid worker fence aa d = Inr (y, d') \<Longrightarrow> run_step d d'"
| journal: "fresh_env e d \<Longrightarrow> \<not> terminal_event ty \<Longrightarrow>
    journal_append e rid ty data (Some worker) (Some fence) d = Inr (ev, d') \<Longrightarrow> run_step d d'"
| outbox: "run_step d (mark_outbox_published e oid d)"
| pause: "fresh_env e d \<Longrightarrow> record_pause e pa d = Inr (cp, d') \<Longrightarrow> run_step d d'"
| resume: "fresh_env e d \<Longrightarrow> consume_resume preflight e rm d = Inr (cr, d') \<Longrightarrow> run_step d d'"
| resume_result: "record_resume_result e rid cid worker fence state d = Inr (z, d') \<Longrightarrow> run_step d d'"
| append: "fresh_env e d \<Longrightarrow> append_message nrm e username tid m expected metadata d = Inr (mr, d') \<Longrightarrow>
    run_step d d'"
| finalize_message: "finalize_message nrm e username tid mid content status trace d = Inr (mr, d') \<Longrightarrow>
    run_step d d'"
| create_thread: "fresh_env e d \<Longrightarrow> create_thread e username tid title d = Inr (y, d') \<Longrightarrow> run_step d d'"
| add_user: "run_step d (d\<lparr>db_users := db_users d @ [u]\<rparr>)"

inductive sys_step :: "db \<Rightarrow> db \<Rightarrow> bool" where
  run: "run_step d d' \<Longrightarrow> sys_step d d'"
| delete: "delete_thread username tid d = Inr (b, d') \<Longrightarrow> sys_step d d'"

inductive reachable :: "db \<Rightarrow> bool" where
  init: "reachable empty_db"
| step: "reachable d \<Longrightarrow> sys_step d d' \<Longrightarrow> reachable d'"

section \<open>The invariant holds in every reachable state\<close>

lemma safe_txD: "safe_tx d res \<Longrightarrow> res = Inr (x, d') \<Longrightarrow> run_inv d' \<and> evolves d d'"
  by simp

lemma commit_Inr: "commit x d = Inr (y, d') \<longleftrightarrow> integrity d \<and> y = x \<and> d' = d"
  by (auto simp: commit_def)

lemma same_logs_evolves:
  assumes "db_runs d' = db_runs d" and "db_events d' = db_events d" and "parents_kept d d'"
  shows "evolves d d'"
proof -
  have "run_log d' = run_log d" by (simp add: run_log_def fun_eq_iff assms(2))
  then have "run_evolves d d' r r" for r by (simp add: run_evolves_def)
  then show ?thesis unfolding evolves_def assms(1) using assms(3) by blast
qed

lemma outbox_step: "run_inv (mark_outbox_published e oid d) = run_inv d"
  by (simp add: mark_outbox_published_def run_inv_def tables_inv_def run_ok_def log_of_def run_log_def)

lemma add_user_step:
  assumes "run_inv d"
  shows "run_inv (d\<lparr>db_users := db_users d @ [u]\<rparr>)"
proof -
  have "run_links (us @ [u]) ts ms r" if "run_links us ts ms r" for us ts ms r
    using that unfolding run_links_def by auto
  then have "struct_ok (us @ [u]) ts ms rs a b" if "struct_ok us ts ms rs a b" for us ts ms rs a b
    using that unfolding struct_ok_def by blast
  then show ?thesis
    using run_inv_struct(1) [OF assms, of "d\<lparr>db_users := db_users d @ [u]\<rparr>"] assms
    by (simp add: run_inv_def tables_inv_def parents_kept_def)
qed

lemmas step_safe = reserve_safe claim_safe heartbeat_safe set_waiting_input_safe mark_cancelling_safe
  pin_skill_activation_safe record_tool_audit_safe journal_append_safe record_pause_safe
  consume_resume_safe record_resume_result_safe append_message_safe finalize_message_safe
  create_thread_safe

lemma run_step_safe:
  assumes "run_inv d" and "run_step d d'"
  shows "run_inv d' \<and> evolves d d'"
  using assms(2,1)
proof cases
  case (finalize e f x)
  then show ?thesis using finalize_cases [OF assms(1), of e f] by auto
next
  case (outbox e oid)
  then show ?thesis
    using assms(1) outbox_step by (auto intro!: same_logs_evolves simp: mark_outbox_published_def parents_kept_def)
next
  case (add_user u)
  then show ?thesis using add_user_step [OF assms(1)] by (auto intro!: same_logs_evolves simp: parents_kept_def)
qed (erule safe_txD [rotated], rule step_safe, assumption+)+

lemma sys_step_inv:
  assumes "run_inv d" and "sys_step d d'"
  shows "run_inv d'"
  using assms(2)
proof cases
  case run
  then show ?thesis using run_step_safe [OF assms(1)] by blast
next
  case (delete username tid b)
  then show ?thesis by (rule delete_thread_inv(2) [OF assms(1)])
qed

lemma reachable_inv: "reachable d \<Longrightarrow> run_inv d"
proof (induction rule: reachable.induct)
  case init
  show ?case by code_simp
qed (rule sys_step_inv)

lemma run_steps_safe:
  assumes "run_step\<^sup>*\<^sup>* d d'" and "run_inv d"
  shows "run_inv d' \<and> evolves d d'"
  using assms
proof (induction rule: rtranclp_induct)
  case (step d1 d2)
  then show ?case using run_step_safe evolves_trans by blast
qed simp

lemma run_steps_reachable: "run_step\<^sup>*\<^sup>* d d' \<Longrightarrow> reachable d \<Longrightarrow> reachable d'"
  by (induction rule: rtranclp_induct) (auto intro: reachable.step sys_step.run)

text \<open>The successor of a stored Run, found by its identifier.\<close>

lemma run_steps_find:
  assumes "run_step\<^sup>*\<^sup>* d d'" and "run_inv d" and "find_run d rid = Some r"
  obtains r' where "find_run d' rid = Some r'" "run_evolves d d' r r'"
proof -
  have r: "r \<in> set (db_runs d)" "r_id r = rid" using find_run_SomeD [OF assms(3)] by auto
  have s: "run_inv d'" "evolves d d'" using run_steps_safe [OF assms(1,2)] by auto
  obtain r' where r': "r' \<in> set (db_runs d')" "run_evolves d d' r r'"
    using s(2) r(1) by (auto simp: evolves_def)
  have id: "r_id r' = rid" using r' r(2) by (auto simp: run_evolves_def dest: erase_run_cong(1))
  have "find_run d' (r_id r') = Some r'"
    using s(1) r'(1) by (intro find_run_unique) (simp_all add: run_inv_def tables_inv_keys(1))
  then show thesis using that r'(2) id by simp
qed

section \<open>A concrete execution\<close>

text \<open>A user arrives, reserves a Run, and worker \<open>w1\<close> claims it.\<close>

definition fx_user :: user where
  "fx_user = \<lparr> u_id = 1, u_username = ''alice'', u_role = ''user'' \<rparr>"

definition fx_reserve :: reserve_args where
  "fx_reserve = \<lparr> ra_username = ''alice'', ra_thread_id = ''t1'', ra_message = ''hi'',
     ra_idempotency_key = ''key-1'', ra_request_hash = Some ''h'', ra_expected_thread_version = None,
     ra_model_name = ''m'', ra_model_snapshot = None, ra_on_disconnect = None,
     ra_multitask_strategy = None, ra_title = None, ra_tenant_id = ''default'',
     ra_channel = ''run'', ra_approved_tools = {||}, ra_allow_implicit_thread = True \<rparr>"

definition fx_start :: db where
  "fx_start = empty_db\<lparr>db_users := [fx_user]\<rparr>"

definition fx_reserved :: db where
  "fx_reserved = (case reserve fx_env fx_reserve fx_start of Inr (x, d) \<Rightarrow> d | Inl _ \<Rightarrow> empty_db)"

definition fx_env2 :: env where
  "fx_env2 = fx_env\<lparr>env_uuid4 := (\<lambda>k. ''v'' @ replicate k CHR ''x'')\<rparr>"

definition fx_claimed :: db where
  "fx_claimed = (case claim fx_env2 ''run_u'' ''w1'' None fx_reserved of Inr (x, d) \<Rightarrow> d | Inl _ \<Rightarrow> empty_db)"

text \<open>What the later steps need of the states above, read off by evaluation.\<close>

definition fx_view :: "db \<Rightarrow> (string \<times> run_status \<times> int \<times> string option) list \<times> string list \<times> string list \<times>
    string option list \<times> nat \<times> nat" where
  "fx_view d = (map (\<lambda>r. (r_id r, r_status r, r_fencing_token r, r_owner r)) (db_runs d),
     map e_event_id (db_events d), map e_run (db_events d), map m_client_id (db_messages d),
     length (db_checkpoints d), length (db_threads d))"

lemma fx_start_reachable: "reachable fx_start" "fresh_env fx_env fx_start"
proof -
  have "run_step empty_db fx_start"
    using run_step.add_user [of empty_db fx_user] by (simp add: fx_start_def empty_db_def)
  then show "reachable fx_start"
    using reachable.step [OF reachable.init] sys_step.run by blast
  show "fresh_env fx_env fx_start"
    using fx_uuid by (simp add: fresh_env_def fx_start_def empty_db_def)
qed

lemma fx_reserved_eval:
  "\<exists>x. reserve fx_env fx_reserve fx_start = Inr (x, fx_reserved)"
  "fx_view fx_reserved = ([(''run_u'', PENDING, 2, None)], [''evt_ux''], [''run_u''],
     [Some ''run_u:user'', Some ''run_u:assistant''], 0, 1)"
proof -
  have "case reserve fx_env fx_reserve fx_start of Inl _ \<Rightarrow> False | Inr (x, d) \<Rightarrow>
      fx_view d = ([(''run_u'', PENDING, 2, None)], [''evt_ux''], [''run_u''],
        [Some ''run_u:user'', Some ''run_u:assistant''], 0, 1)"
    by code_simp
  then show "\<exists>x. reserve fx_env fx_reserve fx_start = Inr (x, fx_reserved)"
    "fx_view fx_reserved = ([(''run_u'', PENDING, 2, None)], [''evt_ux''], [''run_u''],
     [Some ''run_u:user'', Some ''run_u:assistant''], 0, 1)"
    by (auto simp: fx_reserved_def split: sum.splits)
qed

lemma fx_reserve_snapshot: "snapshot_ok fx_reserve"
  by (simp add: snapshot_ok_def fx_reserve_def)

lemma fx_reserved_step: "run_step fx_start fx_reserved"
proof -
  obtain x where "reserve fx_env fx_reserve fx_start = Inr (x, fx_reserved)"
    using fx_reserved_eval(1) by blast
  then show ?thesis
    by (rule run_step.reserve [OF fx_start_reachable(2), rotated]) (simp add: snapshot_ok_def fx_reserve_def)
qed

lemma fx_reserved_reachable: "reachable fx_reserved"
  using reachable.step [OF fx_start_reachable(1) sys_step.run [OF fx_reserved_step]] .

lemma fx_view_run:
  assumes "fx_view d = ([(rid, st, fence, worker)], rest)"
  obtains r where "db_runs d = [r]" "r_id r = rid" "r_status r = st" "r_fencing_token r = fence"
    "r_owner r = worker" "find_run d rid = Some r"
proof -
  have "map (\<lambda>r. (r_id r, r_status r, r_fencing_token r, r_owner r)) (db_runs d) = [(rid, st, fence, worker)]"
    using assms by (simp add: fx_view_def)
  then obtain r where "db_runs d = [r]" "r_id r = rid" "r_status r = st" "r_fencing_token r = fence"
      "r_owner r = worker"
    by auto
  then show thesis using that by (simp add: find_run_def)
qed

text \<open>Identifiers whose first letter no stored identifier has are fresh.\<close>

lemma fx_view_fresh:
  assumes view: "fx_view d = (rs, evs, eruns, cids, 0, n)"
    and other: "list_all (\<lambda>s. s ! 4 \<noteq> c) (map fst rs @ evs @ eruns @ map the cids)"
    and uuid: "inj (env_uuid4 e)" "\<And>k. \<exists>s. env_uuid4 e k = c # s"
  shows "fresh_env e d"
proof -
  have v: "map r_id (db_runs d) = map fst rs" "map e_event_id (db_events d) = evs"
      "map e_run (db_events d) = eruns" "map m_client_id (db_messages d) = cids" "db_checkpoints d = []"
    using view by (auto simp: fx_view_def comp_def)
  have at: "s \<noteq> ''evt_'' @ env_uuid4 e k" "s \<noteq> ''run_'' @ env_uuid4 e k"
      "s \<noteq> (''run_'' @ env_uuid4 e k) @ x" if "s ! 4 \<noteq> c" for s k x
    using that uuid(2) [of k] by auto
  have all: "r_id r ! 4 \<noteq> c" if "r \<in> set (db_runs d)" for r
    using other that by (simp add: list_all_iff flip: v)
  have evt: "e_event_id ev ! 4 \<noteq> c \<and> e_run ev ! 4 \<noteq> c" if "ev \<in> set (db_events d)" for ev
    using other that by (simp add: list_all_iff flip: v)
  have msg: "the (m_client_id m) ! 4 \<noteq> c" if "m \<in> set (db_messages d)" for m
    using other that by (simp add: list_all_iff flip: v)
  show ?thesis
    unfolding fresh_env_def
  proof (intro conjI allI ballI)
    fix k m
    assume m: "m \<in> set (db_messages d)"
    show "m_client_id m \<noteq> Some ((''run_'' @ env_uuid4 e k) @ '':user'')"
      "m_client_id m \<noteq> Some ((''run_'' @ env_uuid4 e k) @ '':assistant'')"
      using at(3) [OF msg [OF m], of k] by force+
  next
    fix k ev
    assume ev: "ev \<in> set (db_events d)"
    show "e_event_id ev \<noteq> ''evt_'' @ env_uuid4 e k" "e_run ev \<noteq> ''run_'' @ env_uuid4 e k"
      using evt [OF ev] at(1,2) by blast+
  next
    fix k r
    assume "r \<in> set (db_runs d)"
    then show "r_id r \<noteq> ''run_'' @ env_uuid4 e k" using all at(2) by blast
  qed (simp_all add: uuid(1) v(5))
qed

lemma fx_reserved_fresh: "fresh_env fx_env2 fx_reserved"
  by (rule fx_view_fresh [OF fx_reserved_eval(2), of "CHR ''v''"])
    (auto simp: fx_env2_def inj_def)

lemma fx_claimed_eval:
  "\<exists>rec. claim fx_env2 ''run_u'' ''w1'' None fx_reserved = Inr (rec, fx_claimed)"
  "fx_view fx_claimed = ([(''run_u'', RUNNING, 3, Some ''w1'')], [''evt_ux'', ''evt_v''], [''run_u'', ''run_u''],
     [Some ''run_u:user'', Some ''run_u:assistant''], 0, 1)"
proof -
  have "case claim fx_env2 ''run_u'' ''w1'' None fx_reserved of Inl _ \<Rightarrow> False | Inr (x, d) \<Rightarrow>
      fx_view d = ([(''run_u'', RUNNING, 3, Some ''w1'')], [''evt_ux'', ''evt_v''], [''run_u'', ''run_u''],
        [Some ''run_u:user'', Some ''run_u:assistant''], 0, 1)"
    by code_simp
  then show "\<exists>rec. claim fx_env2 ''run_u'' ''w1'' None fx_reserved = Inr (rec, fx_claimed)"
    "fx_view fx_claimed = ([(''run_u'', RUNNING, 3, Some ''w1'')], [''evt_ux'', ''evt_v''], [''run_u'', ''run_u''],
     [Some ''run_u:user'', Some ''run_u:assistant''], 0, 1)"
    by (auto simp: fx_claimed_def split: sum.splits)
qed

lemma fx_claimed_step: "run_step fx_reserved fx_claimed"
  using fx_claimed_eval(1) run_step.claim [OF fx_reserved_fresh] by blast

lemma fx_claimed_reachable: "reachable fx_claimed"
  using reachable.step [OF fx_reserved_reachable sys_step.run [OF fx_claimed_step]] .

lemmas fx_claimed_run = fx_view_run [OF fx_claimed_eval(2)]

section \<open>Invariants of every execution\<close>



text \<open>
  C7. The event journal of every Run is numbered 1, 2, 3, ... without gap or repetition up to
  the Run's counter, and no two events share an identifier. A Run that has ended has exactly
  one terminal event, its last, of the type its status calls for; a Run that has not ended has
  none.
\<close>

theorem event_log_contiguous:
  assumes "reachable d" and "r \<in> set (db_runs d)"
  shows "map e_sequence (run_log d (r_id r)) = [1..r_last_event_sequence r] \<and>
    distinct (map e_event_id (db_events d)) \<and>
    filter terminal_event (map e_type (run_log d (r_id r))) =
      (if terminal (r_status r) then [terminal_type (r_status r)] else []) \<and>
    (terminal (r_status r) \<longrightarrow> last (map e_type (run_log d (r_id r))) = terminal_type (r_status r))"
proof -
  have inv: "run_inv d" by (rule reachable_inv [OF assms(1)])
  have ok: "run_ok d r" and ids: "distinct (map e_event_id (db_events d))"
    using inv assms(2) by (simp_all add: run_inv_def tables_inv_def events_ok_def)
  let ?tys = "map e_type (run_log d (r_id r))"
  have none: "filter terminal_event tys = []" if "list_all (\<lambda>t. \<not> terminal_event t) tys" for tys
    using that by (simp add: list_all_iff filter_empty_conv)
  have "filter terminal_event ?tys = (if terminal (r_status r) then [terminal_type (r_status r)] else [])"
  proof (cases "terminal (r_status r)")
    case True
    then have e: "?tys \<noteq> []" "last ?tys = terminal_type (r_status r)"
        "list_all (\<lambda>t. \<not> terminal_event t) (butlast ?tys)"
      using ok by (simp_all add: run_ok_def ends_with_def)
    have "?tys = butlast ?tys @ [last ?tys]" using e(1) by simp
    then have "filter terminal_event ?tys = filter terminal_event (butlast ?tys @ [last ?tys])" by simp
    also have "\<dots> = [terminal_type (r_status r)]"
      unfolding filter_append none [OF e(3)] e(2) using True by auto
    finally show ?thesis using True by simp
  next
    case False
    then show ?thesis using ok none [of ?tys] by (simp add: run_ok_def ends_with_def)
  qed
  then show ?thesis
    using ok ids by (simp add: run_ok_def log_of_def ends_with_def)
qed

theorem event_log_contiguous_witness:
  "\<exists>r. r \<in> set (db_runs fx_claimed) \<and>
     map e_sequence (run_log fx_claimed (r_id r)) = [1..r_last_event_sequence r]"
proof -
  obtain r where "db_runs fx_claimed = [r]" by (rule fx_claimed_run)
  then have r: "r \<in> set (db_runs fx_claimed)" by simp
  show ?thesis using r event_log_contiguous [OF fx_claimed_reachable r] by blast
qed

text \<open>
  C8. The message journal of every thread is numbered 1, 2, 3, ... in insertion order up to the
  thread's \<open>last_sequence\<close>, its \<open>message_count\<close> and \<open>version\<close> agree with that number, and every
  Run refers to its own human and assistant message of its own thread.
\<close>

theorem message_log_contiguous:
  assumes "reachable d" and "t \<in> set (db_threads d)"
  shows "map m_sequence (thread_messages (db_messages d) (th_id t)) = [1..th_last_sequence t] \<and>
    th_message_count t = th_last_sequence t \<and> th_version t = th_last_sequence t \<and>
    (\<forall>r \<in> set (db_runs d). r_thread r = th_id t \<longrightarrow>
      (\<exists>m \<in> set (thread_messages (db_messages d) (th_id t)).
         r_user_message r = Some (m_id m) \<and> m_run m = Some (r_id r) \<and> m_type m = ''human'') \<and>
      (\<exists>m \<in> set (thread_messages (db_messages d) (th_id t)).
         r_assistant_message r = Some (m_id m) \<and> m_run m = Some (r_id r) \<and> m_type m = ''ai''))"
proof -
  have st: "struct_ok (db_users d) (db_threads d) (db_messages d) (db_runs d) (seq_thread d) (seq_message d)"
    using reachable_inv [OF assms(1)] by (simp add: run_inv_def tables_inv_def)
  then have "thread_counts (db_messages d) t" using assms(2) by (simp add: struct_ok_def)
  moreover have "(\<exists>m \<in> set (thread_messages (db_messages d) (th_id t)).
         r_user_message r = Some (m_id m) \<and> m_run m = Some (r_id r) \<and> m_type m = ''human'') \<and>
      (\<exists>m \<in> set (thread_messages (db_messages d) (th_id t)).
         r_assistant_message r = Some (m_id m) \<and> m_run m = Some (r_id r) \<and> m_type m = ''ai'')"
    if "r \<in> set (db_runs d)" "r_thread r = th_id t" for r
  proof -
    have "run_links (db_users d) (db_threads d) (db_messages d) r"
      using st that by (simp add: struct_ok_def)
    then show ?thesis unfolding run_links_def thread_messages_def set_filter that(2) by blast
  qed
  ultimately show ?thesis unfolding thread_counts_def by blast
qed

theorem message_log_contiguous_witness:
  "\<exists>t. t \<in> set (db_threads fx_claimed) \<and>
     map m_sequence (thread_messages (db_messages fx_claimed) (th_id t)) = [1..th_last_sequence t]"
proof -
  have "length (db_threads fx_claimed) = 1" using fx_claimed_eval(2) by (simp add: fx_view_def)
  then obtain t where t: "t \<in> set (db_threads fx_claimed)" by (cases "db_threads fx_claimed") auto
  then show ?thesis using message_log_contiguous [OF fx_claimed_reachable t] by blast
qed

end
