(* ===== verification/Run_Example.thy ===== *)
theory Run_Example
  imports Run_System
begin

text \<open>The concrete execution carried on to its end, and to a cancellation request instead.\<close>

section \<open>The end of the concrete execution\<close>

text \<open>The worker of the concrete execution ends its Run; another client asks to cancel it.\<close>

definition fx_env3 :: env where
  "fx_env3 = fx_env\<lparr>env_uuid4 := (\<lambda>k. ''w'' @ replicate k CHR ''x'')\<rparr>"

definition fx_final :: finalize_args where
  "fx_final = \<lparr> f_run_id = ''run_u'', f_target = SUCCEEDED, f_content = ''done'', f_fencing_token = Some 3,
     f_error_code = None, f_error_detail = None, f_input_tokens = 0, f_output_tokens = 0, f_cost = 0,
     f_rag_trace = None, f_partial = False, f_lease_expired_before = None \<rparr>"

definition is_ok :: "'a + 'b \<Rightarrow> bool" where
  "is_ok r = (case r of Inl _ \<Rightarrow> False | Inr _ \<Rightarrow> True)"

definition fx_done :: db where
  "fx_done = (case finalize fx_env3 fx_final fx_claimed of Inr (x, d) \<Rightarrow> d | Inl _ \<Rightarrow> empty_db)"

definition fx_cancelling :: db where
  "fx_cancelling = (case mark_cancelling fx_env3 ''alice'' ''run_u'' fx_claimed of Inr (x, d) \<Rightarrow> d | Inl _ \<Rightarrow> empty_db)"

lemma fx_claimed_fresh: "fresh_env fx_env3 fx_claimed"
  by (rule fx_view_fresh [OF fx_claimed_eval(2), of "CHR ''w''"])
    (auto simp: fx_env3_def inj_def)

lemma fx_done_eval: "run_step fx_claimed fx_done"
  "map (\<lambda>r. (r_id r, r_status r)) (db_runs fx_done) = [(''run_u'', SUCCEEDED)]"
  "length (run_log fx_done ''run_u'') = 4" "is_ok (assert_access fx_done ''alice'' ''run_u'')"
proof -
  have ev: "case finalize fx_env3 fx_final fx_claimed of Inl _ \<Rightarrow> False
      | Inr (x, d) \<Rightarrow> map (\<lambda>r. (r_id r, r_status r)) (db_runs d) = [(''run_u'', SUCCEEDED)] \<and>
          length (run_log d ''run_u'') = 4 \<and> is_ok (assert_access d ''alice'' ''run_u'')"
    by code_simp
  then obtain x where "finalize fx_env3 fx_final fx_claimed = Inr (x, fx_done)"
    by (auto simp: fx_done_def split: sum.splits)
  then show "run_step fx_claimed fx_done" by (rule run_step.finalize [OF fx_claimed_fresh])
  show "map (\<lambda>r. (r_id r, r_status r)) (db_runs fx_done) = [(''run_u'', SUCCEEDED)]"
    "length (run_log fx_done ''run_u'') = 4" "is_ok (assert_access fx_done ''alice'' ''run_u'')"
    using ev by (auto simp: fx_done_def split: sum.splits)
qed

lemma fx_cancelling_eval: "run_step fx_claimed fx_cancelling"
  "map (\<lambda>r. (r_id r, r_status r)) (db_runs fx_cancelling) = [(''run_u'', CANCELLING)]"
proof -
  have ev: "case mark_cancelling fx_env3 ''alice'' ''run_u'' fx_claimed of Inl _ \<Rightarrow> False
      | Inr (x, d) \<Rightarrow> map (\<lambda>r. (r_id r, r_status r)) (db_runs d) = [(''run_u'', CANCELLING)]"
    by code_simp
  then obtain x where "mark_cancelling fx_env3 ''alice'' ''run_u'' fx_claimed = Inr (x, fx_cancelling)"
    by (auto simp: fx_cancelling_def split: sum.splits)
  then show "run_step fx_claimed fx_cancelling" by (rule run_step.cancelling [OF fx_claimed_fresh])
  show "map (\<lambda>r. (r_id r, r_status r)) (db_runs fx_cancelling) = [(''run_u'', CANCELLING)]"
    using ev by (auto simp: fx_cancelling_def split: sum.splits)
qed

lemma fx_later_reachable: "reachable fx_done" "reachable fx_cancelling"
  using reachable.step [OF fx_claimed_reachable] sys_step.run fx_done_eval(1) fx_cancelling_eval(1) by blast+

end
