(* ===== verification/Run_Properties.thy ===== *)
theory Run_Properties
  imports Run_Example
begin

text \<open>
  What the run repository guarantees over executions: a finished Run is frozen, a superseded
  worker is fenced off, a retried reservation finds the Run it made, a claim excludes other
  workers, and every expired Run is recovered.
\<close>

section \<open>Ended and cancelling Runs\<close>

text \<open>
  C6. A Run that has ended is frozen: whatever transactions follow, its row, error, usage and
  timestamps never change again and nothing is added to its journal.
\<close>

theorem terminal_run_frozen:
  assumes "reachable d" and "run_step\<^sup>*\<^sup>* d d'" and "r \<in> set (db_runs d)" and "terminal (r_status r)"
  shows "r \<in> set (db_runs d') \<and> run_log d' (r_id r) = run_log d (r_id r)"
proof -
  have inv: "run_inv d" by (rule reachable_inv [OF assms(1)])
  have s: "run_inv d'" "evolves d d'" using run_steps_safe [OF assms(2) inv] by auto
  obtain r' where r': "r' \<in> set (db_runs d')" "run_evolves d d' r r'"
    using s(2) assms(3) by (auto simp: evolves_def)
  then have same: "r' = r" using assms(4) unfolding run_evolves_def by blast
  obtain new where new: "run_log d' (r_id r) = run_log d (r_id r) @ new"
    using r'(2) by (auto simp: run_evolves_def)
  have "run_ok d r" "run_ok d' r"
    using inv s(1) assms(3) r'(1) same by (simp_all add: run_inv_def tables_inv_def)
  then have "length (run_log d (r_id r)) = length (run_log d' (r_id r))"
    by (auto simp: run_ok_def log_of_def dest!: arg_cong [where f = length])
  then show ?thesis using r'(1) same new by simp
qed

theorem terminal_run_frozen_witness:
  "\<exists>r d'. r \<in> set (db_runs fx_done) \<and> terminal (r_status r) \<and> run_step fx_done d' \<and>
     r \<in> set (db_runs d') \<and> run_log d' (r_id r) = run_log fx_done (r_id r)"
proof -
  let ?d = "mark_outbox_published fx_env 1 fx_done"
  obtain r where r: "r \<in> set (db_runs fx_done)" "terminal (r_status r)"
    using fx_done_eval(2) by (cases "db_runs fx_done") auto
  have step: "run_step fx_done ?d" by (rule run_step.outbox)
  then have "run_step\<^sup>*\<^sup>* fx_done ?d" by (rule r_into_rtranclp)
  then show ?thesis
    using terminal_run_frozen [OF fx_later_reachable(1) _ r] r step by blast
qed

text \<open>
  C10. A cancellation request cannot be lost: from a cancelling Run every later state shows it
  cancelling or cancelled, never succeeded or failed, whatever its worker reports.
\<close>

theorem cancelling_ends_cancelled:
  assumes "reachable d" and "run_step\<^sup>*\<^sup>* d d'" and "find_run d rid = Some r" and "r_status r = CANCELLING"
  shows "\<exists>r'. find_run d' rid = Some r' \<and> r_status r' \<in> {CANCELLING, CANCELLED}"
  using run_steps_find [OF assms(2) reachable_inv [OF assms(1)] assms(3)] assms(4)
  by (metis run_evolves_def)

theorem cancelling_ends_cancelled_witness:
  "\<exists>r. find_run fx_cancelling ''run_u'' = Some r \<and> r_status r = CANCELLING \<and>
     (\<exists>r'. find_run (mark_outbox_published fx_env 1 fx_cancelling) ''run_u'' = Some r' \<and>
        r_status r' \<in> {CANCELLING, CANCELLED})"
proof -
  obtain r where r: "find_run fx_cancelling ''run_u'' = Some r" "r_status r = CANCELLING"
    using fx_cancelling_eval(2) by (auto simp: find_run_def)
  have "run_step\<^sup>*\<^sup>* fx_cancelling (mark_outbox_published fx_env 1 fx_cancelling)"
    by (rule r_into_rtranclp) (rule run_step.outbox)
  then show ?thesis
    using cancelling_ends_cancelled [OF fx_later_reachable(2) _ r] r by blast
qed

section \<open>Fencing\<close>

lemma claim_apply_row:
  assumes "claim_apply e worker lease t r d = Inr (rec, d')"
  shows "\<exists>r3 d3. rec = record_of r3 (th_thread_id t) \<and> d' = put_run r3 d3 \<and> r_id r3 = r_id r \<and>
    r_status r3 = RUNNING \<and> r_owner r3 = Some worker \<and> db_runs d3 = db_runs d \<and>
    r_fencing_token r3 = r_fencing_token r + 1 \<and>
    r_lease r3 = Some (env_now e + seconds (lease_length e lease))"
proof -
  define r2 where "r2 = r\<lparr>r_status := RUNNING, r_updated_at := env_now e, r_owner := Some worker,
      r_fencing_token := r_fencing_token r + 1,
      r_lease := Some (env_now e + seconds (lease_length e lease)),
      r_started_at := (case r_started_at r of None \<Rightarrow> Some (env_now e) | Some s \<Rightarrow> Some s)\<rparr>"
  define s where "s = emit e 0 (th_thread_id t) RUN_STARTED
      [(''status'', JStr (status_value (r_status r2))), (''worker_id'', JStr worker),
       (''fencing_token'', JInt (r_fencing_token r2))] (r2, d)"
  have "can_transition (r_status r) RUNNING"
    using assms by (auto simp: claim_apply_def transition_def split: if_splits)
  then have "commit (record_of (fst s) (th_thread_id t)) (put_run (fst s) (snd s)) = Inr (rec, d')"
    using assms by (simp add: claim_apply_def transition_def Let_def case_prod_beta s_def r2_def)
  then have eq: "rec = record_of (fst s) (th_thread_id t)" "d' = put_run (fst s) (snd s)"
    by (simp_all add: commit_Inr)
  have "fst s = r2\<lparr>r_last_event_sequence := r_last_event_sequence r2 + 1\<rparr>" "db_runs (snd s) = db_runs d"
    unfolding s_def emit_run by (simp_all add: emit_def append_event_in_session_def Let_def)
  then show ?thesis
    using eq by (intro exI [of _ "fst s"] exI [of _ "snd s"]) (simp add: r2_def)
qed

lemma claim_record:
  assumes res: "claim e rid worker lease d = Inr (rec, d')"
  shows "\<exists>r'. find_run d' rid = Some r' \<and> r_fencing_token r' = rec_fencing_token rec \<and>
    r_status r' = RUNNING \<and> r_owner r' = Some worker"
proof -
  obtain r t where r: "find_run d rid = Some r" and t: "find_thread d (r_thread r) = Some t"
    using res by (auto simp: claim_def split: option.splits)
  have rid: "r \<in> set (db_runs d)" "r_id r = rid" using find_run_SomeD [OF r] by auto
  consider "d' = d" "rec = record_of r (th_thread_id t)" "r_status r = RUNNING" "r_owner r = Some worker"
    | "claim_apply e worker lease t r d = Inr (rec, d')"
    using res r t by (auto simp: claim_def commit_Inr split: if_splits)
  then show ?thesis
  proof cases
    case 1
    then show ?thesis using r by (simp add: record_of_def)
  next
    case 2
    then obtain r3 d3 where r3: "rec = record_of r3 (th_thread_id t)" "d' = put_run r3 d3"
        "r_id r3 = rid" "r_status r3 = RUNNING" "r_owner r3 = Some worker" "db_runs d3 = db_runs d"
      using claim_apply_row [OF 2] rid(2) by blast
    then have "find_run d' rid = Some r3"
      using find_put_run [of r3 r d3 rid] r rid by (simp add: find_run_def)
    then show ?thesis using r3 by (simp add: record_of_def)
  qed
qed

text \<open>
  C2. Fencing: once a worker has claimed a Run and got token \<open>n\<close>, every write that carries an
  older token is refused in every later state, under any worker name: heartbeat, suspension,
  journal append, skill pinning, tool audit, checkpoint result and finalisation.
\<close>

theorem stale_worker_fenced:
  assumes "reachable d" and "claim e rid worker lease d = Inr (rec, d1)" and "fresh_env e d"
    and "run_step\<^sup>*\<^sup>* d1 d2" and "fence < rec_fencing_token rec" and "f_run_id f = rid"
    and "f_fencing_token f = Some fence"
  shows "isl (heartbeat e' rid w fence lease' d2) \<and> isl (set_waiting_input e' rid w fence d2) \<and>
    isl (journal_append e' rid ty data (Some w) (Some fence) d2) \<and>
    isl (pin_skill_activation e' rid w fence name version hash source d2) \<and>
    isl (record_tool_audit rid w fence aa d2) \<and>
    isl (record_resume_result e' rid cid w fence state d2) \<and> isl (finalize e' f d2)"
proof -
  have inv: "run_inv d" by (rule reachable_inv [OF assms(1)])
  have inv1: "run_inv d1" using claim_safe [OF inv assms(3)] assms(2) by (metis safe_txD)
  obtain r1 where r1: "find_run d1 rid = Some r1" "r_fencing_token r1 = rec_fencing_token rec"
    using claim_record [OF assms(2)] by blast
  obtain r2 where r2: "find_run d2 rid = Some r2" "run_evolves d1 d2 r1 r2"
    by (rule run_steps_find [OF assms(4) inv1 r1(1)])
  then have ne: "fence \<noteq> r_fencing_token r2" using r1(2) assms(5) by (simp add: run_evolves_def)
  then have af: "\<exists>ex. assert_fencing r2 (Some fence) = Some ex" by (simp add: assert_fencing_def)
  show ?thesis
  proof (intro conjI)
    show "isl (heartbeat e' rid w fence lease' d2)" "isl (set_waiting_input e' rid w fence d2)"
      using r2(1) af by (auto simp: heartbeat_def set_waiting_input_def)
    show "isl (journal_append e' rid ty data (Some w) (Some fence) d2)"
      using r2(1) ne by (simp add: journal_append_def)
    show "isl (pin_skill_activation e' rid w fence name version hash source d2)"
      "isl (record_tool_audit rid w fence aa d2)"
      using r2(1) af by (auto simp: pin_skill_activation_def record_tool_audit_def split: option.splits)
    show "isl (record_resume_result e' rid cid w fence state d2)"
      using r2(1) ne by (simp add: record_resume_result_def split: option.splits)
    show "isl (finalize e' f d2)"
      using r2(1) af assms(6,7) by (auto simp: finalize_def split: option.splits)
  qed
qed

theorem stale_worker_fenced_witness:
  "\<exists>rec. claim fx_env2 ''run_u'' ''w1'' None fx_reserved = Inr (rec, fx_claimed) \<and>
     isl (heartbeat fx_env3 ''run_u'' ''w0'' 2 None fx_claimed) \<and>
     isl (finalize fx_env3 (fx_final\<lparr>f_fencing_token := Some 2\<rparr>) fx_claimed)"
proof -
  obtain rec where c: "claim fx_env2 ''run_u'' ''w1'' None fx_reserved = Inr (rec, fx_claimed)"
    using fx_claimed_eval(1) by blast
  obtain r where "find_run fx_claimed ''run_u'' = Some r" "r_fencing_token r = 3"
    by (rule fx_claimed_run)
  then have "2 < rec_fencing_token rec" using claim_record [OF c] by simp
  then show ?thesis
    using c stale_worker_fenced [OF fx_reserved_reachable c fx_reserved_fresh rtranclp.rtrancl_refl,
        of 2 "fx_final\<lparr>f_fencing_token := Some 2\<rparr>" fx_env3]
    by (auto simp: fx_final_def)
qed

section \<open>Claims\<close>

text \<open>
  C9. While the lease of a running Run is valid nobody else can claim it: another worker is
  refused with \<open>RUN_ACTIVE\<close>, and the owner's repeated claim changes nothing. A claim that takes
  a Run over raises its fencing token by one.
\<close>

theorem claim_exclusive:
  assumes "reachable d" and "find_run d rid = Some r" and "r_status r = RUNNING"
    and "r_owner r = Some worker" and "lease_valid e r" and "other \<noteq> worker"
  shows "claim e rid other lease d = Inl (app_error RUN_ACTIVE 409) \<and>
    (\<exists>tid. claim e rid worker lease d = Inr (record_of r tid, d)) \<and>
    (\<forall>e' rec d'. claim e' rid other lease d = Inr (rec, d') \<longrightarrow>
       rec_fencing_token rec = r_fencing_token r + 1)"
proof -
  have inv: "run_inv d" by (rule reachable_inv [OF assms(1)])
  have r: "r \<in> set (db_runs d)" using find_run_SomeD [OF assms(2)] by simp
  obtain t where t: "find_thread d (r_thread r) = Some t" using run_thread [OF inv r] by blast
  have "rec_fencing_token rec = r_fencing_token r + 1" if "claim e' rid other lease d = Inr (rec, d')" for e' rec d'
  proof -
    have "claim_apply e' other lease t r d = Inr (rec, d')"
      using that assms(2-4,6) t by (auto simp: claim_def split: if_splits)
    then show ?thesis by (auto dest!: claim_apply_row simp: record_of_def)
  qed
  moreover have "claim e rid other lease d = Inl (app_error RUN_ACTIVE 409)"
    using assms(2-6) t by (simp add: claim_def)
  moreover have "claim e rid worker lease d = Inr (record_of r (th_thread_id t), d)"
    using assms(2-5) t by (simp add: claim_def commit_inv [OF inv])
  ultimately show ?thesis by blast
qed

theorem claim_exclusive_witness:
  "claim fx_env ''run_u'' ''w2'' None fx_claimed = Inl (app_error RUN_ACTIVE 409)"
proof -
  obtain r where r: "db_runs fx_claimed = [r]" "r_status r = RUNNING" "r_owner r = Some ''w1''"
      "find_run fx_claimed ''run_u'' = Some r"
    by (rule fx_claimed_run)
  have "lease_valid fx_env r"
  proof -
    have "list_all (lease_valid fx_env) (db_runs fx_claimed)" by code_simp
    then show ?thesis using r(1) by simp
  qed
  then show ?thesis
    using claim_exclusive [OF fx_claimed_reachable r(4,2,3), of fx_env "''w2''" None] by simp
qed

section \<open>Recovery\<close>

text \<open>
  C5. Orphan recovery is complete: one pass ends every running or cancelling Run whose lease
  has expired, without an exception, as cancelled when its cancellation had been requested and
  as failed otherwise, and reports exactly these Runs.
\<close>

theorem reconcile_recovers_all:
  assumes "reachable d" and "fresh_supply es 0 d"
  shows "\<exists>d'. reconcile_orphans es now d = (None, map r_id (filter (orphaned now) (db_runs d)), d') \<and>
    run_inv d' \<and>
    (\<forall>r \<in> set (db_runs d). orphaned now r \<longrightarrow>
       (\<exists>r'. find_run d' (r_id r) = Some r' \<and>
          r_status r' = (if r_status r = CANCELLING then CANCELLED else FAILED)))"
proof -
  have inv: "run_inv d" by (rule reachable_inv [OF assms(1)])
  have "distinct (map r_id (filter (orphaned now) (db_runs d)))"
    using inv by (intro distinct_map_filter) (simp add: run_inv_def tables_inv_keys(1))
  from reconcile_loop_recovers [OF inv assms(2) this, of now "[]"]
  obtain d' where d': "reconcile_orphans es now d = (None, map r_id (filter (orphaned now) (db_runs d)), d')"
      "run_inv d'"
      "\<forall>r \<in> set (filter (orphaned now) (db_runs d)). \<exists>r' \<in> set (db_runs d'). r_id r' = r_id r \<and>
         r_status r' = final_status (r_status r) FAILED"
    unfolding reconcile_orphans_def orphan_candidates_eq set_filter append_Nil by blast
  have "\<exists>r'. find_run d' (r_id r) = Some r' \<and> r_status r' = final_status (r_status r) FAILED"
    if "r \<in> set (db_runs d)" "orphaned now r" for r
  proof -
    obtain r' where "r' \<in> set (db_runs d')" "r_id r' = r_id r" "r_status r' = final_status (r_status r) FAILED"
      using d'(3) \<open>r \<in> set (db_runs d)\<close> \<open>orphaned now r\<close> by auto
    moreover have "distinct (map r_id (db_runs d'))" using d'(2) by (simp add: run_inv_def tables_inv_keys(1))
    ultimately show ?thesis using find_run_unique by metis
  qed
  then show ?thesis using d'(1,2) unfolding final_status_def by blast
qed

text \<open>An endless supply of environments, each with its own family of identifiers.\<close>

definition fx_supply :: "nat \<Rightarrow> env" where
  "fx_supply i = fx_env\<lparr>env_uuid4 := (\<lambda>k. CHR ''w'' # replicate i CHR ''y'' @ CHR ''z'' # replicate k CHR ''x'')\<rparr>"

lemma fx_supply_fresh: "fresh_supply fx_supply 0 fx_claimed"
proof -
  have pre: "takeWhile (\<lambda>c. c = CHR ''y'') (replicate i CHR ''y'' @ CHR ''z'' # s) = replicate i CHR ''y''" for i s
    by (induction i) simp_all
  have "inj (env_uuid4 (fx_supply i))" for i
    by (rule injI) (simp add: fx_supply_def)
  then have "fresh_env (fx_supply i) fx_claimed" for i
    by (intro fx_view_fresh [OF fx_claimed_eval(2), of "CHR ''w''"]) (auto simp: fx_supply_def)
  moreover have "env_uuid4 (fx_supply i) k \<noteq> env_uuid4 (fx_supply j) l" if "i \<noteq> j" for i j k l
  proof
    assume "env_uuid4 (fx_supply i) k = env_uuid4 (fx_supply j) l"
    from arg_cong [OF this, of "\<lambda>s. length (takeWhile (\<lambda>c. c = CHR ''y'') (tl s))"]
    show False using that unfolding fx_supply_def by (simp add: pre)
  qed
  ultimately show ?thesis by (simp add: fresh_supply_def)
qed

theorem reconcile_recovers_all_witness:
  "\<exists>r d'. r \<in> set (db_runs fx_claimed) \<and> orphaned 40000000 r \<and>
     reconcile_orphans fx_supply 40000000 fx_claimed =
       (None, map r_id (filter (orphaned 40000000) (db_runs fx_claimed)), d') \<and>
     (\<exists>r'. find_run d' (r_id r) = Some r' \<and> r_status r' = FAILED)"
proof -
  obtain r where r: "db_runs fx_claimed = [r]" "r_status r = RUNNING" by (rule fx_claimed_run)
  have "map r_lease (db_runs fx_claimed) = [Some 30001000]" by code_simp
  then have "orphaned 40000000 r" using r by (simp add: orphaned_def)
  then show ?thesis
    using r reconcile_recovers_all [OF fx_claimed_reachable fx_supply_fresh, of 40000000] by fastforce
qed

section \<open>Handing the thread over\<close>

lemma filter_update_where_mem:
  "(\<And>x. x \<in> set xs \<Longrightarrow> P x \<Longrightarrow> \<not> Q x \<and> \<not> Q (f x)) \<Longrightarrow> filter Q (update_where P f xs) = filter Q xs"
  by (induction xs) auto

text \<open>
  C4. Ending an active Run hands its thread to the queue: the Run gets its final status, and
  the queued Run of that thread that was created first becomes pending while the others keep
  waiting unchanged; with an empty queue the thread is left idle.
\<close>

theorem finalize_promotes_next:
  assumes inv: "run_inv d" and "fresh_env e d" and "find_run d (f_run_id a) = Some r"
    and "active (r_status r)" and "terminal (f_target a)"
    and "can_transition (r_status r) (final_status (r_status r) (f_target a))"
    and "f_fencing_token a = Some (r_fencing_token r)" and "f_lease_expired_before a = None"
  shows "\<exists>x d' r'. finalize e a d = Inr (x, d') \<and> find_run d' (f_run_id a) = Some r' \<and>
    r_status r' = final_status (r_status r) (f_target a) \<and>
    (case first_by r_created_at (thread_queue d (r_thread r)) of
       None \<Rightarrow> thread_idle d' (r_thread r)
     | Some q \<Rightarrow> find_run d' (r_id q) = Some (q\<lparr>r_status := PENDING, r_updated_at := env_now e\<rparr>) \<and>
         (\<forall>y \<in> set (thread_queue d (r_thread r)). y \<noteq> q \<longrightarrow> y \<in> set (db_runs d')))"
proof -
  have keys: "distinct (map r_id (db_runs d))" using inv by (simp add: run_inv_def tables_inv_keys(1))
  have r: "r \<in> set (db_runs d)" "r_id r = f_run_id a" using find_run_SomeD [OF assms(3)] by auto
  obtain t where t: "find_thread d (r_thread r) = Some t" using run_thread [OF inv r(1)] by blast
  have ti: "th_id t = r_thread r" using find_thread_SomeD [OF t] by simp
  obtain x d' r2 where d': "finalize e a d = Inr (x, d')" "run_inv d'" "r2 \<in> set (db_runs d')"
      "r_id r2 = r_id r" "r_status r2 = final_status (r_status r) (f_target a)"
      "db_runs d' = db_runs (promote_next_queued e t (put_run r2 d))"
    using finalize_active [OF inv assms(2) r assms(4) _ assms(5,6) _ t] assms(7,8) by auto
  have keys': "distinct (map r_id (db_runs d'))" using d'(2) by (simp add: run_inv_def tables_inv_keys(1))
  have ended: "terminal (r_status r2)"
    using assms(5) unfolding d'(5) final_status_def by (simp split: if_splits)
  have rows: "set (db_runs (put_run r2 d)) = insert r2 (set (db_runs d) - {r})"
    by (rule put_run_row [OF keys r(1) d'(4)])
  have "r_status r \<noteq> QUEUED" using assms(4) by auto
  moreover have "r_status r2 \<noteq> QUEUED" using ended by auto
  ultimately have queue: "thread_queue (put_run r2 d) (r_thread r) = thread_queue d (r_thread r)"
    using distinct_key_unique [OF keys _ r(1)] d'(4)
    by (auto simp: thread_queue_def put_run_def intro!: filter_update_where_mem)
  show ?thesis
  proof (cases "first_by r_created_at (thread_queue d (r_thread r))")
    case None
    have same: "db_runs d' = db_runs (put_run r2 d)"
      using None by (simp add: d'(6) promote_runs ti queue)
    have one: "one_active_per_thread (db_runs d)" using inv by (simp add: run_inv_def)
    have "\<not> active (r_status y)" if "y \<in> set (db_runs d)" "y \<noteq> r" "r_thread y = r_thread r" for y
      using one [unfolded one_active_iff [OF keys]] that r(1) assms(4) by metis
    moreover have "\<not> active (r_status r2)" using active_not_terminal ended by metis
    ultimately have "thread_idle d' (r_thread r)"
      unfolding thread_idle_def same rows by blast
    then show ?thesis
      using d' None find_run_unique [OF keys' d'(3)] r(2) by auto
  next
    case (Some q)
    let ?q = "q\<lparr>r_status := PENDING, r_updated_at := env_now e\<rparr>"
    have runs: "db_runs d' = db_runs (put_run ?q (put_run r2 d))"
      using Some by (simp add: d'(6) promote_runs ti queue)
    have q: "q \<in> set (thread_queue (put_run r2 d) (r_thread r))"
      using first_by_Some [OF Some] queue by simp
    then have q2: "q \<in> set (db_runs (put_run r2 d))" by (simp add: thread_queue_def)
    have keys2: "distinct (map r_id (db_runs (put_run r2 d)))"
      using keys by (simp add: put_run_def map_update_where)
    have rows': "set (db_runs d') = insert ?q (set (db_runs (put_run r2 d)) - {q})"
      unfolding runs by (rule put_run_row [OF keys2 q2]) simp
    have "find_run d' (r_id q) = Some ?q"
      using find_run_unique [OF keys', of ?q] rows' by simp
    moreover have "y \<in> set (db_runs d')" if "y \<in> set (thread_queue d (r_thread r))" "y \<noteq> q" for y
    proof -
      have "y \<in> set (thread_queue (put_run r2 d) (r_thread r))" unfolding queue by (rule that(1))
      then have "y \<in> set (db_runs (put_run r2 d))" by (simp add: thread_queue_def)
      then show ?thesis unfolding rows' using that(2) by blast
    qed
    ultimately show ?thesis
      using d' Some find_run_unique [OF keys' d'(3)] r(2) by auto
  qed
qed

theorem finalize_promotes_next_witness:
  "\<exists>x d' r' q'. finalize fx_env (fx_final\<lparr>f_run_id := ''run_a'', f_fencing_token := Some 2\<rparr>) fx_queue = Inr (x, d') \<and>
     find_run d' ''run_a'' = Some r' \<and> r_status r' = SUCCEEDED \<and>
     find_run d' ''run_b'' = Some q' \<and> r_status q' = PENDING"
proof -
  let ?a = "fx_final\<lparr>f_run_id := ''run_a'', f_fencing_token := Some 2\<rparr>"
  obtain r where r: "find_run fx_queue (f_run_id ?a) = Some r" "r_status r = RUNNING" "r_fencing_token r = 2"
      "r_thread r = 1"
    by (simp add: fx_queue_def fx_db_def find_run_def fx_run_def enumerate_eq_zip)
  obtain q where q: "first_by r_created_at (thread_queue fx_queue 1) = Some q" "r_id q = ''run_b''"
    by (simp add: fx_queue_def fx_db_def thread_queue_def fx_run_def enumerate_eq_zip)
  have "f_target ?a = SUCCEEDED" "f_fencing_token ?a = Some (r_fencing_token r)" "f_lease_expired_before ?a = None"
    by (simp_all add: fx_final_def r(3))
  then show ?thesis
    using finalize_promotes_next [OF fx_queue_inv fx_queue_fresh r(1)] r q
    by (auto simp: final_status_def can_transition_def)
qed



end
