(* ===== verification/Run_Retry.thy ===== *)
theory Run_Retry
  imports Run_System
begin

text \<open>
  A client that retries a reservation, before or after anything else has happened to the Run,
  gets the Run its first attempt made.
\<close>

section \<open>Retried reservations\<close>

text \<open>What a reservation derives from its arguments does not depend on the database.\<close>

lemma reserve_inputs:
  assumes "reserve e a d = Inr p"
  obtains key hash tenant channel tools where
    "\<And>e' d'. env_sha256 e' = env_sha256 e \<Longrightarrow> run_inv d' \<Longrightarrow> fresh_env e' d' \<Longrightarrow> snapshot_ok a \<Longrightarrow>
       reserve e' a d' = reserve_tx e' a key hash tenant channel tools d'"
proof -
  obtain tid key tenant channel tools where v:
      "validate_thread_id (ra_thread_id a) = Inr tid" "validate_idempotency_key (ra_idempotency_key a) = Inr key"
      "security_identifier 64 (ra_tenant_id a) = Inr tenant" "security_identifier 32 (ra_channel a) = Inr channel"
      "approved_tools (ra_approved_tools a) = Inr tools"
    using assms unfolding reserve_def by (auto split: sum.splits)
  define hash where "hash = or_else (ra_request_hash a)
      (hash_run_request (env_sha256 e)
        \<lparr> rq_message = ra_message a, rq_model_name = ra_model_name a,
          rq_model_catalog_hash = fst (case ra_model_snapshot a of None \<Rightarrow> empty_model_snapshot | Some s \<Rightarrow> s),
          rq_tenant_id = tenant, rq_channel = channel, rq_approved_tools = tools, rq_schema_version = 2 \<rparr>)"
  have "reserve e' a d' = reserve_tx e' a key hash tenant channel tools d'"
    if "env_sha256 e' = env_sha256 e" "run_inv d'" "fresh_env e' d'" "snapshot_ok a" for e' d'
    unfolding reserve_def Let_def v sum.case that(1) hash_def
    by (rule no_integrity_error [OF reserve_tx_safe [OF that(2-4)]])
  then show thesis by (rule that)
qed

definition stored_for :: "db \<Rightarrow> reserve_args \<Rightarrow> string \<Rightarrow> string \<Rightarrow> user \<Rightarrow> thread \<Rightarrow> run \<Rightarrow> bool" where
  "stored_for d a key hash u t r \<longleftrightarrow>
     find_user d (ra_username a) = Some u \<and> thread_of_user d (u_id u) (ra_thread_id a) = Some t \<and>
     r \<in> set (db_runs d) \<and> r_user r = u_id u \<and> r_thread r = th_id t \<and>
     r_idempotency_key r = key \<and> r_request_hash r = hash"

lemma reserve_tx_stored:
  assumes inv: "run_inv d" and fresh: "fresh_env e d" and snap: "snapshot_ok a"
    and res: "reserve_tx e a key hash tenant channel tools d = Inr (x, d1)"
  shows "\<exists>u t r. stored_for d1 a key hash u t r \<and> rec_id (rs_run x) = r_id r"
proof -
  obtain u where u: "find_user d (ra_username a) = Some u"
    using res by (auto simp: reserve_tx_def Let_def split: option.splits)
  obtain t d0 where gc: "get_or_create_thread e u (ra_thread_id a) (ra_title a) (ra_allow_implicit_thread a) d = Inr (t, d0)"
    using res u by (auto simp: reserve_tx_def Let_def split: sum.splits)
  have rdy: "thread_ready e d u (ra_thread_id a) t d0" by (rule get_or_create_thread_ready [OF inv fresh gc])
  then have r0: "run_inv d0" "fresh_env e d0" "t \<in> set (db_threads d0)" "th_user t = u_id u"
      "th_thread_id t = ra_thread_id a" "db_users d0 = db_users d"
    by (simp_all add: thread_ready_def)
  have u0: "find_user d0 (ra_username a) = Some u" using u r0(6) by (simp add: find_user_def)
  show ?thesis
  proof (cases "existing_run d0 (u_id u) (th_id t) key")
    case (Some r)
    then have "d1 = d0" "r_request_hash r = hash" "rec_id (rs_run x) = r_id r"
      using res u gc by (auto simp: reserve_tx_def Let_def commit_Inr record_of_def split: if_splits)
    moreover have "r \<in> set (db_runs d0)" "r_user r = u_id u" "r_thread r = th_id t" "r_idempotency_key r = key"
      using find_SomeD [OF Some [unfolded existing_run_def]] by auto
    moreover have "thread_of_user d0 (u_id u) (ra_thread_id a) = Some t"
      using r0 thread_of_user_iff by (simp add: run_inv_def tables_inv_def struct_ok_def)
    ultimately show ?thesis using u0 unfolding stored_for_def by blast
  next
    case None
    define r where "r = new_run e a key hash tenant channel tools u t (active_run d0 (th_id t))"
    have ins: "insertable e d0 t r"
      unfolding r_def using find_user_SomeD [OF u] None by (intro new_run_insertable [OF rdy _ snap]) auto
    have zero: "r_last_event_sequence r = 0" "r_assistant_message r = None"
      by (simp_all add: r_def new_run_def Let_def)
    have "insert_run e (ra_message a) (ra_thread_id a) r t d0 = Inr (x, d1)"
      using res u gc None by (auto simp: reserve_tx_def Let_def r_def split: if_splits)
    then have aft: "after_insert e (ra_message a) r t d0 d1"
      and x: "rs_run x = record_of (inserted_run d0 t r) (ra_thread_id a)"
      using insert_run_ok [OF r0(1,2) ins r0(3) zero, of "ra_message a" "ra_thread_id a"] by auto
    have inv1: "run_inv d1" by (rule after_insert_inv(1) [OF r0(1,2) ins r0(3) aft])
    let ?t = "bumped_thread e t"
    have "?t \<in> set (db_threads d1)"
      using aft r0(3) by (auto simp: after_insert_def set_update_where)
    then have "thread_of_user d1 (u_id u) (ra_thread_id a) = Some ?t"
      using inv1 r0(4,5) thread_of_user_iff
      by (simp add: run_inv_def tables_inv_def struct_ok_def bumped_thread_def)
    moreover have "inserted_run d0 t r \<in> set (db_runs d1)" "find_user d1 (ra_username a) = Some u"
      using aft u0 by (simp_all add: after_insert_def find_user_def)
    ultimately have "stored_for d1 a key hash u ?t (inserted_run d0 t r)"
      by (simp add: stored_for_def inserted_run_def bumped_thread_def r_def new_run_def Let_def)
    then show ?thesis using x by (auto simp: record_of_def)
  qed
qed

lemma find_append_Some: "find P xs = Some x \<Longrightarrow> find P (xs @ ys) = Some x"
  by (induction xs) (auto split: if_splits)

lemma stored_for_evolves:
  assumes "stored_for d a key hash u t r" and "evolves d d'" and "run_inv d'"
  shows "\<exists>t' r'. stored_for d' a key hash u t' r' \<and> r_id r' = r_id r"
proof -
  have s: "find_user d (ra_username a) = Some u" "thread_of_user d (u_id u) (ra_thread_id a) = Some t"
      "r \<in> set (db_runs d)" "r_user r = u_id u" "r_thread r = th_id t" "r_idempotency_key r = key"
      "r_request_hash r = hash"
    using assms(1) by (simp_all add: stored_for_def)
  have pk: "parents_kept d d'" by (rule evolves_parents [OF assms(2)])
  then obtain us where "db_users d' = db_users d @ us" by (auto simp: parents_kept_def)
  then have u: "find_user d' (ra_username a) = Some u"
    using s(1) by (simp add: find_user_def find_append_Some)
  have t: "t \<in> set (db_threads d)" "th_user t = u_id u" "th_thread_id t = ra_thread_id a"
    using thread_of_user_SomeD [OF s(2)] by auto
  have "thread_key t \<in> thread_key ` set (db_threads d')"
    using pk t(1) by (auto simp: parents_kept_def)
  then obtain t' where t': "t' \<in> set (db_threads d')" "th_id t' = th_id t" "th_user t' = u_id u"
      "th_thread_id t' = ra_thread_id a"
    using t by (auto simp: thread_key_def)
  then have tu: "thread_of_user d' (u_id u) (ra_thread_id a) = Some t'"
    using assms(3) thread_of_user_iff by (simp add: run_inv_def tables_inv_def struct_ok_def)
  obtain r' where r': "r' \<in> set (db_runs d')" "run_evolves d d' r r'"
    using assms(2) s(3) by (auto simp: evolves_def)
  then have "erase_run r' = erase_run r" by (simp add: run_evolves_def)
  from erase_run_cong [OF this] have "stored_for d' a key hash u t' r'" "r_id r' = r_id r"
    using u tu r'(1) s t'(2) by (simp_all add: stored_for_def)
  then show ?thesis by blast
qed

lemma reserve_tx_again:
  assumes inv: "run_inv d" and st: "stored_for d a key hash u t r"
  shows "\<exists>x d'. reserve_tx e a key hash tenant channel tools d = Inr (x, d') \<and> \<not> rs_created x \<and>
    rec_id (rs_run x) = r_id r \<and> db_runs d' = db_runs d \<and> db_messages d' = db_messages d \<and>
    db_events d' = db_events d"
proof -
  have s: "find_user d (ra_username a) = Some u" "thread_of_user d (u_id u) (ra_thread_id a) = Some t"
      "r \<in> set (db_runs d)" "r_user r = u_id u" "r_thread r = th_id t" "r_idempotency_key r = key"
      "r_request_hash r = hash"
    using st by (simp_all add: stored_for_def)
  have "idempotency_unique (db_runs d)"
    using inv by (simp add: run_inv_def tables_inv_def struct_ok_def)
  then have "find (\<lambda>x. (r_user x, r_thread x, r_idempotency_key x) = (r_user r, r_thread r, r_idempotency_key r))
      (db_runs d) = Some r"
    by (intro find_unique s(3)) (simp add: idempotency_unique_def)
  then have ex: "existing_run d (u_id u) (th_id t) key = Some r"
    using s by (simp add: existing_run_def)
  obtain t' d' where gc: "get_or_create_thread e u (ra_thread_id a) (ra_title a) (ra_allow_implicit_thread a) d = Inr (t', d')"
      "th_id t' = th_id t" "db_runs d' = db_runs d" "db_messages d' = db_messages d" "db_events d' = db_events d"
      "run_inv d'"
  proof (cases "or_else (ra_title a) '''' \<noteq> '''' \<and> \<not> has_title t")
    case True
    let ?t = "t\<lparr>th_metadata := AList.update ''title'' (JStr (or_else (ra_title a) '''')) (th_metadata t),
        th_updated_at := env_now e\<rparr>"
    have "run_inv (put_thread ?t d)"
      using thread_of_user_SomeD [OF s(2)] by (intro put_thread_inv(1) [OF inv, of t]) (simp_all add: erase_thread_def)
    then show thesis
      using that [of ?t "put_thread ?t d"] s(2) True
      by (simp add: get_or_create_thread_def Let_def put_thread_def)
  next
    case False
    then have "get_or_create_thread e u (ra_thread_id a) (ra_title a) (ra_allow_implicit_thread a) d = Inr (t, d)"
      using s(2) by (auto simp: get_or_create_thread_def)
    then show thesis using that inv by blast
  qed
  have "existing_run d' (u_id u) (th_id t') key = Some r"
    using ex gc(2,3) by (simp add: existing_run_def)
  then show ?thesis
    using s(1,7) gc by (simp add: reserve_tx_def Let_def commit_inv record_of_def)
qed



end
