(* ===== verification/Run_Service.thy ===== *)
theory Run_Service
  imports Run_Lifecycle
begin

text \<open>
  The callers of the run repository: \<open>RunService\<close> (\<^verbatim>\<open>src/backend/runs/service.py\<close>), the cancellation
  token and the end of an execution (\<^verbatim>\<open>src/backend/runs/cancellation.py\<close>), and the read of the
  execution snapshot (\<^verbatim>\<open>src/backend/runs/repository.py\<close>). A caller that needs two transactions is given
  the database that each of them sees, or the function \<open>mid\<close> of what others commit in between. The
  conversion of exceptions to public errors, the validation of model snapshots and \<open>str()\<close> of a JSON
  value that is no string are parameters.
\<close>

section \<open>Creating a Run\<close>

text \<open>\<open>s.split()\<close>.\<close>

function words_from :: "string \<Rightarrow> string \<Rightarrow> string list" where
  "words_from acc s =
     (let word = (if acc = [] then [] else [acc]) in
      case s of
        [] \<Rightarrow> word
      | c # cs \<Rightarrow>
          (let k = ws_head (map byte s)
           in if 0 < k then word @ words_from [] (drop k s) else words_from (acc @ [c]) cs))"
  by pat_completeness auto
termination
  by (relation "measure (\<lambda>(acc, s). length s)") auto

declare words_from.simps [simp del]

definition new_conversation_text :: string where
  "new_conversation_text = utf8 [230, 150, 176, 228, 188, 154, 232, 175, 157]"

definition run_title :: "string \<Rightarrow> string" where
  "run_title compact_message =
     or_else (Some (py_take 16 (join_with '' '' (words_from [] compact_message)))) new_conversation_text"

text \<open>The request as the route passes it on; \<open>snapshot\<close> and \<open>model_name\<close> are of the model catalog.\<close>

definition create_run_args :: "bool \<Rightarrow> string \<Rightarrow> string \<times> json \<Rightarrow> reserve_args \<Rightarrow> reserve_args" where
  "create_run_args allow_implicit model_name snapshot a =
     (let compact_message = py_strip (ra_message a)
      in a\<lparr>ra_message := compact_message, ra_request_hash := None, ra_model_name := model_name,
           ra_model_snapshot := Some snapshot, ra_title := Some (run_title compact_message),
           ra_allow_implicit_thread := allow_implicit\<rparr>)"

definition create_run ::
    "env \<Rightarrow> bool \<Rightarrow> string \<Rightarrow> string \<times> json \<Rightarrow> reserve_args \<Rightarrow> db \<Rightarrow> run_reservation tx" where
  "create_run e allow_implicit model_name snapshot a d =
     reserve e (create_run_args allow_implicit model_name snapshot a) d"

section \<open>Ending a Run\<close>

definition complete_run ::
    "env \<Rightarrow> string \<Rightarrow> string \<Rightarrow> int option \<Rightarrow> int \<Rightarrow> int \<Rightarrow> rat \<Rightarrow> json option \<Rightarrow> db \<Rightarrow> run_record tx" where
  "complete_run e rid content fence input_tokens output_tokens cost trace d =
     finalize e \<lparr> f_run_id = rid, f_target = SUCCEEDED, f_content = content, f_fencing_token = fence,
       f_error_code = None, f_error_detail = None, f_input_tokens = input_tokens,
       f_output_tokens = output_tokens, f_cost = cost, f_rag_trace = trace, f_partial = False,
       f_lease_expired_before = None \<rparr> d"

definition run_failed_text :: string where
  "run_failed_text = utf8 [232, 191, 144, 232, 161, 140, 229, 164, 177, 232, 180, 165, 239, 188, 140,
     232, 175, 183, 231, 168, 141, 229, 144, 142, 233, 135, 141, 232, 175, 149, 227, 128, 130]"

definition interrupted_text :: string where
  "interrupted_text = utf8 [232, 191, 144, 232, 161, 140, 229, 155, 160, 230, 156, 141, 229, 138, 161,
     233, 135, 141, 229, 144, 175, 232, 128, 140, 228, 184, 173, 230, 150, 173, 227, 128, 130]"

datatype fail_cause = FailApp exn | FailPublic public_error | FailCode "string option"

definition resolved_error :: "(exn \<Rightarrow> public_error) \<Rightarrow> fail_cause \<Rightarrow> string option \<Rightarrow> public_error" where
  "resolved_error public_of cause message =
     (case cause of
        FailApp ex \<Rightarrow> public_of ex
      | FailPublic p \<Rightarrow> p
      | FailCode code \<Rightarrow>
          PublicError (or_else code (error_value RUN_EXECUTION_FAILED)) (or_else message run_failed_text)
            500 True (Some ''run'') (Some ''execution''))"

definition fail_run ::
    "(exn \<Rightarrow> public_error) \<Rightarrow> env \<Rightarrow> string \<Rightarrow> fail_cause \<Rightarrow> string option \<Rightarrow> int option \<Rightarrow> bool \<Rightarrow> db
      \<Rightarrow> run_record tx" where
  "fail_run public_of e rid cause message fence partial d =
     (let p = resolved_error public_of cause message
      in finalize e \<lparr> f_run_id = rid, f_target = FAILED, f_content = or_else message (pe_message p),
           f_fencing_token = fence, f_error_code = Some (pe_code p),
           f_error_detail = Some (serialize_public_error p), f_input_tokens = 0, f_output_tokens = 0,
           f_cost = 0, f_rag_trace = None, f_partial = partial, f_lease_expired_before = None \<rparr> d)"

definition cancel_args :: "string \<Rightarrow> string \<Rightarrow> int option \<Rightarrow> finalize_args" where
  "cancel_args rid content fence =
     \<lparr> f_run_id = rid, f_target = CANCELLED, f_content = content, f_fencing_token = fence,
       f_error_code = Some (pe_code cancelled_public_error),
       f_error_detail = Some (serialize_public_error cancelled_public_error), f_input_tokens = 0,
       f_output_tokens = 0, f_cost = 0, f_rag_trace = None, f_partial = True,
       f_lease_expired_before = None \<rparr>"

text \<open>
  \<open>request_cancel\<close> reads the Run in one transaction, on \<open>d0\<close>, and acts in another one, on \<open>d\<close>.
\<close>

definition request_cancel :: "env \<Rightarrow> string \<Rightarrow> string \<Rightarrow> db \<Rightarrow> db \<Rightarrow> run_record tx" where
  "request_cancel e username rid d0 d =
     (case get_run d0 username rid of
        Inl ex \<Rightarrow> Inl ex
      | Inr current \<Rightarrow>
          if rec_status current \<in> {SUCCEEDED, FAILED, CANCELLED} then Inr (current, d)
          else if rec_status current \<in> {QUEUED, PENDING, WAITING_INPUT}
          then finalize e (cancel_args rid (pe_message cancelled_public_error) None) d
          else mark_cancelling e username rid d)"

section \<open>The cancellation token\<close>

datatype cancel_reason = REASON_SHUTDOWN | REASON_USER | REASON_OWNERSHIP_LOST

fun reason_priority :: "cancel_reason \<Rightarrow> int" where
  "reason_priority REASON_SHUTDOWN = 0"
| "reason_priority REASON_USER = 1"
| "reason_priority REASON_OWNERSHIP_LOST = 2"

record cancel_token =
  ct_event :: bool
  ct_partial :: "string list"
  ct_reason :: "cancel_reason option"

definition append_partial :: "string \<Rightarrow> cancel_token \<Rightarrow> cancel_token" where
  "append_partial content k = (if content = [] then k else k\<lparr>ct_partial := ct_partial k @ [content]\<rparr>)"

definition partial_content :: "cancel_token \<Rightarrow> string" where
  "partial_content k = concat (ct_partial k)"

definition token_request :: "cancel_reason \<Rightarrow> cancel_token \<Rightarrow> cancel_token" where
  "token_request reason k =
     (let current = (case ct_reason k of None \<Rightarrow> - 1 | Some r \<Rightarrow> reason_priority r)
      in k\<lparr>ct_reason := (if current < reason_priority reason then Some reason else ct_reason k),
           ct_event := True\<rparr>)"

section \<open>The end of an execution\<close>

text \<open>
  How the runner ended: with a result, waiting for input, with \<open>CancelledError\<close> or with another
  exception, already converted to a public error. A token that is set turns a result into a
  cancellation, at the checkpoint after the runner.
\<close>

datatype runner_end =
    RunnerCompleted string "json option" "int option"
  | RunnerWaiting
  | RunnerCancelled
  | RunnerRaised public_error

text \<open>What leaves \<open>execute\<close>, if anything, and the database.\<close>

type_synonym executed = "exn option \<times> db"

definition executed_of :: "db \<Rightarrow> 'a tx \<Rightarrow> executed" where
  "executed_of d r = (case r of Inl ex \<Rightarrow> (Some ex, d) | Inr (_, d') \<Rightarrow> (None, d'))"

definition fail_execution ::
    "(exn \<Rightarrow> public_error) \<Rightarrow> env \<Rightarrow> string \<Rightarrow> int \<Rightarrow> cancel_token \<Rightarrow> public_error \<Rightarrow> db \<Rightarrow> run_record tx" where
  "fail_execution public_of e rid fence k p d =
     fail_run public_of e rid (FailPublic p) (Some (or_else (Some (partial_content k)) (pe_message p)))
       (Some fence) (partial_content k \<noteq> []) d"

definition ignore_conflict_if_terminal :: "string \<Rightarrow> exn \<Rightarrow> db \<Rightarrow> exn option" where
  "ignore_conflict_if_terminal rid ex d =
     (case ex of
        AppError code _ _ _ \<Rightarrow>
          if code \<noteq> RUN_STATE_CONFLICT then Some ex
          else (case get_internal d rid of
              Inl ex' \<Rightarrow> Some ex'
            | Inr current \<Rightarrow> if terminal (rec_status current) then None else Some ex)
      | _ \<Rightarrow> Some ex)"

definition cancelled_execution ::
    "(exn \<Rightarrow> public_error) \<Rightarrow> env \<Rightarrow> (db \<Rightarrow> db) \<Rightarrow> string \<Rightarrow> int \<Rightarrow> cancel_token \<Rightarrow> db \<Rightarrow> executed" where
  "cancelled_execution public_of e mid rid fence k d =
     (if ct_reason k = Some REASON_OWNERSHIP_LOST then (None, d)
      else case (if ct_reason k = Some REASON_USER
                 then finalize e (cancel_args rid
                   (or_else (Some (partial_content k)) (pe_message cancelled_public_error)) (Some fence)) d
                 else fail_execution public_of e rid fence k
                   (PublicError (error_value RUN_INTERRUPTED) interrupted_text 503 True (Some ''run'')
                      (Some ''shutdown'')) d) of
        Inr (_, d') \<Rightarrow> (None, d')
      | Inl ex \<Rightarrow> (ignore_conflict_if_terminal rid ex (mid d), mid d))"

definition execute_end ::
    "(exn \<Rightarrow> public_error) \<Rightarrow> env \<Rightarrow> env \<Rightarrow> (db \<Rightarrow> db) \<Rightarrow> string \<Rightarrow> int \<Rightarrow> cancel_token \<Rightarrow> runner_end \<Rightarrow> db \<Rightarrow> executed" where
  "execute_end public_of e e' mid rid fence k r d =
     (let failed = (\<lambda>p d. executed_of d (fail_execution public_of e' rid fence k p d))
      in case (if ct_event k \<and> (case r of RunnerRaised _ \<Rightarrow> False | _ \<Rightarrow> True) then RunnerCancelled else r) of
           RunnerCancelled \<Rightarrow> cancelled_execution public_of e mid rid fence k d
         | RunnerRaised p \<Rightarrow> failed p d
         | RunnerWaiting \<Rightarrow>
             (case get_internal d rid of
                Inl ex \<Rightarrow> failed (public_of ex) (mid d)
              | Inr current \<Rightarrow>
                  if rec_status current \<notin> {WAITING_INPUT, PENDING, RUNNING} \<or>
                     \<not> has_durable_checkpoint (mid d) rid
                  then failed (public_of RuntimeError) (mid (mid d))
                  else (None, mid d))
         | RunnerCompleted content trace fence' \<Rightarrow>
             (case complete_run e rid content
                     (Some (case fence' of None \<Rightarrow> fence | Some f \<Rightarrow> if f = 0 then fence else f)) 0 0 0 trace d of
                Inr (_, d') \<Rightarrow> (None, d')
              | Inl ex \<Rightarrow> failed (public_of ex) (mid d)))"

section \<open>The execution snapshot\<close>

record 'm execution_snapshot =
  es_run :: run_record
  es_user_db_id :: int
  es_username :: string
  es_role :: string
  es_tenant_id :: string
  es_channel :: string
  es_approved_tools :: "string fset"
  es_user_text :: string
  es_history :: "(string \<times> string) list"
  es_persistent_note :: string
  es_model_snapshot :: 'm

definition execution_history :: "db \<Rightarrow> thread \<Rightarrow> message \<Rightarrow> (string \<times> string) list" where
  "execution_history d t m =
     map (\<lambda>x. (m_type x, m_content x))
       (filter (\<lambda>x. m_type x \<in> {''human'', ''ai'', ''system''})
         (sort_key m_sequence
           (filter (\<lambda>x. m_thread x = th_id t \<and> m_sequence x < m_sequence m \<and> m_status x = ''completed'')
             (db_messages d))))"

definition persistent_note :: "(json \<Rightarrow> string) \<Rightarrow> thread \<Rightarrow> string" where
  "persistent_note str_of t =
     (case map_of (th_metadata t) ''persistent_note'' of
        None \<Rightarrow> []
      | Some v \<Rightarrow> if \<not> truthy v then [] else (case v of JStr s \<Rightarrow> s | _ \<Rightarrow> str_of v))"

text \<open>\<open>validate\<close> is the validation of a stored model snapshot, \<open>catalog_hash\<close> reads its catalog hash.\<close>

definition load_execution_snapshot ::
    "(json \<Rightarrow> string) \<Rightarrow> (json \<Rightarrow> 'm option) \<Rightarrow> ('m \<Rightarrow> string) \<Rightarrow> db \<Rightarrow> string \<Rightarrow> string \<Rightarrow> string \<Rightarrow> int
      \<Rightarrow> exn + 'm execution_snapshot" where
  "load_execution_snapshot str_of validate catalog_hash d username rid worker fence =
     (case find_run d rid of
        None \<Rightarrow> Inl (app_error RUN_NOT_FOUND 404)
      | Some r \<Rightarrow>
          (case (find_thread d (r_thread r), find_user_id d (r_user r)) of
             (Some t, Some u) \<Rightarrow>
               if u_username u \<noteq> username then Inl (app_error RUN_NOT_FOUND 404)
               else (case assert_fencing r (Some fence) of
                   Some ex \<Rightarrow> Inl ex
                 | None \<Rightarrow>
                     if r_status r \<noteq> RUNNING \<or> r_owner r \<noteq> Some worker
                     then Inl (app_error RUN_STATE_CONFLICT 409)
                     else (case find (\<lambda>m. Some (m_id m) = r_user_message r \<and> m_thread m = th_id t \<and>
                                          m_run m = Some (r_id r)) (db_messages d) of
                         None \<Rightarrow> Inl (app_error RUN_STATE_CONFLICT 409)
                       | Some m \<Rightarrow>
                           if m_type m \<noteq> ''human'' then Inl (app_error RUN_STATE_CONFLICT 409)
                           else (case validate (r_model_snapshot r) of
                               None \<Rightarrow> Inl (app_error RUN_STATE_CONFLICT 409)
                             | Some model \<Rightarrow>
                                 if catalog_hash model \<noteq> r_model_catalog_hash r
                                 then Inl (app_error RUN_STATE_CONFLICT 409)
                                 else Inr \<lparr> es_run = record_of r (th_thread_id t), es_user_db_id = u_id u,
                                      es_username = u_username u, es_role = u_role u,
                                      es_tenant_id = r_tenant r, es_channel = r_channel r,
                                      es_approved_tools = fset_of_list (r_approved_tools r),
                                      es_user_text = m_content m,
                                      es_history = execution_history d t m,
                                      es_persistent_note = persistent_note str_of t,
                                      es_model_snapshot = model \<rparr>)))
           | _ \<Rightarrow> Inl (app_error RUN_NOT_FOUND 404)))"

end
