(* ===== verification/Run_Cancel.thy ===== *)
theory Run_Cancel
  imports Run_Example Run_Service
begin

text \<open>
  The race of \<open>request_cancel\<close>: the Run is read in one transaction and marked in another, so that a
  Run which is suspended in between becomes cancelling without an owner and without a lease.
\<close>

section \<open>A cancelling Run without a lease\<close>

definition stranded :: "db \<Rightarrow> string \<Rightarrow> run \<Rightarrow> bool" where
  "stranded d rid r \<longleftrightarrow> find_run d rid = Some r \<and> r_status r = CANCELLING \<and> r_owner r = None \<and> r_lease r = None"

lemma stranded_claim:
  assumes "stranded d rid r"
  shows "\<exists>ex. claim e rid worker lease d = Inl ex" "\<exists>ex. heartbeat e rid worker fence lease d = Inl ex"
  using assms by (auto simp: stranded_def claim_def heartbeat_def split: option.splits)

lemma stranded_reconcile:
  assumes "reachable d" "stranded d rid r"
  shows "rid \<notin> fst ` set (orphan_candidates now d)" "\<exists>ex. finalize e (orphan_args now rid fence) d = Inl ex"
proof -
  have "r' = r" if "r' \<in> set (db_runs d)" "r_id r' = rid" for r'
    using find_run_unique [OF tables_inv_keys(1) that(1)] reachable_inv [OF assms(1)] that(2) assms(2)
    by (simp add: stranded_def run_inv_def)
  then show "rid \<notin> fst ` set (orphan_candidates now d)"
    using assms(2) by (auto simp: orphan_candidates_def stranded_def)
  show "\<exists>ex. finalize e (orphan_args now rid fence) d = Inl ex"
    using assms(2) by (auto simp: finalize_def orphan_args_def stranded_def split: option.splits)
qed

lemma stranded_cancel:
  assumes "stranded d rid r" "request_cancel e username rid d d = Inr (x, d')"
  shows "d' = d"
  using assms by (auto simp: stranded_def request_cancel_def get_run_def mark_cancelling_def record_of_def
      commit_def split: option.splits if_splits)

lemma mark_cancelling_row:
  assumes "mark_cancelling e username rid d = Inr (x, d')" "find_run d rid = Some r"
    "r_status r \<in> {PENDING, WAITING_INPUT}"
  shows "\<exists>r'. find_run d' rid = Some r' \<and> r_status r' = CANCELLING \<and> r_owner r' = r_owner r \<and> r_lease r' = r_lease r"
proof -
  let ?r1 = "r\<lparr>r_status := CANCELLING, r_updated_at := env_now e\<rparr>"
  have id: "r_id r = rid" using find_run_SomeD [OF assms(2)] by simp
  have tr: "transition e r CANCELLING = Inr ?r1" "\<not> terminal (r_status r)" "r_status r \<noteq> CANCELLING"
    using assms(3) by (auto simp: transition_def can_transition_def)
  define em where "em tid = emit e 0 tid WARNING_CREATED
      [(''code'', JStr ''CANCEL_REQUESTED''), (''message'', JStr cancel_requested_text)] (?r1, d)" for tid
  have "\<exists>tid. d' = put_run (fst (em tid)) (snd (em tid))"
    using assms(1,2) tr unfolding mark_cancelling_def em_def
    by (auto simp: commit_def Let_def case_prod_beta split: option.splits if_splits)
  then obtain tid where d': "d' = put_run (fst (em tid)) (snd (em tid))" by blast
  have "find_run (snd (em tid)) rid = Some r"
    using assms(2) by (simp add: find_run_def em_def emit_tables)
  then show ?thesis unfolding d'
    by (subst find_put_run [where r = r]) (simp_all add: em_def emit_run id)
qed

text \<open>
  C12. The race of a cancellation with a suspension strands the Run. If \<open>request_cancel\<close> reads a running
  Run, and when it acts the Run is no longer running but pending or waiting for input, without
  owner and lease, then the Run becomes cancelling and no operation that could end it does: it cannot
  be claimed, no heartbeat is accepted, recovery neither selects nor finalises it, and further
  cancellation requests change nothing. It stays the one active Run of its thread.
\<close>

theorem cancel_race_strands_run:
  assumes "reachable d0" "run_step\<^sup>*\<^sup>* d0 d1" "fresh_env e d1"
    and "find_run d0 rid = Some r0" "r_status r0 = RUNNING"
    and "find_run d1 rid = Some r1" "r_status r1 \<in> {PENDING, WAITING_INPUT}" "r_owner r1 = None" "r_lease r1 = None"
    and "request_cancel e username rid d0 d1 = Inr (x, d)"
  shows "reachable d \<and> (\<exists>r. find_run d rid = Some r \<and> r_status r = CANCELLING \<and>
    (\<forall>e worker lease. \<exists>ex. claim e rid worker lease d = Inl ex) \<and>
    (\<forall>e worker fence lease. \<exists>ex. heartbeat e rid worker fence lease d = Inl ex) \<and>
    (\<forall>now. rid \<notin> fst ` set (orphan_candidates now d)) \<and>
    (\<forall>e now fence. \<exists>ex. finalize e (orphan_args now rid fence) d = Inl ex) \<and>
    (\<forall>e user y d'. request_cancel e user rid d d = Inr (y, d') \<longrightarrow> d' = d) \<and>
    (\<forall>r' \<in> set (db_runs d). r_thread r' = r_thread r \<and> active (r_status r') \<longrightarrow> r' = r))"
proof -
  have mark: "mark_cancelling e username rid d1 = Inr (x, d)"
    using assms(4,5,10) by (auto simp: request_cancel_def get_run_def record_of_def split: option.splits if_splits)
  have "reachable d1" using run_steps_reachable [OF assms(2,1)] .
  then have d: "reachable d" using sys_step.run [OF run_step.cancelling [OF assms(3) mark]] by (rule reachable.step)
  obtain r where r: "stranded d rid r"
    using mark_cancelling_row [OF mark assms(6,7)] assms(8,9) by (auto simp: stranded_def)
  have row: "r \<in> set (db_runs d)" "active (r_status r)" using r find_run_SomeD by (auto simp: stranded_def)
  have "one_active_per_thread (db_runs d)" using reachable_inv [OF d] by (simp add: run_inv_def)
  then have one: "r' = r" if "r' \<in> set (db_runs d)" "r_thread r' = r_thread r" "active (r_status r')" for r'
    using that row distinct_key_unique [of r_thread "filter (\<lambda>r. active (r_status r)) (db_runs d)" r' r]
    by (simp add: one_active_per_thread_def)
  show ?thesis
    using d r stranded_claim [OF r] stranded_reconcile [OF d r] stranded_cancel [OF r] one
    unfolding stranded_def by blast
qed

text \<open>The worker of the concrete execution suspends its Run between the two transactions of the request.\<close>

definition fx_env4 :: env where
  "fx_env4 = fx_env\<lparr>env_uuid4 := (\<lambda>k. ''y'' @ replicate k CHR ''x'')\<rparr>"

definition fx_suspended :: db where
  "fx_suspended = (case set_waiting_input fx_env3 ''run_u'' ''w1'' 3 fx_claimed of Inr (x, d) \<Rightarrow> d | Inl _ \<Rightarrow> empty_db)"

definition fx_stranded :: db where
  "fx_stranded =
     (case request_cancel fx_env4 ''alice'' ''run_u'' fx_claimed fx_suspended of Inr (x, d) \<Rightarrow> d | Inl _ \<Rightarrow> empty_db)"

lemma fx_suspended_eval:
  "run_step fx_claimed fx_suspended"
  "fx_view fx_suspended = ([(''run_u'', WAITING_INPUT, 3, None)], [''evt_ux'', ''evt_v'', ''evt_w''],
     [''run_u'', ''run_u'', ''run_u''], [Some ''run_u:user'', Some ''run_u:assistant''], 0, 1)"
  "map r_lease (db_runs fx_suspended) = [None]"
proof -
  have ev: "case set_waiting_input fx_env3 ''run_u'' ''w1'' 3 fx_claimed of Inl _ \<Rightarrow> False
    | Inr (x, d) \<Rightarrow> fx_view d = ([(''run_u'', WAITING_INPUT, 3, None)], [''evt_ux'', ''evt_v'', ''evt_w''],
       [''run_u'', ''run_u'', ''run_u''], [Some ''run_u:user'', Some ''run_u:assistant''], 0, 1) \<and>
       map r_lease (db_runs d) = [None]"
    by code_simp
  then obtain x where "set_waiting_input fx_env3 ''run_u'' ''w1'' 3 fx_claimed = Inr (x, fx_suspended)"
    by (auto simp: fx_suspended_def split: sum.splits)
  then show "run_step fx_claimed fx_suspended" by (rule run_step.waiting [OF fx_claimed_fresh])
  show "fx_view fx_suspended = ([(''run_u'', WAITING_INPUT, 3, None)], [''evt_ux'', ''evt_v'', ''evt_w''],
     [''run_u'', ''run_u'', ''run_u''], [Some ''run_u:user'', Some ''run_u:assistant''], 0, 1)"
    "map r_lease (db_runs fx_suspended) = [None]"
    using ev by (auto simp: fx_suspended_def split: sum.splits)
qed

lemma fx_stranded_eval: "\<exists>x. request_cancel fx_env4 ''alice'' ''run_u'' fx_claimed fx_suspended = Inr (x, fx_stranded)"
proof -
  have "is_ok (request_cancel fx_env4 ''alice'' ''run_u'' fx_claimed fx_suspended)" by code_simp
  then show ?thesis by (auto simp: is_ok_def fx_stranded_def split: sum.splits)
qed

theorem cancel_race_strands_run_witness:
  "reachable fx_stranded \<and> (\<exists>r. find_run fx_stranded ''run_u'' = Some r \<and> r_status r = CANCELLING) \<and>
   (\<forall>now. ''run_u'' \<notin> fst ` set (orphan_candidates now fx_stranded))"
proof -
  obtain r0 where r0: "db_runs fx_claimed = [r0]" "r_status r0 = RUNNING" "r_id r0 = ''run_u''"
    using fx_claimed_eval(2) by (auto simp: fx_view_def)
  obtain r1 where r1: "db_runs fx_suspended = [r1]" "r_status r1 = WAITING_INPUT" "r_id r1 = ''run_u''"
      "r_owner r1 = None" "r_lease r1 = None"
    using fx_suspended_eval(2,3) by (auto simp: fx_view_def)
  have f: "find_run fx_claimed ''run_u'' = Some r0" "find_run fx_suspended ''run_u'' = Some r1"
    using r0 r1 by (simp_all add: find_run_def)
  have fresh: "fresh_env fx_env4 fx_suspended"
    by (rule fx_view_fresh [OF fx_suspended_eval(2), of "CHR ''y''"]) (auto simp: fx_env4_def inj_def)
  have st: "r_status r1 \<in> {PENDING, WAITING_INPUT}" using r1(2) by simp
  have steps: "run_step\<^sup>*\<^sup>* fx_claimed fx_suspended" using fx_suspended_eval(1) by (rule r_into_rtranclp)
  obtain x where "request_cancel fx_env4 ''alice'' ''run_u'' fx_claimed fx_suspended = Inr (x, fx_stranded)"
    using fx_stranded_eval by blast
  from cancel_race_strands_run [OF fx_claimed_reachable steps fresh f(1) r0(2) f(2) st r1(4,5) this]
  show ?thesis by blast
qed

end
