(* ===== verification/Event_Bus.thy ===== *)
theory Event_Bus
  imports Event_Journal
begin

text \<open>
  Delivery of journalled events: the bus of \<^verbatim>\<open>src/backend/events/bus.py\<close> and the outbox
  publisher of \<^verbatim>\<open>src/backend/events/outbox.py\<close>. The Redis transport only wakes subscribers up
  and mirrors events; whether its \<open>i\<close>-th call succeeds is the parameter \<open>ok\<close>. A subscription is
  driven by the list of its loop iterations, each with the state it reads and the clock; the
  journal it reads from is injected, as in the constructor of the bus.
\<close>

section \<open>Publishing\<close>

definition bus_publish ::
    "(run_event_v1 \<Rightarrow> bool) option \<Rightarrow> env \<Rightarrow> string \<Rightarrow> run_event_type \<Rightarrow> (string \<times> json) list
       \<Rightarrow> string option \<Rightarrow> int option \<Rightarrow> db \<Rightarrow> run_event_v1 tx" where
  "bus_publish transport e rid ty data worker fence d =
     (case journal_append e rid ty data worker fence d of
        Inl ex \<Rightarrow> Inl ex
      | Inr ((event, oid), d1) \<Rightarrow>
          Inr (event, case transport of
                        None \<Rightarrow> d1
                      | Some publish \<Rightarrow> if publish event then mark_outbox_published e oid d1 else d1))"

section \<open>Subscribing\<close>

fun deliver :: "int \<Rightarrow> run_event_v1 list \<Rightarrow> run_event_v1 list \<times> int \<times> bool" where
  "deliver cursor [] = ([], cursor, False)"
| "deliver cursor (ev # evs) =
     (if ev_sequence ev \<le> cursor then deliver cursor evs
      else if terminal_event (ev_type ev) then ([ev], ev_sequence ev, True)
      else (let (out, c, fin) = deliver (ev_sequence ev) evs in (ev # out, c, fin)))"

record subscription =
  sub_cursor :: int
  sub_deadline :: timestamp
  sub_done :: bool

definition subscribe_start :: "timestamp \<Rightarrow> timestamp \<Rightarrow> int \<Rightarrow> subscription" where
  "subscribe_start heartbeat now after =
     \<lparr> sub_cursor = max after 0, sub_deadline = now + heartbeat, sub_done = False \<rparr>"

text \<open>One iteration: what is yielded (\<open>None\<close> is a heartbeat) and the state after it.\<close>

definition subscribe_round ::
    "('d \<Rightarrow> int \<Rightarrow> run_event_v1 list) \<Rightarrow> timestamp \<Rightarrow> 'd \<times> timestamp \<Rightarrow> subscription
       \<Rightarrow> run_event_v1 option list \<times> subscription" where
  "subscribe_round read heartbeat p s =
     (case p of (d, now) \<Rightarrow>
      if sub_done s then ([], s)
      else
       (let events = read d (sub_cursor s)
        in if events \<noteq> []
           then (let (out, c, fin) = deliver (sub_cursor s) events
                 in (map Some out,
                     s\<lparr>sub_cursor := c, sub_done := fin,
                       sub_deadline := (if fin then sub_deadline s else now + heartbeat)\<rparr>))
           else if sub_deadline s - now \<le> 0
           then ([None], s\<lparr>sub_deadline := now + heartbeat\<rparr>)
           else ([], s)))"

definition subscribe_wait :: "timestamp \<Rightarrow> timestamp \<Rightarrow> subscription \<Rightarrow> timestamp" where
  "subscribe_wait poll_interval now s = min poll_interval (sub_deadline s - now)"

fun subscribe_rounds ::
    "('d \<Rightarrow> int \<Rightarrow> run_event_v1 list) \<Rightarrow> timestamp \<Rightarrow> ('d \<times> timestamp) list \<Rightarrow> subscription
       \<Rightarrow> run_event_v1 option list \<times> subscription" where
  "subscribe_rounds read heartbeat [] s = ([], s)"
| "subscribe_rounds read heartbeat (p # ps) s =
     (let (out, s1) = subscribe_round read heartbeat p s;
          (rest, s2) = subscribe_rounds read heartbeat ps s1
      in (out @ rest, s2))"

definition poll_journal :: "string \<Rightarrow> db \<Rightarrow> int \<Rightarrow> run_event_v1 list" where
  "poll_journal rid d cursor = read_rows d rid cursor 500"

definition subscribe ::
    "string \<Rightarrow> string \<Rightarrow> int \<Rightarrow> timestamp \<Rightarrow> db \<times> timestamp \<Rightarrow> (db \<times> timestamp) list
       \<Rightarrow> exn + run_event_v1 option list \<times> subscription" where
  "subscribe username rid after heartbeat start polls =
     (case assert_access (fst start) username rid of
        Inl ex \<Rightarrow> Inl ex
      | Inr _ \<Rightarrow> Inr (subscribe_rounds (poll_journal rid) heartbeat polls
                       (subscribe_start heartbeat (snd start) after)))"

section \<open>The outbox publisher\<close>

definition pending_rows :: "db \<Rightarrow> outbox_row list" where
  "pending_rows d = sort_key o_id (filter (\<lambda>x. o_published_at x = None) (db_outbox d))"

definition load_pending :: "nat \<Rightarrow> db \<Rightarrow> outbox_row list" where
  "load_pending limit d = take limit (pending_rows d)"

definition mark_attempt :: "int \<Rightarrow> db \<Rightarrow> db" where
  "mark_attempt oid d =
     d\<lparr>db_outbox := update_where (\<lambda>x. o_id x = oid) (\<lambda>x. x\<lparr>o_attempts := o_attempts x + 1\<rparr>) (db_outbox d)\<rparr>"

fun publish_items ::
    "(nat \<Rightarrow> bool) \<Rightarrow> nat \<Rightarrow> env \<Rightarrow> outbox_row list \<Rightarrow> db \<Rightarrow> run_event_v1 list \<times> db" where
  "publish_items ok i e [] d = ([], d)"
| "publish_items ok i e (x # xs) d =
     (if ok i
      then (let (sent, d') = publish_items ok (Suc i) e xs (mark_outbox_published e (o_id x) d)
            in (o_payload x # sent, d'))
      else ([], mark_attempt (o_id x) d))"

text \<open>The events handed to the transport, their number, and the database.\<close>

definition publish_pending ::
    "(nat \<Rightarrow> bool) \<Rightarrow> env \<Rightarrow> nat \<Rightarrow> nat option \<Rightarrow> db \<Rightarrow> run_event_v1 list \<times> nat \<times> db" where
  "publish_pending ok e batch limit d =
     (let size = (case limit of None \<Rightarrow> batch | Some n \<Rightarrow> if n = 0 then batch else n);
          (sent, d') = publish_items ok 0 e (load_pending size d) d
      in (sent, length sent, d'))"

text \<open>Passes of the publisher's loop; \<open>ok j i\<close> is the \<open>i\<close>-th call of the transport in
  the pass with \<open>j\<close> passes to go after it.\<close>

fun outbox_rounds ::
    "(nat \<Rightarrow> nat \<Rightarrow> bool) \<Rightarrow> env \<Rightarrow> nat \<Rightarrow> nat \<Rightarrow> db \<Rightarrow> run_event_v1 list \<times> db" where
  "outbox_rounds ok e batch 0 d = ([], d)"
| "outbox_rounds ok e batch (Suc k) d =
     (case publish_pending (ok k) e batch None d of
        (sent, n, d1) \<Rightarrow> (case outbox_rounds ok e batch k d1 of (rest, d2) \<Rightarrow> (sent @ rest, d2)))"

end
