(* ===== verification/Event_Delivery.thy ===== *)
theory Event_Delivery
  imports Event_Bus Run_Example
begin

text \<open>
  Delivery is complete and in order. The locale \<open>event_log\<close> is the contract between the bus and
  the journal; what a subscriber sees is proved once from it, and the run tables satisfy it.
\<close>

section \<open>The contract of a journal\<close>

lemma deliver_window:
  assumes "map ev_sequence evs = [c + 1..c + int (length evs)]"
    and "\<And>ev. ev \<in> set (butlast evs) \<Longrightarrow> \<not> terminal_event (ev_type ev)"
  shows "deliver c evs = (evs, c + int (length evs), evs \<noteq> [] \<and> terminal_event (ev_type (last evs)))"
  using assms
proof (induction evs arbitrary: c)
  case (Cons ev evs)
  have "[c + 1..c + int (length (ev # evs))] = (c + 1) # [c + 1 + 1..(c + 1) + int (length evs)]"
    by (subst upto_rec1) (simp_all add: algebra_simps)
  then have seq: "ev_sequence ev = c + 1" "map ev_sequence evs = [c + 1 + 1..(c + 1) + int (length evs)]"
    using Cons.prems(1) by simp_all
  show ?case
  proof (cases "evs = []")
    case True
    then show ?thesis using seq(1) by simp
  next
    case False
    then have "\<not> terminal_event (ev_type ev)" using Cons.prems(2) [of ev] by simp
    moreover have "deliver (c + 1) evs = (evs, c + 1 + int (length evs), terminal_event (ev_type (last evs)))"
      using Cons.IH [OF seq(2)] Cons.prems(2) False by simp
    ultimately show ?thesis using seq(1) False by (simp del: status_lists)
  qed
qed simp

definition yielded :: "run_event_v1 option list \<Rightarrow> run_event_v1 list" where
  "yielded out = List.map_filter (\<lambda>x. x) out"

lemma yielded_simps [simp]:
  "yielded [] = []" "yielded (map Some evs) = evs" "yielded [None] = []"
  "yielded (xs @ ys) = yielded xs @ yielded ys"
  by (simp_all add: yielded_def List.map_filter_def comp_def)

fun polled_along :: "('d \<Rightarrow> 'd \<Rightarrow> bool) \<Rightarrow> 'd \<Rightarrow> ('d \<times> timestamp) list \<Rightarrow> bool" where
  "polled_along R d [] \<longleftrightarrow> True"
| "polled_along R d (p # ps) \<longleftrightarrow> R d (fst p) \<and> polled_along R (fst p) ps"

fun final_state :: "'d \<Rightarrow> ('d \<times> timestamp) list \<Rightarrow> 'd" where
  "final_state d [] = d"
| "final_state d (p # ps) = final_state (fst p) ps"

locale event_log =
  fixes valid :: "'d \<Rightarrow> bool"
    and grows :: "'d \<Rightarrow> 'd \<Rightarrow> bool"
    and log :: "'d \<Rightarrow> run_event_v1 list"
    and read :: "'d \<Rightarrow> int \<Rightarrow> run_event_v1 list"
  assumes numbered: "valid d \<Longrightarrow> map ev_sequence (log d) = [1..int (length (log d))]"
    and closed: "valid d \<Longrightarrow> ev \<in> set (butlast (log d)) \<Longrightarrow> \<not> terminal_event (ev_type ev)"
    and read_log: "valid d \<Longrightarrow> read d (int c) = take 500 (drop c (log d))"
    and grows_valid: "valid d \<Longrightarrow> grows d d' \<Longrightarrow> valid d'"
    and grows_log: "valid d \<Longrightarrow> grows d d' \<Longrightarrow> \<exists>new. log d' = log d @ new"
begin

definition ended :: "'d \<Rightarrow> bool" where
  "ended d \<longleftrightarrow> log d \<noteq> [] \<and> terminal_event (ev_type (last (log d)))"

lemma ended_stays:
  assumes "valid d" and "grows d d'" and "ended d"
  shows "log d' = log d"
proof -
  obtain new where new: "log d' = log d @ new" using grows_log [OF assms(1,2)] by blast
  have "new = []"
  proof (rule ccontr)
    assume "new \<noteq> []"
    then have "last (log d) \<in> set (butlast (log d'))"
      using assms(3) by (simp add: new butlast_append ended_def)
    then show False
      using closed [OF grows_valid [OF assms(1,2)]] assms(3) unfolding ended_def by blast
  qed
  then show ?thesis using new by simp
qed

lemma deliver_read:
  assumes v: "valid d" and c: "c \<le> length (log d)"
  defines "evs \<equiv> take 500 (drop c (log d))"
  shows "deliver (int c) (read d (int c)) =
    (evs, int (c + length evs), evs \<noteq> [] \<and> c + length evs = length (log d) \<and> ended d)"
proof -
  have seq: "map ev_sequence evs = [int c + 1..int c + int (length evs)]"
  proof -
    have "map ev_sequence evs = take 500 (drop c [1..int (length (log d))])"
      unfolding evs_def take_map [symmetric] drop_map [symmetric] numbered [OF v] ..
    also have "\<dots> = [int c + 1..int c + int (length evs)]"
      using c by (intro nth_equalityI) (auto simp: evs_def nth_upto)
    finally show ?thesis .
  qed
  have sub: "\<not> terminal_event (ev_type ev)" if "ev \<in> set (butlast evs)" for ev
  proof -
    have "butlast evs = take (length evs - 1) (drop c (log d))"
      unfolding evs_def by (simp add: butlast_conv_take min_def)
    moreover have "length evs - 1 \<le> length (log d) - 1 - c" unfolding evs_def by simp
    ultimately have "set (butlast evs) \<subseteq> set (drop c (butlast (log d)))"
      by (metis butlast_conv_take drop_take set_take_subset_set_take)
    then show ?thesis using closed [OF v] that in_set_dropD by (metis subsetD)
  qed
  have last: "terminal_event (ev_type (last evs)) \<longleftrightarrow> c + length evs = length (log d) \<and> ended d"
    if "evs \<noteq> []"
  proof (cases "c + length evs = length (log d)")
    case True
    then have "evs = drop c (log d)" unfolding evs_def by (auto simp: min_def split: if_splits)
    then show ?thesis using True that by (auto simp: ended_def last_drop)
  next
    case False
    then have "c + length evs < length (log d)" unfolding evs_def using c by auto
    then have i: "c + (length evs - 1) < length (butlast (log d))"
      using that by (cases "length evs") auto
    have "last evs = log d ! (c + (length evs - 1))"
      using that unfolding evs_def by (simp add: last_conv_nth)
    also have "\<dots> = butlast (log d) ! (c + (length evs - 1))" using i by (simp add: nth_butlast)
    finally have "last evs \<in> set (butlast (log d))" using i by (metis nth_mem)
    then show ?thesis using closed [OF v] False by blast
  qed
  show ?thesis
    using deliver_window [OF seq sub] last read_log [OF v, of c] by (auto simp: evs_def)
qed

lemma polled_valid: "valid d \<Longrightarrow> polled_along grows d ps \<Longrightarrow> valid (final_state d ps)"
  by (induction ps arbitrary: d) (auto dest: grows_valid)

lemma polled_log: "valid d \<Longrightarrow> polled_along grows d ps \<Longrightarrow> \<exists>new. log (final_state d ps) = log d @ new"
proof (induction ps arbitrary: d)
  case (Cons p ps)
  then have "valid (fst p)" using grows_valid by simp
  then show ?case using Cons grows_log [of d "fst p"] by force
qed simp

lemma polled_ended: "valid d \<Longrightarrow> polled_along grows d ps \<Longrightarrow> ended d \<Longrightarrow> log (final_state d ps) = log d"
proof (induction ps arbitrary: d)
  case (Cons p ps)
  then have "valid (fst p)" "log (fst p) = log d" using grows_valid ended_stays by auto
  then show ?case using Cons by (simp add: ended_def)
qed simp

lemma done_rounds: "sub_done s \<Longrightarrow> subscribe_rounds read hb ps s = ([], s)"
  by (induction ps) (auto simp: subscribe_round_def)

text \<open>One iteration either delivers the next window or nothing.\<close>

lemma round_delivers:
  assumes "valid d" and "sub_cursor s = int c" and "c \<le> length (log d)" and "\<not> sub_done s"
    and "subscribe_round read hb (d, now) s = (out, s')"
  defines "evs \<equiv> take 500 (drop c (log d))"
  shows "yielded out = evs" and "sub_cursor s' = int (c + length evs)"
    and "sub_done s' \<longleftrightarrow> evs \<noteq> [] \<and> c + length evs = length (log d) \<and> ended d"
  using assms deliver_read [OF assms(1,3)] read_log [OF assms(1), of c]
  by (auto simp: subscribe_round_def Let_def split: if_splits)

lemma rounds_deliver:
  assumes "valid d" and "polled_along grows d ps" and "sub_cursor s = int c" and "c \<le> length (log d)"
    and "\<not> sub_done s" and "subscribe_rounds read hb ps s = (out, s')"
  shows "\<exists>n. yielded out = take n (drop c (log (final_state d ps))) \<and> sub_cursor s' = int (c + n) \<and>
    c + n \<le> length (log (final_state d ps)) \<and>
    (sub_done s' \<longrightarrow> c + n = length (log (final_state d ps)) \<and> ended (final_state d ps))"
  using assms
proof (induction ps arbitrary: d c s out)
  case Nil
  then show ?case by (intro exI [of _ 0]) auto
next
  case (Cons p ps)
  obtain d1 now where p: "p = (d1, now)" by force
  have v1: "valid d1" and al: "polled_along grows d1 ps" and g: "grows d d1"
    using Cons.prems(1,2) grows_valid by (auto simp: p)
  obtain new where "log d1 = log d @ new" using grows_log [OF Cons.prems(1) g] by blast
  then have c1: "c \<le> length (log d1)" using Cons.prems(4) by simp
  obtain out1 s1 where r: "subscribe_round read hb (d1, now) s = (out1, s1)" by force
  obtain out2 where rs: "subscribe_rounds read hb ps s1 = (out2, s')" and out: "out = out1 @ out2"
    using Cons.prems(6) by (auto simp: p r split: prod.splits)
  define evs where "evs = take 500 (drop c (log d1))"
  note rd = round_delivers [OF v1 Cons.prems(3) c1 Cons.prems(5) r, folded evs_def]
  have c2: "c + length evs \<le> length (log d1)" using c1 by (simp add: evs_def)
  obtain more where l: "log (final_state d1 ps) = log d1 @ more" using polled_log [OF v1 al] by blast
  have head: "evs = take (length evs) (drop c (log (final_state d1 ps)))"
    using c1 by (simp add: l evs_def min_def)
  show ?case
  proof (cases "sub_done s1")
    case True
    then have e: "c + length evs = length (log d1)" "ended d1" using rd(3) by auto
    have "log (final_state d1 ps) = log d1"
      using polled_ended [OF v1 al e(2)] .
    moreover have "ended (final_state d1 ps)" using e(2) calculation by (simp add: ended_def)
    moreover have "out2 = []" "s' = s1" using done_rounds [OF True, of hb ps] rs by simp_all
    ultimately show ?thesis
      using rd(1,2) e(1) head out by (intro exI [of _ "length evs"]) (simp add: p)
  next
    case False
    from Cons.IH [OF v1 al rd(2) c2 False rs] obtain n where n:
        "yielded out2 = take n (drop (c + length evs) (log (final_state d1 ps)))"
        "sub_cursor s' = int (c + length evs + n)" "c + length evs + n \<le> length (log (final_state d1 ps))"
        "sub_done s' \<longrightarrow> c + length evs + n = length (log (final_state d1 ps)) \<and> ended (final_state d1 ps)"
      by blast
    have "yielded out = take (length evs + n) (drop c (log (final_state d1 ps)))"
      unfolding take_add drop_drop using rd(1) n(1) head by (simp add: out add.commute)
    then show ?thesis
      using n(2-4) by (intro exI [of _ "length evs + n"]) (simp add: p add.assoc)
  qed
qed

text \<open>Once the log has ended, enough iterations deliver the rest and finish.\<close>

lemma rounds_finish:
  assumes "valid d" and "polled_along grows d ps" and "ended d" and "sub_cursor s = int c"
    and "c < length (log d)" and "\<not> sub_done s" and "length (log d) - c \<le> 500 * length ps"
  shows "sub_done (snd (subscribe_rounds read hb ps s))"
  using assms
proof (induction ps arbitrary: d c s)
  case (Cons p ps)
  obtain d1 now where p: "p = (d1, now)" by force
  have v1: "valid d1" and al: "polled_along grows d1 ps" and g: "grows d d1"
    using Cons.prems(1,2) grows_valid by (auto simp: p)
  have same: "log d1 = log d" by (rule ended_stays [OF Cons.prems(1) g Cons.prems(3)])
  then have e1: "ended d1" using Cons.prems(3) by (simp add: ended_def)
  obtain out1 s1 where r: "subscribe_round read hb (d1, now) s = (out1, s1)" by force
  define evs where "evs = take 500 (drop c (log d1))"
  have c1: "c \<le> length (log d1)" using Cons.prems(5) same by simp
  note rd = round_delivers [OF v1 Cons.prems(4) c1 Cons.prems(6) r, folded evs_def]
  show ?case
  proof (cases "sub_done s1")
    case True
    then show ?thesis using done_rounds [OF True, of hb ps] by (simp add: p r split: prod.splits)
  next
    case False
    then have lt: "c + length evs < length (log d1)"
      using rd(3) e1 Cons.prems(5) same c1 unfolding evs_def by auto
    then have "length evs = 500" unfolding evs_def by auto
    then have "length (log d1) - (c + length evs) \<le> 500 * length ps"
      using Cons.prems(7) same by simp
    from Cons.IH [OF v1 al e1 rd(2) lt False this] show ?thesis
      by (simp add: p r case_prod_beta)
  qed
qed simp

end

section \<open>The run tables satisfy the contract\<close>

definition readable :: "string \<Rightarrow> db \<Rightarrow> bool" where
  "readable rid d \<longleftrightarrow> reachable d \<and> find_run d rid \<noteq> None"

definition thread_name :: "string \<Rightarrow> db \<Rightarrow> string" where
  "thread_name rid d =
     (case find_run d rid of None \<Rightarrow> ''''
      | Some r \<Rightarrow> (case find_thread d (r_thread r) of None \<Rightarrow> '''' | Some t \<Rightarrow> th_thread_id t))"

definition wire_log :: "string \<Rightarrow> db \<Rightarrow> run_event_v1 list" where
  "wire_log rid d = map (to_event (thread_name rid d)) (run_log d rid)"

lemma readable_run:
  assumes "readable rid d"
  obtains r t where "find_run d rid = Some r" "r \<in> set (db_runs d)" "r_id r = rid" "run_ok d r"
    "find_thread d (r_thread r) = Some t" "thread_name rid d = th_thread_id t"
proof -
  obtain r where r: "find_run d rid = Some r" using assms by (auto simp: readable_def)
  have inv: "run_inv d" using assms by (simp add: readable_def reachable_inv)
  have rd: "r \<in> set (db_runs d)" "r_id r = rid" using find_run_SomeD [OF r] by auto
  moreover obtain t where "find_thread d (r_thread r) = Some t" using run_thread [OF inv rd(1)] by blast
  moreover have "run_ok d r" using inv rd(1) by (simp add: run_inv_def tables_inv_def)
  ultimately show thesis using that r by (simp add: thread_name_def)
qed

lemma log_after:
  assumes "map e_sequence es = [1..int (length es)]"
  shows "filter (\<lambda>e. int c < e_sequence e) es = drop c es"
proof (cases "c \<le> length es")
  case True
  have seq: "e_sequence (es ! i) = int i + 1" if "i < length es" for i
  proof -
    have "map e_sequence es ! i = [1..int (length es)] ! i" using assms by simp
    then show ?thesis using that by (simp add: nth_upto)
  qed
  have "filter (\<lambda>e. int c < e_sequence e) (take c es) = []"
    using seq by (auto simp: filter_empty_conv in_set_conv_nth)
  moreover have "filter (\<lambda>e. int c < e_sequence e) (drop c es) = drop c es"
    using seq by (auto simp: filter_id_conv in_set_conv_nth)
  ultimately show ?thesis by (metis append_Nil append_take_drop_id filter_append)
next
  case False
  have "e_sequence e \<le> int (length es)" if "e \<in> set es" for e
  proof -
    have "e_sequence e \<in> set (map e_sequence es)" using that by simp
    then show ?thesis unfolding assms by simp
  qed
  then have "filter (\<lambda>e. int c < e_sequence e) es = []" using False by (fastforce simp: filter_empty_conv)
  then show ?thesis using False by simp
qed

lemma run_log_numbered:
  assumes "log_of r d"
  shows "map e_sequence (run_log d (r_id r)) = [1..int (length (run_log d (r_id r)))]"
proof -
  have l: "map e_sequence (run_log d (r_id r)) = [1..r_last_event_sequence r]" "0 \<le> r_last_event_sequence r"
    using assms by (auto simp: log_of_def)
  from arg_cong [OF l(1), of length] have "length (run_log d (r_id r)) = nat (r_last_event_sequence r)"
    by (simp only: length_map length_upto diff_add_cancel)
  then show ?thesis using l by simp
qed

lemma poll_journal_eq:
  assumes "readable rid d"
  shows "poll_journal rid d (int c) = take 500 (drop c (wire_log rid d))"
proof -
  obtain r t where r: "find_run d rid = Some r" "r_id r = rid" "run_ok d r"
    and t: "find_thread d (r_thread r) = Some t" "thread_name rid d = th_thread_id t"
    using assms by (rule readable_run)
  have seq: "map e_sequence (run_log d rid) = [1..int (length (run_log d rid))]"
    using run_log_numbered [of r d] r(2,3) by (simp add: run_ok_def)
  have "filter (\<lambda>e. e_run e = rid \<and> max (int c) 0 < e_sequence e) (db_events d) = drop c (run_log d rid)"
    using log_after [OF seq, of c] by (simp add: run_log_def conj_commute)
  moreover have "sorted (map e_sequence (drop c (run_log d rid)))"
    unfolding drop_map [symmetric] seq by (simp add: sorted_wrt_drop)
  ultimately show ?thesis
    using r(1) t by (simp add: poll_journal_def read_rows_def wire_log_def sort_key_id_if_sorted take_map drop_map)
qed

lemma thread_name_stable:
  assumes "readable rid d" and steps: "run_step\<^sup>*\<^sup>* d d'" and r': "readable rid d'"
  shows "thread_name rid d' = thread_name rid d"
proof -
  have inv: "run_inv d" using assms(1) by (simp add: readable_def reachable_inv)
  obtain r t where r: "find_run d rid = Some r" and t: "find_thread d (r_thread r) = Some t"
      "thread_name rid d = th_thread_id t"
    using assms(1) by (rule readable_run)
  obtain r2 t2 where r2: "find_run d' rid = Some r2" and t2: "find_thread d' (r_thread r2) = Some t2"
      "thread_name rid d' = th_thread_id t2"
    using r' by (rule readable_run)
  obtain r1 where "find_run d' rid = Some r1" "run_evolves d d' r r1"
    using run_steps_find [OF steps inv r] by blast
  then have th: "r_thread r2 = r_thread r"
    using r2 by (auto simp: run_evolves_def dest: erase_run_cong(2))
  have s: "run_inv d'" "evolves d d'" using run_steps_safe [OF steps inv] by auto
  have td: "t \<in> set (db_threads d)" "th_id t = r_thread r" "t2 \<in> set (db_threads d')" "th_id t2 = r_thread r"
    using find_thread_SomeD [OF t(1)] find_thread_SomeD [OF t2(1)] th by auto
  then obtain t1 where t1: "t1 \<in> set (db_threads d')" "thread_key t1 = thread_key t"
    using evolves_parents [OF s(2)] unfolding parents_kept_def by (metis (no_types) imageE imageI subsetD)
  have "distinct (map th_id (db_threads d'))" using s(1) by (simp add: run_inv_def tables_inv_keys(2))
  then have "t1 = t2"
    using t1 td by (intro distinct_key_unique [of th_id]) (auto simp: thread_key_def)
  then show ?thesis using t1(2) t(2) t2(2) by (simp add: thread_key_def)
qed

lemma ends_with_butlast: "ends_with st tys \<Longrightarrow> list_all (\<lambda>t. \<not> terminal_event t) (butlast tys)"
  unfolding ends_with_def list_all_iff by (metis in_set_butlastD)

interpretation rj: event_log "readable rid" "run_step\<^sup>*\<^sup>*" "wire_log rid" "poll_journal rid" for rid
proof
  fix d
  assume v: "readable rid d"
  obtain r where r: "r \<in> set (db_runs d)" "r_id r = rid" "run_ok d r"
    using v by (rule readable_run)
  have seqs: "map ev_sequence (wire_log rid d) = map e_sequence (run_log d rid)"
    by (simp add: wire_log_def to_event_def comp_def)
  have "length (wire_log rid d) = length (run_log d rid)" by (simp add: wire_log_def)
  then show "map ev_sequence (wire_log rid d) = [1..int (length (wire_log rid d))]"
    unfolding seqs using run_log_numbered [of r d] r(2,3) by (simp add: run_ok_def)
  have types: "map ev_type (wire_log rid d) = map e_type (run_log d rid)"
    by (simp add: wire_log_def to_event_def comp_def)
  have "list_all (\<lambda>t. \<not> terminal_event t) (butlast (map e_type (run_log d rid)))"
    using r(2,3) by (intro ends_with_butlast [of "r_status r"]) (simp add: run_ok_def)
  then have all: "list_all (\<lambda>t. \<not> terminal_event t) (map ev_type (butlast (wire_log rid d)))"
    unfolding map_butlast types .
  show "\<not> terminal_event (ev_type ev)" if "ev \<in> set (butlast (wire_log rid d))" for ev
    using all that by (simp add: list_all_iff del: status_lists)
  show "poll_journal rid d (int c) = take 500 (drop c (wire_log rid d))" for c
    by (rule poll_journal_eq [OF v])
  fix d'
  assume g: "run_step\<^sup>*\<^sup>* d d'"
  obtain r0 where r0: "find_run d rid = Some r0" using v by (auto simp: readable_def)
  have inv: "run_inv d" using v by (simp add: readable_def reachable_inv)
  obtain r1 where r1: "find_run d' rid = Some r1" "run_evolves d d' r0 r1"
    by (rule run_steps_find [OF g inv r0])
  show v': "readable rid d'"
    using v r1(1) run_steps_reachable [OF g] by (simp add: readable_def)
  have "r_id r0 = rid" using find_run_SomeD [OF r0] by simp
  then show "\<exists>new. wire_log rid d' = wire_log rid d @ new"
    using r1(2) thread_name_stable [OF v g v'] by (auto simp: wire_log_def run_evolves_def)
qed

section \<open>What a subscriber sees\<close>

text \<open>
  C13. A subscription delivers every event exactly once and in order, whatever the interleaving
  of polls and transactions: what it has yielded is the contiguous piece of the journal from
  just behind the given position to its cursor, and when it stops it has delivered the
  terminal event and nothing is left.
\<close>

theorem subscribe_exactly_once:
  assumes "reachable d" and "find_run d rid \<noteq> None" and "polled_along run_step\<^sup>*\<^sup>* d ps"
    and "0 \<le> after" and "nat after \<le> length (wire_log rid d)"
    and "subscribe username rid after hb (d, now) ps = Inr (out, s)"
  shows "\<exists>n. yielded out = take n (drop (nat after) (wire_log rid (final_state d ps))) \<and>
    sub_cursor s = after + int n \<and>
    (sub_done s \<longrightarrow> yielded out = drop (nat after) (wire_log rid (final_state d ps)) \<and>
       wire_log rid (final_state d ps) \<noteq> [] \<and>
       terminal_event (ev_type (last (wire_log rid (final_state d ps)))))"
proof -
  have v: "readable rid d" using assms(1,2) by (simp add: readable_def)
  have r: "subscribe_rounds (poll_journal rid) hb ps (subscribe_start hb now after) = (out, s)"
    using assms(6) by (auto simp: subscribe_def split: sum.splits)
  obtain n where n: "yielded out = take n (drop (nat after) (wire_log rid (final_state d ps)))"
      "sub_cursor s = int (nat after + n)"
      "sub_done s \<longrightarrow> nat after + n = length (wire_log rid (final_state d ps)) \<and> rj.ended rid (final_state d ps)"
    using rj.rounds_deliver [OF v assms(3) _ assms(5) _ r] assms(4) by (auto simp: subscribe_start_def)
  moreover have "sub_cursor s = after + int n" using n(2) assms(4) by simp
  moreover have "yielded out = drop (nat after) (wire_log rid (final_state d ps)) \<and>
      wire_log rid (final_state d ps) \<noteq> [] \<and> terminal_event (ev_type (last (wire_log rid (final_state d ps))))"
    if "sub_done s"
    using n that unfolding rj.ended_def by auto
  ultimately show ?thesis by blast
qed

theorem subscribe_exactly_once_witness:
  "\<exists>out s n. subscribe ''alice'' ''run_u'' 1 5 (fx_done, 0) [(fx_done, 1)] = Inr (out, s) \<and>
     yielded out = take n (drop 1 (wire_log ''run_u'' fx_done)) \<and> sub_cursor s = 1 + int n"
proof -
  obtain r where f: "find_run fx_done ''run_u'' \<noteq> None"
    using fx_done_eval(2) by (auto simp: find_run_def)
  obtain out s where "subscribe ''alice'' ''run_u'' 1 5 (fx_done, 0) [(fx_done, 1)] = Inr (out, s)"
    using fx_done_eval(4) by (fastforce simp: subscribe_def is_ok_def split: sum.splits)
  then show ?thesis
    using subscribe_exactly_once [OF fx_later_reachable(1) f, of "[(fx_done, 1)]" 1] fx_done_eval(3)
    by (force simp: wire_log_def)
qed



end
