(* ===== verification/Outbox_Delivery.thy ===== *)
theory Outbox_Delivery
  imports Event_Bus
begin

text \<open>
  The outbox is published in order and at least once: a round hands a prefix of the pending
  rows to the transport, marks exactly these, and stops at the first failure; repeated rounds
  drain it. The primary key of the outbox is assumed unique.
\<close>

lemma insort_key_map: "insort_key f (g x) (map g xs) = map g (insort_key (\<lambda>x. f (g x)) x xs)"
  by (induction xs) auto

lemma sort_key_map: "sort_key f (map g xs) = map g (sort_key (\<lambda>x. f (g x)) xs)"
  by (induction xs) (simp_all add: insort_key_map)

text \<open>What identifies a pending row: its key and its event.\<close>

definition pending_view :: "db \<Rightarrow> (int \<times> run_event_v1) list" where
  "pending_view d = map (\<lambda>x. (o_id x, o_payload x)) (pending_rows d)"

lemma mark_published_pending:
  "pending_rows (mark_outbox_published e oid d) = filter (\<lambda>x. o_id x \<noteq> oid) (pending_rows d)"
proof -
  have "filter (\<lambda>x. o_published_at x = None) (update_where (\<lambda>x. o_id x = oid \<and> o_published_at x = None)
      (\<lambda>x. x\<lparr>o_published_at := Some (env_now e)\<rparr>) xs) =
    filter (\<lambda>x. o_published_at x = None \<and> o_id x \<noteq> oid) xs" for xs :: "outbox_row list"
    by (induction xs) auto
  then show ?thesis
    by (simp add: pending_rows_def mark_outbox_published_def filter_sort conj_commute)
qed

lemma mark_attempt_pending: "pending_view (mark_attempt oid d) = pending_view d"
proof -
  define g where "g = (\<lambda>x :: outbox_row. if o_id x = oid then x\<lparr>o_attempts := o_attempts x + 1\<rparr> else x)"
  have g: "o_id (g x) = o_id x" "o_published_at (g x) = o_published_at x" "o_payload (g x) = o_payload x" for x
    by (simp_all add: g_def)
  have "db_outbox (mark_attempt oid d) = map g (db_outbox d)"
    by (simp add: mark_attempt_def update_where_def g_def)
  then have "pending_rows (mark_attempt oid d) = map g (pending_rows d)"
    by (simp add: pending_rows_def filter_map comp_def sort_key_map g)
  then show ?thesis by (simp add: pending_view_def g)
qed

lemma mark_ids:
  "map o_id (db_outbox (mark_outbox_published e oid d)) = map o_id (db_outbox d)"
  "map o_id (db_outbox (mark_attempt oid d)) = map o_id (db_outbox d)"
  by (simp_all add: mark_outbox_published_def mark_attempt_def map_update_where)

lemma pending_distinct: "distinct (map o_id (db_outbox d)) \<Longrightarrow> distinct (map o_id (pending_rows d))"
proof -
  assume "distinct (map o_id (db_outbox d))"
  then have "distinct (map o_id (filter (\<lambda>x. o_published_at x = None) (db_outbox d)))"
    by (rule distinct_map_filter)
  then show ?thesis by (simp add: pending_rows_def distinct_map)
qed

lemma publish_items_prefix:
  assumes "distinct (map o_id (db_outbox d))" and "pending_rows d = xs @ ys"
    and "publish_items ok i e xs d = (sent, d')"
  shows "sent = map o_payload (take (length sent) xs) \<and> length sent \<le> length xs \<and>
    pending_view d' = drop (length sent) (pending_view d) \<and>
    distinct (map o_id (db_outbox d')) \<and>
    (length sent < length xs \<longrightarrow> \<not> ok (i + length sent)) \<and> (\<forall>j < length sent. ok (i + j))"
  using assms
proof (induction xs arbitrary: d i sent)
  case Nil
  then show ?case by simp
next
  case (Cons x xs)
  show ?case
  proof (cases "ok i")
    case False
    then show ?thesis
      using Cons.prems by (auto simp: mark_attempt_pending mark_ids)
  next
    case True
    let ?d = "mark_outbox_published e (o_id x) d"
    obtain sent1 where s1: "publish_items ok (Suc i) e xs ?d = (sent1, d')" "sent = o_payload x # sent1"
      using Cons.prems(3) True by (auto split: prod.splits)
    have "distinct (map o_id (x # xs @ ys))"
      using pending_distinct [OF Cons.prems(1)] Cons.prems(2) by simp
    then have "\<And>y. y \<in> set (xs @ ys) \<Longrightarrow> o_id y \<noteq> o_id x" by (auto simp: image_iff)
    then have "filter (\<lambda>y. o_id y \<noteq> o_id x) (xs @ ys) = xs @ ys" by (intro filter_True ballI)
    then have p: "pending_rows ?d = xs @ ys"
      unfolding mark_published_pending Cons.prems(2) by simp
    have v: "pending_view d = (o_id x, o_payload x) # pending_view ?d"
      by (simp add: pending_view_def p Cons.prems(2))
    have "distinct (map o_id (db_outbox ?d))" using Cons.prems(1) by (simp add: mark_ids)
    note IH = Cons.IH [OF this p s1(1)]
    have "ok (i + j)" if "j < length sent" for j
      using that IH True s1(2) by (cases j) auto
    then show ?thesis using IH by (simp add: s1(2) v)
  qed
qed

lemma publish_pending_facts:
  assumes "distinct (map o_id (db_outbox d))" and "publish_pending ok e batch None d = (sent, n, d')"
  shows "sent = map snd (take n (pending_view d)) \<and> pending_view d' = drop n (pending_view d) \<and>
    n \<le> batch \<and> n \<le> length (pending_view d) \<and> (\<forall>i < n. ok i) \<and>
    (n < min batch (length (pending_view d)) \<longrightarrow> \<not> ok n) \<and> distinct (map o_id (db_outbox d'))"
proof -
  have r: "publish_items ok 0 e (load_pending batch d) d = (sent, d')" "n = length sent"
    using assms(2) by (auto simp: publish_pending_def Let_def split: prod.splits)
  have "pending_rows d = load_pending batch d @ drop batch (pending_rows d)"
    by (simp add: load_pending_def)
  note p = publish_items_prefix [OF assms(1) this r(1)]
  have n: "n \<le> batch" "n \<le> length (load_pending batch d)" using p r(2) by (auto simp: load_pending_def)
  then have "map o_payload (take n (load_pending batch d)) = map snd (take n (pending_view d))"
    by (simp add: load_pending_def pending_view_def take_map min_absorb1)
  moreover have "length (load_pending batch d) = min batch (length (pending_view d))"
    by (simp add: load_pending_def pending_view_def)
  ultimately show ?thesis using p r(2) n(1) by simp
qed


lemma outbox_rounds_prefix:
  assumes "distinct (map o_id (db_outbox d))" and "0 < batch" and "\<And>j. j < k \<Longrightarrow> ok j 0"
    and "outbox_rounds ok e batch k d = (sent, d')"
  shows "\<exists>n. sent = map snd (take n (pending_view d)) \<and> pending_view d' = drop n (pending_view d) \<and>
    min k (length (pending_view d)) \<le> n"
  using assms
proof (induction k arbitrary: d sent)
  case 0
  then show ?case by (intro exI [of _ 0]) simp
next
  case (Suc k)
  obtain sent1 n d1 where p: "publish_pending (ok k) e batch None d = (sent1, n, d1)" by (metis prod_cases3)
  obtain rest where r: "outbox_rounds ok e batch k d1 = (rest, d')" "sent = sent1 @ rest"
    using Suc.prems(4) p by (auto split: prod.splits)
  note q = publish_pending_facts [OF Suc.prems(1) p]
  have d1: "distinct (map o_id (db_outbox d1))" using q by simp
  obtain m where m: "rest = map snd (take m (pending_view d1))" "pending_view d' = drop m (pending_view d1)"
      "min k (length (pending_view d1)) \<le> m"
    using Suc.IH [OF d1 Suc.prems(2) _ r(1)] Suc.prems(3) by auto
  have "0 < n" if "pending_view d \<noteq> []"
    using q Suc.prems(2) Suc.prems(3) [of k] that by (cases n) auto
  then have "min (Suc k) (length (pending_view d)) \<le> n + m"
    using m(3) q by (cases "pending_view d = []") auto
  moreover have "sent = map snd (take (n + m) (pending_view d))"
    using r(2) m(1) q by (simp add: take_add)
  ultimately show ?case
    using m(2) q by (intro exI [of _ "n + m"]) (simp add: add.commute)
qed

text \<open>
  C16. The outbox drains: as long as the transport accepts the first event of every round, as
  many rounds as there are pending events publish all of them in order and leave none.
\<close>

theorem outbox_drains:
  assumes "distinct (map o_id (db_outbox d))" and "0 < batch" and "\<And>j. ok j 0"
    and "length (pending_view d) \<le> k" and "outbox_rounds ok e batch k d = (sent, d')"
  shows "sent = map snd (pending_view d) \<and> pending_view d' = []"
proof -
  obtain n where "sent = map snd (take n (pending_view d))" "pending_view d' = drop n (pending_view d)"
      "min k (length (pending_view d)) \<le> n"
    using outbox_rounds_prefix [OF assms(1,2) _ assms(5)] assms(3) by blast
  then show ?thesis using assms(4) by simp
qed

text \<open>Three events of two Runs, the second one refused once.\<close>

definition fx_wire :: "string \<Rightarrow> int \<Rightarrow> run_event_v1" where
  "fx_wire rid n = \<lparr> ev_event_id = rid, ev_sequence = n, ev_run_id = rid, ev_thread_id = ''t1'',
     ev_type = RUN_CREATED, ev_timestamp = 0, ev_data = [] \<rparr>"

definition fx_outbox :: db where
  "fx_outbox = empty_db\<lparr>db_outbox := map (\<lambda>(i, rid, n). \<lparr> o_id = i, o_aggregate = rid, o_payload = fx_wire rid n,
     o_published_at = None, o_attempts = 0, o_created_at = 0 \<rparr>) [(1, ''a'', 1), (2, ''b'', 1), (3, ''a'', 2)]\<rparr>"

definition fx_outbox_env :: env where
  "fx_outbox_env = \<lparr> env_now = 9, env_uuid4 = (\<lambda>k. ''''), env_lease_seconds = 0, env_deadline = 0,
     env_disconnect_policy = '''', env_multitask_strategy = ENQUEUE, env_sha256 = (\<lambda>s. s) \<rparr>"

lemma fx_outbox_facts: "distinct (map o_id (db_outbox fx_outbox))"
  "pending_view fx_outbox = [(1, fx_wire ''a'' 1), (2, fx_wire ''b'' 1), (3, fx_wire ''a'' 2)]"
  by (simp_all add: fx_outbox_def pending_view_def pending_rows_def)


theorem outbox_drains_witness:
  "\<exists>d'. outbox_rounds (\<lambda>j i. i = 0) fx_outbox_env 10 3 fx_outbox =
       ([fx_wire ''a'' 1, fx_wire ''b'' 1, fx_wire ''a'' 2], d') \<and> pending_view d' = []"
proof -
  obtain sent d' where p: "outbox_rounds (\<lambda>j i. i = 0) fx_outbox_env 10 3 fx_outbox = (sent, d')" by force
  show ?thesis
    using outbox_drains [OF fx_outbox_facts(1) _ _ _ p] p unfolding fx_outbox_facts(2) by simp
qed

end
