(* ===== verification/Rate_Limits.thy ===== *)
theory Rate_Limits
  imports Errors
begin

text \<open>
  The inbound rate limiter: \<^verbatim>\<open>contracts.py\<close>, \<^verbatim>\<open>policy.py\<close>, \<^verbatim>\<open>adapters.py\<close> and \<^verbatim>\<open>limiter.py\<close> of
  \<^verbatim>\<open>src/backend/rate_limits\<close>. A clock reading is a number of microseconds since the epoch
  (\<open>None\<close> when the clock raises or is not finite). Redis is the map the Lua script works on,
  with the time of its \<open>TIME\<close> command; a client call that raises is \<open>None\<close>. The HMAC of the
  identity, already keyed, is the parameter \<open>hmac\<close>. HTTP methods are ASCII.
\<close>

section \<open>Contracts\<close>

datatype rl_exn = RateLimitUnavailable string string | RateLimitValueError

definition ident_re :: "string \<Rightarrow> bool" where
  "ident_re = fullmatch_ident is_lower
     (\<lambda>c. is_lower c \<or> is_digit c \<or> c \<in> {CHR ''_'', CHR ''.'', CHR ''-''}) 63"

definition rate_limit_unavailable :: "string \<Rightarrow> string \<Rightarrow> rl_exn" where
  "rate_limit_unavailable adapter reason =
     RateLimitUnavailable (if ident_re adapter then adapter else ''unknown'')
       (if ident_re reason then reason else ''unavailable'')"

definition positive_int :: "int \<Rightarrow> int \<Rightarrow> bool" where
  "positive_int maximum v \<longleftrightarrow> 1 \<le> v \<and> v \<le> maximum"

record rate_limit_policy =
  rp_id :: string
  rp_limit :: int
  rp_window_seconds :: int

definition RateLimitPolicy :: "string \<Rightarrow> int \<Rightarrow> int \<Rightarrow> rl_exn + rate_limit_policy" where
  "RateLimitPolicy pid limit window =
     (if ident_re pid \<and> positive_int 1000000 limit \<and> positive_int 86400 window
      then Inr \<lparr> rp_id = pid, rp_limit = limit, rp_window_seconds = window \<rparr>
      else Inl RateLimitValueError)"

record rate_limit_check =
  rc_method :: string
  rc_path :: string
  rc_client_identity :: string
  rc_cost :: int

definition method_re :: "string \<Rightarrow> bool" where
  "method_re s \<longleftrightarrow> list_all is_upper s \<and> 3 \<le> length s \<and> length s \<le> 12"

definition is_control :: "char \<Rightarrow> bool" where
  "is_control c \<longleftrightarrow> byte c < 32 \<or> byte c = 127"

definition path_part :: "string \<Rightarrow> string" where
  "path_part = takeWhile (\<lambda>c. c \<noteq> CHR ''?'')"

definition RateLimitCheck :: "string \<Rightarrow> string \<Rightarrow> string \<Rightarrow> int \<Rightarrow> rl_exn + rate_limit_check" where
  "RateLimitCheck method path identity cost =
     (let m = map ascii_upper (py_strip method); p = path_part path
      in if \<not> method_re m then Inl RateLimitValueError
         else if p = [] \<or> hd p \<noteq> CHR ''/'' \<or> 2048 < length p \<or> list_ex is_control p
         then Inl RateLimitValueError
         else if identity = [] \<or> 4096 < length identity then Inl RateLimitValueError
         else if \<not> positive_int 1000000 cost then Inl RateLimitValueError
         else Inr \<lparr> rc_method = m, rc_path = p, rc_client_identity = identity, rc_cost = cost \<rparr>)"

record snapshot =
  sn_allowed :: bool
  sn_remaining :: int
  sn_reset_at :: timestamp
  sn_observed_at :: timestamp

definition RateLimitSnapshot :: "bool \<Rightarrow> int \<Rightarrow> timestamp \<Rightarrow> timestamp \<Rightarrow> rl_exn + snapshot" where
  "RateLimitSnapshot allowed remaining reset_at observed_at =
     (if remaining < 0 \<or> reset_at < 0 \<or> observed_at < 0 \<or> reset_at < observed_at
      then Inl RateLimitValueError
      else Inr \<lparr> sn_allowed = allowed, sn_remaining = remaining, sn_reset_at = reset_at,
                 sn_observed_at = observed_at \<rparr>)"

record decision =
  de_policy_id :: string
  de_allowed :: bool
  de_limit :: int
  de_remaining :: int
  de_retry_after :: int
  de_reset :: int

definition RateLimitDecision ::
    "string \<Rightarrow> bool \<Rightarrow> int \<Rightarrow> int \<Rightarrow> int \<Rightarrow> int \<Rightarrow> rl_exn + decision" where
  "RateLimitDecision pid allowed limit remaining retry_after reset =
     (if ident_re pid \<and> positive_int 1000000 limit \<and> 0 \<le> remaining \<and> remaining \<le> limit \<and>
         0 \<le> retry_after \<and> 0 \<le> reset
      then Inr \<lparr> de_policy_id = pid, de_allowed = allowed, de_limit = limit,
                 de_remaining = remaining, de_retry_after = retry_after, de_reset = reset \<rparr>
      else Inl RateLimitValueError)"

section \<open>Route policies\<close>

definition AUTH_LOGIN_POLICY :: rate_limit_policy where
  "AUTH_LOGIN_POLICY = \<lparr> rp_id = ''auth-login'', rp_limit = 10, rp_window_seconds = 60 \<rparr>"

definition AUTH_REGISTER_POLICY :: rate_limit_policy where
  "AUTH_REGISTER_POLICY = \<lparr> rp_id = ''auth-register'', rp_limit = 5, rp_window_seconds = 3600 \<rparr>"

definition AUTH_REFRESH_POLICY :: rate_limit_policy where
  "AUTH_REFRESH_POLICY = \<lparr> rp_id = ''auth-refresh'', rp_limit = 120, rp_window_seconds = 60 \<rparr>"

definition AUTH_LOGOUT_POLICY :: rate_limit_policy where
  "AUTH_LOGOUT_POLICY = \<lparr> rp_id = ''auth-logout'', rp_limit = 120, rp_window_seconds = 60 \<rparr>"

definition THREAD_RUN_POLICY :: rate_limit_policy where
  "THREAD_RUN_POLICY = \<lparr> rp_id = ''thread-run'', rp_limit = 30, rp_window_seconds = 60 \<rparr>"

definition HITL_RESUME_POLICY :: rate_limit_policy where
  "HITL_RESUME_POLICY = \<lparr> rp_id = ''hitl-resume'', rp_limit = 30, rp_window_seconds = 60 \<rparr>"

definition DOCUMENT_UPLOAD_POLICY :: rate_limit_policy where
  "DOCUMENT_UPLOAD_POLICY = \<lparr> rp_id = ''document-upload'', rp_limit = 10, rp_window_seconds = 3600 \<rparr>"

definition GENERAL_API_POLICY :: rate_limit_policy where
  "GENERAL_API_POLICY = \<lparr> rp_id = ''api-general'', rp_limit = 120, rp_window_seconds = 60 \<rparr>"

text \<open>
  The regular expressions of the rules use literals, optional literals and \<open>[^/]+\<close>;
  \<open>path_fullmatch\<close> is \<open>Pattern.fullmatch\<close> for them.
\<close>

datatype path_re = Lit string | Opt string | Segment

fun segment_match :: "(string \<Rightarrow> bool) \<Rightarrow> string \<Rightarrow> bool" where
  "segment_match rest [] = False"
| "segment_match rest (c # cs) = (c \<noteq> CHR ''/'' \<and> (rest cs \<or> segment_match rest cs))"

definition strip_literal :: "string \<Rightarrow> string \<Rightarrow> string option" where
  "strip_literal l s = (if take (length l) s = l then Some (drop (length l) s) else None)"

fun path_fullmatch :: "path_re list \<Rightarrow> string \<Rightarrow> bool" where
  "path_fullmatch [] s = (s = [])"
| "path_fullmatch (Lit l # r) s =
     (case strip_literal l s of None \<Rightarrow> False | Some t \<Rightarrow> path_fullmatch r t)"
| "path_fullmatch (Opt l # r) s =
     ((case strip_literal l s of None \<Rightarrow> False | Some t \<Rightarrow> path_fullmatch r t) \<or> path_fullmatch r s)"
| "path_fullmatch (Segment # r) s = segment_match (path_fullmatch r) s"

record route_rule =
  rr_methods :: "string list"
  rr_pattern :: "path_re list"
  rr_policy :: rate_limit_policy

definition rule_matches :: "route_rule \<Rightarrow> string \<Rightarrow> string \<Rightarrow> bool" where
  "rule_matches r method path \<longleftrightarrow> method \<in> set (rr_methods r) \<and> path_fullmatch (rr_pattern r) path"

definition post_rule :: "path_re list \<Rightarrow> rate_limit_policy \<Rightarrow> route_rule" where
  "post_rule pat pol = \<lparr> rr_methods = [''POST''], rr_pattern = pat, rr_policy = pol \<rparr>"

definition DEFAULT_ROUTE_POLICY_RULES :: "route_rule list" where
  "DEFAULT_ROUTE_POLICY_RULES =
     [post_rule [Lit ''/auth/login'', Opt ''/''] AUTH_LOGIN_POLICY,
      post_rule [Lit ''/auth/register'', Opt ''/''] AUTH_REGISTER_POLICY,
      post_rule [Lit ''/auth/refresh'', Opt ''/''] AUTH_REFRESH_POLICY,
      post_rule [Lit ''/auth/logout'', Opt ''-all'', Opt ''/''] AUTH_LOGOUT_POLICY,
      post_rule [Lit ''/v1/threads/'', Segment, Lit ''/runs'', Opt ''/stream'', Opt ''/''] THREAD_RUN_POLICY,
      post_rule [Lit ''/v1/runs/'', Segment, Lit ''/resume'', Opt ''/''] HITL_RESUME_POLICY,
      post_rule [Lit ''/documents/upload/async'', Opt ''/''] DOCUMENT_UPLOAD_POLICY]"

definition route_match ::
    "route_rule list \<Rightarrow> rate_limit_policy \<Rightarrow> string \<Rightarrow> string \<Rightarrow> rate_limit_policy" where
  "route_match rules fallback method path =
     (let m = map ascii_upper (py_strip method); p = path_part path
      in case find (\<lambda>r. rule_matches r m p) rules of Some r \<Rightarrow> rr_policy r | None \<Rightarrow> fallback)"

definition default_match :: "string \<Rightarrow> string \<Rightarrow> rate_limit_policy" where
  "default_match = route_match DEFAULT_ROUTE_POLICY_RULES GENERAL_API_POLICY"

section \<open>The in-memory adapter\<close>

definition us_per_second :: int where
  "us_per_second = 1000000"

record memory_window =
  mw_count :: int
  mw_reset_at :: timestamp

record memory_adapter =
  ma_windows :: "string \<rightharpoonup> memory_window"
  ma_closed :: bool

definition memory_init :: memory_adapter where
  "memory_init = \<lparr> ma_windows = Map.empty, ma_closed = False \<rparr>"

definition purge_expired :: "timestamp \<Rightarrow> (string \<rightharpoonup> memory_window) \<Rightarrow> string \<rightharpoonup> memory_window" where
  "purge_expired now m =
     (\<lambda>k. case m k of None \<Rightarrow> None | Some w \<Rightarrow> if mw_reset_at w \<le> now then None else Some w)"

definition memory_consume ::
    "timestamp option \<Rightarrow> string \<Rightarrow> rate_limit_policy \<Rightarrow> int \<Rightarrow> memory_adapter
       \<Rightarrow> (rl_exn + snapshot) \<times> memory_adapter" where
  "memory_consume clock key policy cost a =
     (if ma_closed a then (Inl (rate_limit_unavailable ''memory'' ''closed''), a)
      else case clock of
        None \<Rightarrow> (Inl (rate_limit_unavailable ''memory'' ''clock_invalid''), a)
      | Some now \<Rightarrow>
          if now < 0 then (Inl (rate_limit_unavailable ''memory'' ''clock_invalid''), a)
          else
           (let windows = purge_expired now (ma_windows a);
                window = rp_window_seconds policy * us_per_second;
                state = (case windows key of
                           Some w \<Rightarrow> w
                         | None \<Rightarrow> \<lparr> mw_count = 0, mw_reset_at = (now div window + 1) * window \<rparr>);
                allowed = mw_count state + cost \<le> rp_limit policy;
                state' = (if allowed then state\<lparr>mw_count := mw_count state + cost\<rparr> else state);
                remaining = max (rp_limit policy - mw_count state') 0
            in (RateLimitSnapshot allowed remaining (mw_reset_at state') now,
                a\<lparr>ma_windows := windows(key \<mapsto> state')\<rparr>)))"

definition memory_close :: "memory_adapter \<Rightarrow> memory_adapter" where
  "memory_close a = a\<lparr>ma_windows := Map.empty, ma_closed := True\<rparr>"

section \<open>The Redis adapter\<close>

record redis_entry =
  re_window_start_ms :: int
  re_count :: int
  re_expire_at_ms :: int

type_synonym redis_store = "string \<rightharpoonup> redis_entry"

text \<open>The script: the key as Redis sees it at \<open>now\<close>, the reply and the store.\<close>

definition fixed_window_lua ::
    "timestamp \<Rightarrow> string \<Rightarrow> int \<Rightarrow> int \<Rightarrow> int \<Rightarrow> redis_store \<Rightarrow> int list \<times> redis_store" where
  "fixed_window_lua now key limit window_ms cost r =
     (let now_ms = now div us_per_second * 1000 + (now mod us_per_second) div 1000;
          window_start_ms = now_ms - now_ms mod window_ms;
          reset_at_ms = window_start_ms + window_ms;
          live = (case r key of
                    None \<Rightarrow> None
                  | Some h \<Rightarrow> if re_expire_at_ms h \<le> now_ms then None else Some h);
          stored_window_ms = map_option re_window_start_ms live;
          count0 = (case live of None \<Rightarrow> 0 | Some h \<Rightarrow> re_count h);
          count1 = (if stored_window_ms \<noteq> Some window_start_ms then 0 else count0);
          allowed = (if count1 + cost \<le> limit then 1 else 0);
          count2 = (if count1 + cost \<le> limit then count1 + cost else count1);
          remaining = (if limit - count2 < 0 then 0 else limit - count2)
      in ([allowed, remaining, reset_at_ms, now_ms],
          r(key \<mapsto> \<lparr> re_window_start_ms = window_start_ms, re_count = count2,
                     re_expire_at_ms = reset_at_ms \<rparr>)))"

datatype reply = RInt int | RBool bool | RText string | RNil

text \<open>\<open>int(text)\<close> for ASCII text.\<close>

fun int_digits :: "int \<Rightarrow> bool \<Rightarrow> string \<Rightarrow> int option" where
  "int_digits acc digit [] = (if digit then Some acc else None)"
| "int_digits acc digit (c # cs) =
     (if is_digit c then int_digits (acc * 10 + int (byte c - 48)) True cs
      else if c = CHR ''_'' \<and> digit then int_digits acc False cs
      else None)"

definition py_int :: "string \<Rightarrow> int option" where
  "py_int s =
     (case py_strip s of
        [] \<Rightarrow> None
      | c # cs \<Rightarrow>
          if c = CHR ''-'' then map_option uminus (int_digits 0 False cs)
          else if c = CHR ''+'' then int_digits 0 False cs
          else int_digits 0 False (c # cs))"

fun response_integer :: "reply \<Rightarrow> int option" where
  "response_integer (RBool b) = None"
| "response_integer (RInt i) = (if i < 0 then None else Some i)"
| "response_integer (RText s) =
     (case py_int s of None \<Rightarrow> None | Some i \<Rightarrow> if i < 0 then None else Some i)"
| "response_integer RNil = None"

record 'r redis_adapter =
  ra_client :: 'r
  ra_closed :: bool
  ra_close_client :: bool

definition read_response :: "rate_limit_policy \<Rightarrow> reply list \<Rightarrow> snapshot option" where
  "read_response policy response =
     (case response of
        [a, b, c, d] \<Rightarrow>
          (case (response_integer a, response_integer b, response_integer c, response_integer d) of
             (Some allowed_raw, Some remaining, Some reset_at_ms, Some observed_at_ms) \<Rightarrow>
               if allowed_raw \<notin> {0, 1} \<or> rp_limit policy < remaining then None
               else (case RateLimitSnapshot (allowed_raw = 1) remaining (reset_at_ms * 1000)
                            (observed_at_ms * 1000) of
                       Inl _ \<Rightarrow> None
                     | Inr s \<Rightarrow> Some s)
           | _ \<Rightarrow> None)
      | _ \<Rightarrow> None)"

definition redis_consume ::
    "(string \<Rightarrow> int \<Rightarrow> int \<Rightarrow> int \<Rightarrow> 'r \<Rightarrow> reply list option \<times> 'r) \<Rightarrow> string \<Rightarrow> rate_limit_policy
       \<Rightarrow> int \<Rightarrow> 'r redis_adapter \<Rightarrow> (rl_exn + snapshot) \<times> 'r redis_adapter" where
  "redis_consume eval key policy cost a =
     (if ra_closed a then (Inl (rate_limit_unavailable ''redis'' ''closed''), a)
      else case eval key (rp_limit policy) (rp_window_seconds policy * 1000) cost (ra_client a) of
        (response, r) \<Rightarrow>
          (case Option.bind response (read_response policy) of
             None \<Rightarrow> Inl (rate_limit_unavailable ''redis'' ''unavailable'')
           | Some s \<Rightarrow> Inr s, a\<lparr>ra_client := r\<rparr>))"

text \<open>A client that reaches a Redis server: the script is run at the server's time.\<close>

definition redis_server ::
    "timestamp \<Rightarrow> string \<Rightarrow> int \<Rightarrow> int \<Rightarrow> int \<Rightarrow> redis_store \<Rightarrow> reply list option \<times> redis_store" where
  "redis_server now key limit window_ms cost r =
     (case fixed_window_lua now key limit window_ms cost r of
        (out, r') \<Rightarrow> (Some (map RInt out), r'))"

definition redis_init :: "redis_store redis_adapter" where
  "redis_init = \<lparr> ra_client = Map.empty, ra_closed = False, ra_close_client = True \<rparr>"

text \<open>\<open>close\<close>: the error, if closing the client raises, and the adapter.\<close>

definition redis_close :: "bool \<Rightarrow> 'r redis_adapter \<Rightarrow> rl_exn option \<times> 'r redis_adapter" where
  "redis_close aclose_ok a =
     (if ra_closed a then (None, a)
      else (if ra_close_client a \<and> \<not> aclose_ok
            then Some (rate_limit_unavailable ''redis'' ''close_failed'') else None,
            a\<lparr>ra_closed := True\<rparr>))"

section \<open>The limiter\<close>

record 'a limiter =
  lm_adapter :: 'a
  lm_closed :: bool

definition key_prefix_re :: "string \<Rightarrow> bool" where
  "key_prefix_re = fullmatch_ident is_alnum
     (\<lambda>c. is_alnum c \<or> c \<in> {CHR ''_'', CHR ''.'', CHR '':'', CHR ''-''}) 63"

definition RateLimiter :: "string \<Rightarrow> string \<Rightarrow> 'a \<Rightarrow> rl_exn + 'a limiter" where
  "RateLimiter hmac_key prefix adapter =
     (if length hmac_key < 32 \<or> \<not> key_prefix_re prefix then Inl RateLimitValueError
      else Inr \<lparr> lm_adapter = adapter, lm_closed = False \<rparr>)"

definition storage_key :: "(string \<Rightarrow> string) \<Rightarrow> string \<Rightarrow> string \<Rightarrow> string \<Rightarrow> string" where
  "storage_key hmac prefix pid identity =
     prefix @ '':rate_limit:v1:'' @ pid @ '':'' @
     hmac (''rate-limit-identity-v1'' @ [CHR 0x00] @ pid @ [CHR 0x00] @ identity)"

definition ceil_seconds :: "timestamp \<Rightarrow> int" where
  "ceil_seconds t = - ((- t) div us_per_second)"

definition derive_decision :: "rate_limit_policy \<Rightarrow> snapshot \<Rightarrow> rl_exn + decision" where
  "derive_decision policy s =
     (if rp_limit policy < sn_remaining s
      then Inl (rate_limit_unavailable ''limiter'' ''invalid_adapter_response'')
      else RateLimitDecision (rp_id policy) (sn_allowed s) (rp_limit policy) (sn_remaining s)
             (if sn_allowed s then 0 else max 1 (ceil_seconds (sn_reset_at s - sn_observed_at s)))
             (ceil_seconds (sn_reset_at s)))"

definition limiter_check ::
    "(string \<Rightarrow> string) \<Rightarrow> string \<Rightarrow> (string \<Rightarrow> string \<Rightarrow> rate_limit_policy)
       \<Rightarrow> (string \<Rightarrow> rate_limit_policy \<Rightarrow> int \<Rightarrow> 'a \<Rightarrow> (rl_exn + snapshot) \<times> 'a)
       \<Rightarrow> rate_limit_check \<Rightarrow> 'a limiter \<Rightarrow> (rl_exn + decision) \<times> 'a limiter" where
  "limiter_check hmac prefix matcher consume chk l =
     (if lm_closed l then (Inl (rate_limit_unavailable ''limiter'' ''closed''), l)
      else
       (let policy = matcher (rc_method chk) (rc_path chk);
            key = storage_key hmac prefix (rp_id policy) (rc_client_identity chk)
        in case consume key policy (rc_cost chk) (lm_adapter l) of
             (res, a) \<Rightarrow>
               (case res of Inl ex \<Rightarrow> Inl ex | Inr s \<Rightarrow> derive_decision policy s,
                l\<lparr>lm_adapter := a\<rparr>)))"

definition limiter_close :: "('a \<Rightarrow> 'a) \<Rightarrow> 'a limiter \<Rightarrow> 'a limiter" where
  "limiter_close close l =
     (if lm_closed l then l else l\<lparr>lm_closed := True, lm_adapter := close (lm_adapter l)\<rparr>)"

text \<open>A sequence of checks, each at its time.\<close>

fun limiter_run ::
    "(timestamp \<Rightarrow> rate_limit_check \<Rightarrow> 'l \<Rightarrow> (rl_exn + decision) \<times> 'l)
       \<Rightarrow> (timestamp \<times> rate_limit_check) list \<Rightarrow> 'l \<Rightarrow> (rl_exn + decision) list \<times> 'l" where
  "limiter_run check [] l = ([], l)"
| "limiter_run check ((now, c) # rs) l =
     (case check now c l of
        (d, l1) \<Rightarrow> (case limiter_run check rs l1 of (ds, l2) \<Rightarrow> (d # ds, l2)))"

end
