(* ===== verification/Rate_Limit_Http.thy ===== *)
theory Rate_Limit_Http
  imports Rate_Limits Run_Request
begin

text \<open>
  The two callers of the limiter: the ASGI middleware of \<^verbatim>\<open>src/backend/rate_limits/http.py\<close> and the
  check of a login name of \<^verbatim>\<open>src/backend/rate_limits/auth.py\<close>. A scope has the entries the
  middleware reads; the resolver of bearer tokens is a parameter (\<open>None\<close> when it raises), and so
  are Unicode normalisation (NFKC and case folding) and SHA-256. The limiter is its \<open>check\<close>.
\<close>

section \<open>Scopes and identities\<close>

datatype scope_value = Missing | Text string | OtherValue

record scope =
  sc_type :: string
  sc_method :: scope_value
  sc_path :: scope_value
  sc_client_host :: "string option"
  sc_authorization :: "string option"

definition SKIP_EXACT :: "string list" where
  "SKIP_EXACT = [''/'', ''/docs'', ''/favicon.ico'', ''/health'', ''/health/live'', ''/health/ready'',
     ''/openapi.json'', ''/redoc'', ''/robots.txt'', ''/index.html'', ''/v1/health'']"

definition SKIP_PREFIXES :: "string list" where
  "SKIP_PREFIXES = [''/assets/'', ''/docs/'', ''/redoc/'', ''/static/'', ''/v1/health/'']"

definition HOST_ONLY_PATHS :: "string list" where
  "HOST_ONLY_PATHS = [''/auth/login'', ''/auth/register'', ''/auth/refresh'', ''/auth/logout'']"

definition VALIDATION_IDENTITY :: string where
  "VALIDATION_IDENTITY = ''host:request-target-validation''"

fun normalized_path :: "scope_value \<Rightarrow> string" where
  "normalized_path Missing = ''/''"
| "normalized_path (Text p) = p"
| "normalized_path OtherValue = []"

fun normalized_method :: "scope_value \<Rightarrow> string" where
  "normalized_method (Text m) = map ascii_upper m"
| "normalized_method _ = ''GET''"

definition must_skip :: "string \<Rightarrow> string \<Rightarrow> bool" where
  "must_skip method path \<longleftrightarrow> method = ''OPTIONS'' \<or> path \<in> set SKIP_EXACT \<or>
     list_ex (\<lambda>p. strip_literal p path \<noteq> None) SKIP_PREFIXES"

fun has_space :: "string \<Rightarrow> bool" where
  "has_space [] = False"
| "has_space (c # cs) = (0 < ws_head (map byte (c # cs)) \<or> has_space cs)"

definition bounded_secret :: "string option \<Rightarrow> string option" where
  "bounded_secret v =
     (case v of None \<Rightarrow> None
      | Some s \<Rightarrow> if s = [] \<or> 4080 < length s \<or> has_space s then None else Some s)"

definition bounded_subject :: "string option \<Rightarrow> string option" where
  "bounded_subject v =
     (case v of None \<Rightarrow> None
      | Some s \<Rightarrow> if s = [] \<or> 1024 < length s \<or> list_ex is_control s then None else Some s)"

definition client_host :: "scope \<Rightarrow> string" where
  "client_host sc =
     (case bounded_secret (sc_client_host sc) of None \<Rightarrow> ''unknown'' | Some h \<Rightarrow> h)"

definition bearer_token :: "scope \<Rightarrow> string option" where
  "bearer_token sc =
     (case sc_authorization sc of
        None \<Rightarrow> None
      | Some a \<Rightarrow>
          (case dropWhile (\<lambda>c. c \<noteq> CHR '' '') a of
             [] \<Rightarrow> None
           | _ # rest \<Rightarrow>
               if map ascii_lower (takeWhile (\<lambda>c. c \<noteq> CHR '' '') a) = ''bearer''
               then bounded_secret (Some rest) else None))"

definition strip_slashes :: "string \<Rightarrow> string" where
  "strip_slashes p = rev (dropWhile (\<lambda>c. c = CHR ''/'') (rev p))"

definition client_identity ::
    "(string \<Rightarrow> string option option) option \<Rightarrow> scope \<Rightarrow> string \<Rightarrow> string" where
  "client_identity resolver sc path =
     (let host_identity = ''host:'' @ client_host sc;
          route_path = (if strip_slashes path = [] then ''/'' else strip_slashes path)
      in if route_path \<in> set HOST_ONLY_PATHS then host_identity
         else (case (bearer_token sc, resolver) of
                 (Some token, Some resolve) \<Rightarrow>
                   (case Option.bind (resolve token) bounded_subject of
                      Some subject \<Rightarrow> ''subject:'' @ subject
                    | None \<Rightarrow> host_identity)
               | _ \<Rightarrow> host_identity))"

section \<open>Responses\<close>

definition py_str_int :: "int \<Rightarrow> string" where
  "py_str_int n = (if n < 0 then CHR ''-'' # dump_nat (nat (- n)) else dump_nat (nat n))"

record http_response =
  hr_status :: int
  hr_error :: public_error
  hr_headers :: "(string \<times> string) list"

definition limited_message :: string where
  "limited_message = utf8 [232, 175, 183, 230, 177, 130, 232, 191, 135, 228, 186, 142, 233, 162, 145, 231, 185,
     129, 239, 188, 140, 232, 175, 183, 231, 168, 141, 229, 144, 142, 233, 135, 141, 232, 175,
     149]"

definition unavailable_message :: string where
  "unavailable_message = utf8 [232, 175, 183, 230, 177, 130, 233, 153, 144, 230, 181, 129, 230, 156, 141, 229, 138,
     161, 230, 154, 130, 230, 151, 182, 228, 184, 141, 229, 143, 175, 231, 148, 168, 239, 188,
     140, 232, 175, 183, 231, 168, 141, 229, 144, 142, 233, 135, 141, 232, 175, 149]"

definition path_too_long_message :: string where
  "path_too_long_message = utf8 [232, 175, 183, 230, 177, 130, 232, 183, 175, 229, 190, 132, 232, 191, 135, 233, 149,
     191]"

definition path_invalid_message :: string where
  "path_invalid_message = utf8 [232, 175, 183, 230, 177, 130, 232, 183, 175, 229, 190, 132, 230, 151, 160, 230, 149,
     136]"

definition limited_response :: "decision \<Rightarrow> http_response" where
  "limited_response d =
     \<lparr> hr_status = 429,
       hr_error = normalize_public_error
         \<lparr> pe_code = error_value RATE_LIMITED, pe_message = limited_message, pe_status_code = 429,
           pe_retryable = True, pe_category = Some ''rate_limit'', pe_stage = Some (de_policy_id d),
           pe_provider = None, pe_retry_after = Some (of_int (de_retry_after d)),
           pe_details = [(''limit'', JInt (de_limit d)), (''remaining'', JInt (de_remaining d)),
                         (''reset'', JInt (de_reset d))] \<rparr>,
       hr_headers = [(''Retry-After'', py_str_int (de_retry_after d)), (''RateLimit-Limit'', py_str_int (de_limit d)),
                     (''RateLimit-Remaining'', py_str_int (de_remaining d)), (''RateLimit-Reset'', py_str_int (de_reset d))] \<rparr>"

definition unavailable_response :: http_response where
  "unavailable_response =
     \<lparr> hr_status = 503,
       hr_error = normalize_public_error
         \<lparr> pe_code = error_value RATE_LIMIT_UNAVAILABLE, pe_message = unavailable_message,
           pe_status_code = 503, pe_retryable = True, pe_category = Some ''rate_limit'',
           pe_stage = Some ''request'', pe_provider = None, pe_retry_after = Some 1, pe_details = [] \<rparr>,
       hr_headers = [(''Retry-After'', ''1'')] \<rparr>"

definition invalid_request_response :: "string \<Rightarrow> http_response" where
  "invalid_request_response path =
     (let too_long = 2048 < length path; status = (if too_long then 414 else 400)
      in \<lparr> hr_status = status,
           hr_error = normalize_public_error
             \<lparr> pe_code = error_value INVALID_REQUEST,
               pe_message = (if too_long then path_too_long_message else path_invalid_message),
               pe_status_code = status, pe_retryable = False, pe_category = Some ''request'',
               pe_stage = Some ''path'', pe_provider = None, pe_retry_after = None, pe_details = [] \<rparr>,
           hr_headers = [] \<rparr>)"

definition rate_limit_headers :: "decision \<Rightarrow> (string \<times> string) list" where
  "rate_limit_headers d =
     [(''ratelimit-limit'', py_str_int (de_limit d)), (''ratelimit-remaining'', py_str_int (de_remaining d)),
      (''ratelimit-reset'', py_str_int (de_reset d))]"

text \<open>The headers of the first message of a forwarded response.\<close>

definition with_rate_limit_headers ::
    "decision \<Rightarrow> (string \<times> string) list \<Rightarrow> (string \<times> string) list" where
  "with_rate_limit_headers d hs =
     filter (\<lambda>(n, _). map ascii_lower n \<notin>
       {''ratelimit-limit'', ''ratelimit-remaining'', ''ratelimit-reset''}) hs @ rate_limit_headers d"

section \<open>The middleware\<close>

text \<open>
  The request goes to the application, with the headers of a decision added to its response or
  without; or a response is sent; or an exception leaves the middleware.
\<close>

datatype outcome = Forward "decision option" | Respond http_response | Raise rl_exn

definition middleware_call ::
    "(string \<Rightarrow> string option option) option
       \<Rightarrow> (rate_limit_check \<Rightarrow> 'l \<Rightarrow> (rl_exn + decision) \<times> 'l) \<Rightarrow> scope \<Rightarrow> 'l \<Rightarrow> outcome \<times> 'l" where
  "middleware_call resolver check sc l =
     (if sc_type sc \<noteq> ''http'' then (Forward None, l)
      else
       (let path = normalized_path (sc_path sc)
        in case RateLimitCheck (normalized_method (sc_method sc)) path VALIDATION_IDENTITY 1 of
             Inl _ \<Rightarrow> (Respond (invalid_request_response path), l)
           | Inr target \<Rightarrow>
               if must_skip (rc_method target) (rc_path target) then (Forward None, l)
               else
                (case RateLimitCheck (rc_method target) (rc_path target)
                        (client_identity resolver sc (rc_path target)) 1 of
                   Inl _ \<Rightarrow> (Respond (invalid_request_response (rc_path target)), l)
                 | Inr c \<Rightarrow>
                     (case check c l of
                        (Inl (RateLimitUnavailable a r), l') \<Rightarrow> (Respond unavailable_response, l')
                      | (Inl RateLimitValueError, l') \<Rightarrow> (Raise RateLimitValueError, l')
                      | (Inr d, l') \<Rightarrow>
                          if \<not> de_allowed d then (Respond (limited_response d), l')
                          else (Forward (Some d), l')))))"

fun middleware_run ::
    "(timestamp \<Rightarrow> scope \<Rightarrow> 'l \<Rightarrow> outcome \<times> 'l) \<Rightarrow> (timestamp \<times> scope) list \<Rightarrow> 'l
       \<Rightarrow> outcome list \<times> 'l" where
  "middleware_run call [] l = ([], l)"
| "middleware_run call ((now, sc) # rs) l =
     (case call now sc l of
        (x, l1) \<Rightarrow> (case middleware_run call rs l1 of (xs, l2) \<Rightarrow> (x # xs, l2)))"

section \<open>Login names\<close>

definition bounded_username_identity ::
    "(string \<Rightarrow> string) \<Rightarrow> (string \<Rightarrow> string) \<Rightarrow> json option \<Rightarrow> string option" where
  "bounded_username_identity nfkc_fold sha256 v =
     (case v of
        Some (JStr s) \<Rightarrow>
          (let n = nfkc_fold s
           in if n = [] then None
              else if length n \<le> 1024 then Some n
              else Some (''sha256:'' @ sha256 n))
      | _ \<Rightarrow> None)"

definition direct_client_host :: "string option \<Rightarrow> string" where
  "direct_client_host client =
     (case client of
        None \<Rightarrow> ''unknown''
      | Some h \<Rightarrow>
          (let host = py_strip h
           in if host = [] \<or> 512 < length host then ''unknown'' else host))"

definition username_identity :: "string \<Rightarrow> string \<Rightarrow> string" where
  "username_identity host username = ''host:'' @ host @ [CHR 0x00] @ ''username:'' @ username"

text \<open>
  \<open>payload\<close> is the decoded body, \<open>None\<close> when it is not JSON. The result is the exception, if
  one is raised, and the limiter.
\<close>

definition enforce_auth_username_rate_limit ::
    "(string \<Rightarrow> string) \<Rightarrow> (string \<Rightarrow> string)
       \<Rightarrow> (rate_limit_check \<Rightarrow> 'l \<Rightarrow> (rl_exn + decision) \<times> 'l) option
       \<Rightarrow> string \<Rightarrow> string \<Rightarrow> string option \<Rightarrow> json option \<Rightarrow> 'l \<Rightarrow> exn option \<times> 'l" where
  "enforce_auth_username_rate_limit nfkc_fold sha256 limiter method path client payload l =
     (case (limiter, payload) of
        (Some check, Some (JObj kvs)) \<Rightarrow>
          (case bounded_username_identity nfkc_fold sha256 (jget (JObj kvs) ''username'') of
             None \<Rightarrow> (None, l)
           | Some username \<Rightarrow>
               (case RateLimitCheck method path
                       (username_identity (direct_client_host client) username) 2 of
                  Inl _ \<Rightarrow> (Some ValueError, l)
                | Inr c \<Rightarrow>
                    (case check c l of
                       (Inl (RateLimitUnavailable a r), l') \<Rightarrow>
                         (Some (AppError RATE_LIMIT_UNAVAILABLE 503 True []), l')
                     | (Inl RateLimitValueError, l') \<Rightarrow> (Some ValueError, l')
                     | (Inr d, l') \<Rightarrow>
                         if de_allowed d then (None, l')
                         else (Some (AppError RATE_LIMITED 429 True
                                 [(''limit'', JInt (de_limit d)), (''remaining'', JInt (de_remaining d)),
                                  (''reset'', JInt (de_reset d))]), l'))))
      | _ \<Rightarrow> (None, l))"

end
