(* ===== verification/Rate_Limit_Properties.thy ===== *)
theory Rate_Limit_Properties
  imports Rate_Limits
begin

text \<open>
  Correctness of the rate limiter. The specification of a fixed window is a function of the
  history of admitted checks. The locale \<open>fixed_window\<close> states what the limiter relies on in a
  storage adapter, for the policy \<open>pol key\<close> under which a key is used, and proves that a limiter
  over such an adapter decides as the specification does; both adapters are interpretations.
  The clock is assumed not to go backwards from one check to the next.
\<close>

section \<open>The specification\<close>

definition window_us :: "rate_limit_policy \<Rightarrow> int" where
  "window_us p = rp_window_seconds p * us_per_second"

definition window_index :: "rate_limit_policy \<Rightarrow> timestamp \<Rightarrow> int" where
  "window_index p t = t div window_us p"

definition window_end :: "rate_limit_policy \<Rightarrow> timestamp \<Rightarrow> timestamp" where
  "window_end p t = (window_index p t + 1) * window_us p"

definition policy_ok :: "rate_limit_policy \<Rightarrow> bool" where
  "policy_ok p \<longleftrightarrow> RateLimitPolicy (rp_id p) (rp_limit p) (rp_window_seconds p) = Inr p"

text \<open>An admitted check: its time, its key and its cost.\<close>

type_synonym history = "(timestamp \<times> string \<times> int) list"

definition spent :: "(string \<Rightarrow> rate_limit_policy) \<Rightarrow> history \<Rightarrow> timestamp \<Rightarrow> string \<Rightarrow> int" where
  "spent pol h now key =
     sum_list (map (\<lambda>(t, k, c). if k = key \<and> window_index (pol key) t = window_index (pol key) now
                                then c else 0) h)"

definition spec_decision :: "rate_limit_policy \<Rightarrow> timestamp \<Rightarrow> int \<Rightarrow> int \<Rightarrow> decision" where
  "spec_decision p now used cost =
     (let allowed = used + cost \<le> rp_limit p
      in \<lparr> de_policy_id = rp_id p, de_allowed = allowed, de_limit = rp_limit p,
           de_remaining = rp_limit p - (if allowed then used + cost else used),
           de_retry_after = (if allowed then 0 else ceil_seconds (window_end p now - now)),
           de_reset = (window_index p now + 1) * rp_window_seconds p \<rparr>)"

fun spec_run :: "(string \<Rightarrow> rate_limit_policy) \<Rightarrow> (rate_limit_check \<Rightarrow> string)
    \<Rightarrow> history \<Rightarrow> (timestamp \<times> rate_limit_check) list \<Rightarrow> decision list" where
  "spec_run pol key_of h [] = []"
| "spec_run pol key_of h ((now, c) # rs) =
     (let key = key_of c; d = spec_decision (pol key) now (spent pol h now key) (rc_cost c)
      in d # spec_run pol key_of (if de_allowed d then (now, key, rc_cost c) # h else h) rs)"

section \<open>Windows\<close>

lemma policy_okD:
  assumes "policy_ok p"
  shows "0 < window_us p" and "1 \<le> rp_limit p" and "1 \<le> rp_window_seconds p"
    and "ident_re (rp_id p)" and "positive_int 1000000 (rp_limit p)"
    and "rp_window_seconds p \<le> 86400"
  using assms
  by (auto simp: policy_ok_def RateLimitPolicy_def window_us_def us_per_second_def positive_int_def
      split: if_splits)

lemma ident_re_ok: "policy_ok p \<Longrightarrow> RateLimitDecision (rp_id p) b (rp_limit p) r n t =
  (if 0 \<le> r \<and> r \<le> rp_limit p \<and> 0 \<le> n \<and> 0 \<le> t
   then Inr \<lparr> de_policy_id = rp_id p, de_allowed = b, de_limit = rp_limit p, de_remaining = r,
              de_retry_after = n, de_reset = t \<rparr>
   else Inl RateLimitValueError)"
  by (simp add: RateLimitDecision_def policy_okD)

lemma window_bounds:
  assumes "policy_ok p"
  shows "window_index p t * window_us p \<le> t" and "t < window_end p t"
    and "window_end p t \<le> t + window_us p"
proof -
  have pos: "0 < window_us p" using assms by (rule policy_okD)
  have eq: "t = window_index p t * window_us p + t mod window_us p" by (simp add: window_index_def)
  have m: "0 \<le> t mod window_us p" "t mod window_us p < window_us p" using pos by simp_all
  show "window_index p t * window_us p \<le> t" using eq m by linarith
  show "t < window_end p t" "window_end p t \<le> t + window_us p"
    using eq m by (simp_all add: window_end_def distrib_right)
qed

lemma window_index_mono: "policy_ok p \<Longrightarrow> s \<le> t \<Longrightarrow> window_index p s \<le> window_index p t"
  using policy_okD(1) [of p] by (simp add: window_index_def zdiv_mono1)

lemma window_end_less_iff:
  assumes "policy_ok p"
  shows "window_end p s \<le> t \<longleftrightarrow> window_index p s < window_index p t"
proof
  assume "window_end p s \<le> t"
  then have "window_end p s div window_us p \<le> t div window_us p"
    using policy_okD(1) [OF assms] by (simp add: zdiv_mono1)
  then show "window_index p s < window_index p t"
    using policy_okD(1) [OF assms] by (simp add: window_end_def window_index_def)
next
  assume "window_index p s < window_index p t"
  then have "(window_index p s + 1) * window_us p \<le> window_index p t * window_us p"
    using policy_okD(1) [OF assms] by (intro mult_right_mono) auto
  then show "window_end p s \<le> t"
    using window_bounds(1) [OF assms, of t] by (simp add: window_end_def)
qed

lemma ceil_seconds_window_end: "policy_ok p \<Longrightarrow>
  ceil_seconds (window_end p t) = (window_index p t + 1) * rp_window_seconds p"
proof -
  have "- window_end p t = (- ((window_index p t + 1) * rp_window_seconds p)) * us_per_second"
    by (simp add: window_end_def window_us_def)
  then have "(- window_end p t) div us_per_second = - ((window_index p t + 1) * rp_window_seconds p)"
    by (simp only: us_per_second_def)
  then show ?thesis by (simp add: ceil_seconds_def)
qed

lemma ceil_seconds_diff: "ceil_seconds (k * us_per_second - t) = k - t div us_per_second"
proof -
  have "- (k * us_per_second - t) = t + (- k) * us_per_second" by simp
  then show ?thesis by (simp only: ceil_seconds_def us_per_second_def)
qed

lemma div_ms: "(t div 1000 * 1000) div us_per_second = (t::int) div us_per_second"
proof -
  have "t div us_per_second = t div 1000 div 1000"
    by (simp add: us_per_second_def flip: zdiv_zmult2_eq)
  moreover have "(t div 1000 * 1000) div us_per_second = (t div 1000 * 1000) div 1000 div 1000"
    by (simp add: us_per_second_def flip: zdiv_zmult2_eq)
  ultimately show ?thesis by simp
qed

text \<open>Reading the clock in milliseconds does not change a waiting time in whole seconds.\<close>

lemma ceil_seconds_ms:
  assumes "policy_ok p" and "observed = t \<or> observed = t div 1000 * 1000"
  shows "ceil_seconds (window_end p t - observed) = ceil_seconds (window_end p t - t)"
    and "1 \<le> ceil_seconds (window_end p t - t)" and "observed \<le> window_end p t"
    and "ceil_seconds (window_end p t - t) \<le> rp_window_seconds p"
    and "window_end p t \<le> t + ceil_seconds (window_end p t - t) * us_per_second"
proof -
  define k where "k = (window_index p t + 1) * rp_window_seconds p"
  have e: "window_end p t = k * us_per_second"
    by (simp add: window_end_def window_us_def k_def)
  have w: "t < k * us_per_second" "k * us_per_second \<le> t + rp_window_seconds p * us_per_second"
    using window_bounds(2,3) [OF assms(1), of t] e by (simp_all add: window_us_def)
  show "ceil_seconds (window_end p t - observed) = ceil_seconds (window_end p t - t)"
    using assms(2) by (auto simp: e ceil_seconds_diff div_ms)
  have q: "t div us_per_second * us_per_second \<le> t" "t < (t div us_per_second + 1) * us_per_second"
    by (simp_all add: us_per_second_def)
  have "t div us_per_second * us_per_second < k * us_per_second" using q w by linarith
  then have "t div us_per_second < k" by (simp add: us_per_second_def)
  then show "1 \<le> ceil_seconds (window_end p t - t)" by (simp add: e ceil_seconds_diff)
  have "t div 1000 * 1000 \<le> t" by simp
  then show "observed \<le> window_end p t" using assms(2) w e by auto
  have "(k - rp_window_seconds p) * us_per_second < (t div us_per_second + 1) * us_per_second"
    using q w by (simp add: left_diff_distrib)
  then have "k - rp_window_seconds p < t div us_per_second + 1" by (simp add: us_per_second_def)
  then show "ceil_seconds (window_end p t - t) \<le> rp_window_seconds p"
    by (simp add: e ceil_seconds_diff)
  show "window_end p t \<le> t + ceil_seconds (window_end p t - t) * us_per_second"
    using q by (simp add: e ceil_seconds_diff left_diff_distrib)
qed

section \<open>What the specification promises\<close>

definition spent_in :: "(string \<Rightarrow> rate_limit_policy) \<Rightarrow> history \<Rightarrow> string \<Rightarrow> int \<Rightarrow> int" where
  "spent_in pol h key k =
     sum_list (map (\<lambda>(t, x, c). if x = key \<and> window_index (pol key) t = k then c else 0) h)"

lemma spent_in_simps [simp]:
  "spent_in pol [] key k = 0"
  "spent_in pol ((t, x, c) # h) key k =
     (if x = key \<and> window_index (pol key) t = k then c else 0) + spent_in pol h key k"
  by (simp_all add: spent_in_def)

lemma spent_eq: "spent pol h now key = spent_in pol h key (window_index (pol key) now)"
  by (simp add: spent_def spent_in_def)

lemma spent_in_none:
  "\<forall>(t, x, c) \<in> set h. x = key \<longrightarrow> window_index (pol key) t \<noteq> k \<Longrightarrow> spent_in pol h key k = 0"
  by (induction h) auto

text \<open>The cost that was admitted for a key in its window \<open>k\<close>.\<close>

fun admitted :: "(string \<Rightarrow> rate_limit_policy) \<Rightarrow> (rate_limit_check \<Rightarrow> string) \<Rightarrow> string \<Rightarrow> int
    \<Rightarrow> (timestamp \<times> rate_limit_check) list \<Rightarrow> (rl_exn + decision) list \<Rightarrow> int" where
  "admitted pol key_of key k ((t, c) # rs) (Inr d # ds) =
     (if de_allowed d \<and> key_of c = key \<and> window_index (pol key) t = k then rc_cost c else 0)
     + admitted pol key_of key k rs ds"
| "admitted pol key_of key k (r # rs) (Inl ex # ds) = admitted pol key_of key k rs ds"
| "admitted pol key_of key k [] ds = 0"
| "admitted pol key_of key k rs [] = 0"

lemma spec_run_bounded:
  assumes "spent_in pol h key k \<le> rp_limit (pol key)"
  shows "spent_in pol h key k + admitted pol key_of key k rs (map Inr (spec_run pol key_of h rs))
    \<le> rp_limit (pol key)"
  using assms
proof (induction pol key_of h rs rule: spec_run.induct)
  case (1 pol key_of h)
  then show ?case by simp
next
  case (2 pol key_of h now c rs)
  define d where "d = spec_decision (pol (key_of c)) now (spent pol h now (key_of c)) (rc_cost c)"
  define h' where "h' = (if de_allowed d then (now, key_of c, rc_cost c) # h else h)"
  have "de_allowed d \<longleftrightarrow> spent pol h now (key_of c) + rc_cost c \<le> rp_limit (pol (key_of c))"
    by (simp add: d_def spec_decision_def Let_def)
  then have "spent_in pol h' key k \<le> rp_limit (pol key)"
    using "2.prems" by (auto simp: h'_def spent_eq)
  then have "spent_in pol h' key k + admitted pol key_of key k rs (map Inr (spec_run pol key_of h' rs))
      \<le> rp_limit (pol key)"
    using "2.IH" [OF refl] unfolding h'_def d_def by simp
  then show ?case by (auto simp: h'_def Let_def simp flip: d_def)
qed

section \<open>Adapters\<close>

locale fixed_window =
  fixes consume :: "timestamp \<Rightarrow> string \<Rightarrow> rate_limit_policy \<Rightarrow> int \<Rightarrow> 'a \<Rightarrow> (rl_exn + snapshot) \<times> 'a"
    and used :: "timestamp \<Rightarrow> string \<Rightarrow> 'a \<Rightarrow> int"
    and good :: "timestamp \<Rightarrow> 'a \<Rightarrow> bool"
    and pol :: "string \<Rightarrow> rate_limit_policy"
  assumes pol_ok: "policy_ok (pol key)"
    and consume_law: "good t a \<Longrightarrow> 0 \<le> now \<Longrightarrow> t \<le> now \<Longrightarrow> 1 \<le> cost \<Longrightarrow>
      \<exists>s a'. consume now key (pol key) cost a = (Inr s, a') \<and> good now a' \<and>
        sn_allowed s = (used now key a + cost \<le> rp_limit (pol key)) \<and>
        used now key a' = used now key a + (if sn_allowed s then cost else 0) \<and>
        (\<forall>k. k \<noteq> key \<longrightarrow> used now k a' = used now k a) \<and>
        sn_remaining s = rp_limit (pol key) - used now key a' \<and>
        sn_reset_at s = window_end (pol key) now \<and>
        (sn_observed_at s = now \<or> sn_observed_at s = now div 1000 * 1000)"
    and used_same: "good t a \<Longrightarrow> t \<le> now \<Longrightarrow>
      window_index (pol key) t = window_index (pol key) now \<Longrightarrow> used now key a = used t key a"
    and used_new: "good t a \<Longrightarrow>
      window_index (pol key) t < window_index (pol key) now \<Longrightarrow> used now key a = 0"
    and used_range: "good t a \<Longrightarrow> 0 \<le> used t key a \<and> used t key a \<le> rp_limit (pol key)"
begin

definition sim :: "timestamp \<Rightarrow> history \<Rightarrow> 'a \<Rightarrow> bool" where
  "sim t h a \<longleftrightarrow> good t a \<and> (\<forall>x \<in> set h. fst x \<le> t) \<and> (\<forall>key. used t key a = spent pol h t key)"

lemma used_spent:
  assumes "sim t h a" and "t \<le> now"
  shows "used now key a = spent pol h now key" and "0 \<le> used now key a"
    and "used now key a \<le> rp_limit (pol key)"
proof -
  let ?w = "window_index (pol key)"
  have le: "?w t \<le> ?w now" using window_index_mono [OF pol_ok assms(2)] .
  have g: "good t a" using assms(1) by (simp add: sim_def)
  consider "?w t = ?w now" | "?w t < ?w now" using le by linarith
  then have "used now key a = spent pol h now key \<and>
      0 \<le> used now key a \<and> used now key a \<le> rp_limit (pol key)"
  proof cases
    case 1
    then show ?thesis
      using used_same [OF g assms(2) 1] used_range [OF g, of key] assms(1)
      by (simp add: sim_def spent_eq)
  next
    case 2
    have "?w s < ?w now" if "(s, key, c) \<in> set h" for s c
    proof -
      have "s \<le> t" using that assms(1) by (auto simp: sim_def)
      then show ?thesis using 2 window_index_mono [OF pol_ok, of s t key] by linarith
    qed
    then have "spent pol h now key = 0"
      unfolding spent_eq by (intro spent_in_none) fastforce
    then show ?thesis
      using used_new [OF g 2] policy_okD(2) [OF pol_ok, of key] by simp
  qed
  then show "used now key a = spent pol h now key" "0 \<le> used now key a"
    "used now key a \<le> rp_limit (pol key)" by blast+
qed

lemma consume_decides:
  assumes "sim t h a" and "0 \<le> now" and "t \<le> now" and "1 \<le> cost"
    and "d = spec_decision (pol key) now (spent pol h now key) cost"
  shows "\<exists>s a'. consume now key (pol key) cost a = (Inr s, a') \<and>
    derive_decision (pol key) s = Inr d \<and>
    sim now (if de_allowed d then (now, key, cost) # h else h) a'"
proof -
  obtain s a' where c: "consume now key (pol key) cost a = (Inr s, a')" "good now a'"
    "sn_allowed s = (used now key a + cost \<le> rp_limit (pol key))"
    "used now key a' = used now key a + (if sn_allowed s then cost else 0)"
    "\<And>k. k \<noteq> key \<Longrightarrow> used now k a' = used now k a"
    "sn_remaining s = rp_limit (pol key) - used now key a'"
    "sn_reset_at s = window_end (pol key) now"
    "sn_observed_at s = now \<or> sn_observed_at s = now div 1000 * 1000"
    using consume_law [of t a now cost key] assms(1-4) by (auto simp: sim_def)
  have u: "used now k a = spent pol h now k" for k using used_spent(1) [OF assms(1,3)] .
  have al: "de_allowed d = sn_allowed s"
    by (simp add: assms(5) spec_decision_def Let_def c(3) u)
  note cs = ceil_seconds_ms [OF pol_ok [of key] c(8)]
  have reset: "0 \<le> (window_index (pol key) now + 1) * rp_window_seconds (pol key)"
    using policy_okD [OF pol_ok, of key] assms(2)
    by (simp add: window_index_def pos_imp_zdiv_nonneg_iff add_nonneg_nonneg)
  have "derive_decision (pol key) s = Inr d"
    using used_spent(2,3) [OF assms(1,3), of key] assms(4) cs(1,2) reset c(3,4,6,7)
    by (simp add: derive_decision_def ident_re_ok [OF pol_ok] assms(5) spec_decision_def Let_def u
        ceil_seconds_window_end [OF pol_ok] max_absorb2)
  moreover have "used now k a' = spent pol (if de_allowed d then (now, key, cost) # h else h) now k" for k
    using c(4) c(5) [of k] u [of k] by (cases "k = key") (auto simp: al spent_eq)
  then have "sim now (if de_allowed d then (now, key, cost) # h else h) a'"
    using assms(1,3) c(2) by (auto simp: sim_def)
  ultimately show ?thesis using c(1) by blast
qed

lemma run_decides:
  assumes "sim t h (lm_adapter l)" and "\<not> lm_closed l" and "0 \<le> t"
    and "sorted (t # map fst rs)"
    and "\<And>now c. (now, c) \<in> set rs \<Longrightarrow> 1 \<le> rc_cost c \<and>
      matcher (rc_method c) (rc_path c) = pol (key_of c) \<and>
      key_of c = storage_key hmac prefix (rp_id (pol (key_of c))) (rc_client_identity c)"
  shows "fst (limiter_run (\<lambda>now. limiter_check hmac prefix matcher (consume now)) rs l)
    = map Inr (spec_run pol key_of h rs)"
  using assms
proof (induction rs arbitrary: t h l)
  case Nil
  then show ?case by simp
next
  case (Cons r rs)
  obtain now c where r: "r = (now, c)" by (cases r)
  define d where "d = spec_decision (pol (key_of c)) now (spent pol h now (key_of c)) (rc_cost c)"
  have c: "1 \<le> rc_cost c" "matcher (rc_method c) (rc_path c) = pol (key_of c)"
    "storage_key hmac prefix (rp_id (pol (key_of c))) (rc_client_identity c) = key_of c"
    using Cons.prems(5) [of now c] by (auto simp: r)
  have t: "t \<le> now" "0 \<le> now" "sorted (now # map fst rs)" using Cons.prems(3,4) by (auto simp: r)
  obtain s a' where s: "consume now (key_of c) (pol (key_of c)) (rc_cost c) (lm_adapter l) = (Inr s, a')"
    "derive_decision (pol (key_of c)) s = Inr d"
    "sim now (if de_allowed d then (now, key_of c, rc_cost c) # h else h) a'"
    using consume_decides [OF Cons.prems(1) t(2,1) c(1) d_def] by blast
  have "fst (limiter_run (\<lambda>now. limiter_check hmac prefix matcher (consume now)) rs (l\<lparr>lm_adapter := a'\<rparr>))
      = map Inr (spec_run pol key_of (if de_allowed d then (now, key_of c, rc_cost c) # h else h) rs)"
    by (rule Cons.IH [of now]) (use s(3) Cons.prems(2,5) t(2,3) in auto)
  moreover have "limiter_check hmac prefix matcher (consume now) c l = (Inr d, l\<lparr>lm_adapter := a'\<rparr>)"
    using Cons.prems(2) by (simp add: limiter_check_def c(2,3) s(1,2))
  ultimately show ?case by (auto simp: r Let_def split: prod.splits simp flip: d_def)
qed

end

section \<open>The policy of a key\<close>

definition default_policies :: "rate_limit_policy list" where
  "default_policies = GENERAL_API_POLICY # map rr_policy DEFAULT_ROUTE_POLICY_RULES"

definition key_head :: "string \<Rightarrow> rate_limit_policy \<Rightarrow> string" where
  "key_head prefix p = prefix @ '':rate_limit:v1:'' @ rp_id p @ '':''"

definition policy_of_key :: "string \<Rightarrow> string \<Rightarrow> rate_limit_policy" where
  "policy_of_key prefix key =
     (case find (\<lambda>p. strip_literal (key_head prefix p) key \<noteq> None) default_policies of
        Some p \<Rightarrow> p
      | None \<Rightarrow> GENERAL_API_POLICY)"

lemmas policy_defs = AUTH_LOGIN_POLICY_def AUTH_REGISTER_POLICY_def AUTH_REFRESH_POLICY_def
  AUTH_LOGOUT_POLICY_def THREAD_RUN_POLICY_def HITL_RESUME_POLICY_def DOCUMENT_UPLOAD_POLICY_def
  GENERAL_API_POLICY_def

lemmas default_policies_defs = default_policies_def DEFAULT_ROUTE_POLICY_RULES_def post_rule_def

lemma default_policies_ok: "list_all policy_ok default_policies"
  by code_simp

text \<open>No identifier followed by a colon is the beginning of another one.\<close>

lemma default_ids_apart:
  "list_all (\<lambda>p. list_all (\<lambda>q. p = q \<or>
     (strip_literal (rp_id p @ '':'') (rp_id q @ '':'') = None \<and>
      take (length (rp_id q @ '':'')) (rp_id p @ '':'') \<noteq> rp_id q @ '':''))
     default_policies) default_policies"
  by code_simp

lemma default_match_policy: "default_match m p \<in> set default_policies"
  by (auto simp: default_match_def route_match_def default_policies_def Let_def
      dest!: find_SomeD split: option.splits)

lemma heads_comparable:
  assumes "take (length a) (b @ c) = a"
  shows "take (length a) b = a \<or> take (length b) a = b"
proof (cases "length a \<le> length b")
  case True
  then show ?thesis using assms by simp
next
  case False
  then have "take (length b) (take (length a) (b @ c)) = b" by (simp add: min_def)
  then show ?thesis using assms by metis
qed

lemma strip_literal_append: "strip_literal (a @ b) (a @ c) = strip_literal b c"
  by (simp add: strip_literal_def)

lemma policy_of_storage_key:
  assumes "p \<in> set default_policies"
  shows "policy_of_key prefix (storage_key hmac prefix (rp_id p) identity) = p"
proof -
  let ?key = "storage_key hmac prefix (rp_id p) identity"
  obtain digest where k: "?key = (prefix @ '':rate_limit:v1:'') @ (rp_id p @ '':'') @ digest"
    by (simp add: storage_key_def)
  have h: "key_head prefix q = (prefix @ '':rate_limit:v1:'') @ (rp_id q @ '':'')" for q
    by (simp add: key_head_def)
  have iff: "strip_literal (key_head prefix q) ?key \<noteq> None \<longleftrightarrow>
      take (length (rp_id q @ '':'')) ((rp_id p @ '':'') @ digest) = rp_id q @ '':''" for q
    unfolding k h strip_literal_append by (simp only: strip_literal_def) simp
  have "q = p" if "q \<in> set default_policies" and "strip_literal (key_head prefix q) ?key \<noteq> None" for q
  proof -
    have "p = q \<or> (strip_literal (rp_id p @ '':'') (rp_id q @ '':'') = None \<and>
        take (length (rp_id q @ '':'')) (rp_id p @ '':'') \<noteq> rp_id q @ '':'')"
      using default_ids_apart assms that(1) unfolding list_all_iff by blast
    moreover have "take (length (rp_id q @ '':'')) (rp_id p @ '':'') = rp_id q @ '':'' \<or>
        take (length (rp_id p @ '':'')) (rp_id q @ '':'') = rp_id p @ '':''"
      using heads_comparable that(2) unfolding iff by blast
    ultimately show ?thesis by (auto simp only: strip_literal_def split: if_splits)
  qed
  moreover have "strip_literal (key_head prefix p) ?key \<noteq> None"
    unfolding iff by simp
  ultimately show ?thesis
    using assms find_SomeD find_NoneD unfolding policy_of_key_def
    by (smt (verit, ccfv_threshold) option.exhaust option.simps(5))
qed

lemma policy_of_key_ok: "policy_ok (policy_of_key prefix key)"
  using default_policies_ok
  by (auto simp: policy_of_key_def list_all_iff default_policies_def dest!: find_SomeD
      split: option.splits)

section \<open>Both adapters are fixed windows\<close>

definition memory_used :: "timestamp \<Rightarrow> string \<Rightarrow> memory_adapter \<Rightarrow> int" where
  "memory_used now key a =
     (case ma_windows a key of
        None \<Rightarrow> 0 | Some w \<Rightarrow> if mw_reset_at w \<le> now then 0 else mw_count w)"

definition memory_good :: "(string \<Rightarrow> rate_limit_policy) \<Rightarrow> timestamp \<Rightarrow> memory_adapter \<Rightarrow> bool" where
  "memory_good pol t a \<longleftrightarrow> \<not> ma_closed a \<and>
     (\<forall>key w. ma_windows a key = Some w \<longrightarrow>
        (\<exists>s \<le> t. mw_reset_at w = window_end (pol key) s) \<and>
        0 \<le> mw_count w \<and> mw_count w \<le> rp_limit (pol key))"

lemma memory_windowE:
  assumes "memory_good pol t a" and "ma_windows a key = Some w"
  obtains s where "s \<le> t" and "mw_reset_at w = window_end (pol key) s"
    and "0 \<le> mw_count w" and "mw_count w \<le> rp_limit (pol key)"
  using assms unfolding memory_good_def by blast

lemma memory_used_same:
  assumes "policy_ok (pol key)" and "memory_good pol t a"
    and "window_index (pol key) t = window_index (pol key) now"
  shows "memory_used now key a = memory_used t key a"
proof (cases "ma_windows a key")
  case (Some w)
  with assms(2) obtain s where "mw_reset_at w = window_end (pol key) s" by (rule memory_windowE)
  then show ?thesis
    using assms(3) Some by (simp add: memory_used_def window_end_less_iff [OF assms(1)])
qed (simp add: memory_used_def)

lemma memory_used_new:
  assumes "policy_ok (pol key)" and "memory_good pol t a"
    and "window_index (pol key) t < window_index (pol key) now"
  shows "memory_used now key a = 0"
proof (cases "ma_windows a key")
  case (Some w)
  with assms(2) obtain s where "s \<le> t" "mw_reset_at w = window_end (pol key) s" by (rule memory_windowE)
  then show ?thesis
    using assms(3) Some window_index_mono [OF assms(1), of s t]
    by (simp add: memory_used_def window_end_less_iff [OF assms(1)])
qed (simp add: memory_used_def)

lemma memory_used_range:
  assumes "policy_ok (pol key)" and "memory_good pol t a"
  shows "0 \<le> memory_used now key a \<and> memory_used now key a \<le> rp_limit (pol key)"
proof (cases "ma_windows a key")
  case (Some w)
  with assms(2) obtain s where "0 \<le> mw_count w" "mw_count w \<le> rp_limit (pol key)" by (rule memory_windowE)
  then show ?thesis using Some policy_okD(2) [OF assms(1)] by (simp add: memory_used_def)
qed (use policy_okD(2) [OF assms(1)] in \<open>simp add: memory_used_def\<close>)

lemma memory_window_now:
  assumes "policy_ok (pol key)" and "memory_good pol t a" and "t \<le> now"
    and "purge_expired now (ma_windows a) key = Some w"
  shows "mw_reset_at w = window_end (pol key) now"
proof -
  have w: "ma_windows a key = Some w" "\<not> mw_reset_at w \<le> now"
    using assms(4) by (auto simp: purge_expired_def split: option.splits if_splits)
  obtain s where s: "s \<le> t" "mw_reset_at w = window_end (pol key) s"
    using assms(2) w(1) by (rule memory_windowE)
  have "window_index (pol key) s = window_index (pol key) now"
    using w(2) s window_index_mono [OF assms(1), of s now] assms(3)
    by (simp add: window_end_less_iff [OF assms(1)])
  then show ?thesis by (simp add: s(2) window_end_def)
qed

lemma memory_good_update:
  assumes "memory_good pol t a" and "t \<le> now" and "mw_reset_at w = window_end (pol key) now"
    and "0 \<le> mw_count w" and "mw_count w \<le> rp_limit (pol key)"
  shows "memory_good pol now (a\<lparr>ma_windows := (purge_expired now (ma_windows a))(key \<mapsto> w)\<rparr>)"
  using assms unfolding memory_good_def
  by (auto simp: purge_expired_def split: option.splits if_splits) (meson order_trans)+

lemma memory_used_update:
  "memory_used now k (a\<lparr>ma_windows := (purge_expired now (ma_windows a))(key \<mapsto> w)\<rparr>) =
     (if k = key then if mw_reset_at w \<le> now then 0 else mw_count w else memory_used now k a)"
  by (auto simp: memory_used_def purge_expired_def split: option.splits)

lemma memory_consume_law:
  assumes ok: "policy_ok (pol key)" and good: "memory_good pol t a"
    and now: "0 \<le> now" "t \<le> now" and cost: "1 \<le> cost"
  defines "u \<equiv> memory_used now key a"
  defines "al \<equiv> u + cost \<le> rp_limit (pol key)"
  defines "u' \<equiv> if al then u + cost else u"
  shows "memory_consume (Some now) key (pol key) cost a =
      (Inr \<lparr> sn_allowed = al, sn_remaining = rp_limit (pol key) - u',
             sn_reset_at = window_end (pol key) now, sn_observed_at = now \<rparr>,
       a\<lparr>ma_windows := (purge_expired now (ma_windows a))
           (key \<mapsto> \<lparr> mw_count = u', mw_reset_at = window_end (pol key) now \<rparr>)\<rparr>)"
proof -
  define st where "st = (case purge_expired now (ma_windows a) key of
      Some w \<Rightarrow> w | None \<Rightarrow> \<lparr> mw_count = 0, mw_reset_at = window_end (pol key) now \<rparr>)"
  have "mw_reset_at st = window_end (pol key) now \<and> mw_count st = u"
  proof (cases "purge_expired now (ma_windows a) key")
    case None
    then show ?thesis
      by (auto simp: st_def u_def memory_used_def purge_expired_def split: option.splits if_splits)
  next
    case (Some w)
    then show ?thesis
      using memory_window_now [where pol = pol, OF ok good now(2) Some]
      by (auto simp: st_def u_def memory_used_def purge_expired_def split: option.splits if_splits)
  qed
  then have st: "st = \<lparr> mw_count = u, mw_reset_at = window_end (pol key) now \<rparr>"
    by (cases st) simp
  have r: "0 \<le> u" "u \<le> rp_limit (pol key)"
    using memory_used_range [where pol = pol, OF ok good] by (simp_all add: u_def)
  have "memory_consume (Some now) key (pol key) cost a =
      (RateLimitSnapshot al (max (rp_limit (pol key) - u') 0) (window_end (pol key) now) now,
       a\<lparr>ma_windows := (purge_expired now (ma_windows a))
           (key \<mapsto> \<lparr> mw_count = u', mw_reset_at = window_end (pol key) now \<rparr>)\<rparr>)"
    using good now(1) st unfolding st_def window_end_def window_index_def window_us_def
    by (auto simp: memory_consume_def memory_good_def Let_def al_def u'_def)
  moreover have "u' \<le> rp_limit (pol key)" using r by (simp add: u'_def al_def)
  ultimately show ?thesis
    using window_bounds(2) [OF ok, of now] now(1) by (simp add: RateLimitSnapshot_def)
qed

lemma memory_fixed_window:
  assumes ok: "\<And>key. policy_ok (pol key)"
  shows "fixed_window (\<lambda>now. memory_consume (Some now)) memory_used (memory_good pol) pol"
proof (unfold_locales, goal_cases)
  case (1 key)
  show ?case by (rule ok)
next
  case (2 t a now cost key)
  note r = memory_used_range [where pol = pol, OF ok 2(1), of now key]
  show ?case
    using r 2(4) window_bounds(2) [OF ok, of now key]
    by (auto simp: memory_consume_law [where pol = pol, OF ok 2] memory_used_update
        intro!: memory_good_update [OF 2(1,3)])
next
  case (3 t a now key)
  then show ?case by (intro memory_used_same [where pol = pol] ok)
next
  case (4 t a key now)
  then show ?case by (intro memory_used_new [where pol = pol] ok)
next
  case (5 t a key)
  then show ?case by (intro memory_used_range [where pol = pol] ok)
qed

definition window_ms :: "rate_limit_policy \<Rightarrow> int" where
  "window_ms p = rp_window_seconds p * 1000"

definition start_ms :: "rate_limit_policy \<Rightarrow> timestamp \<Rightarrow> int" where
  "start_ms p t = window_index p t * window_ms p"

definition redis_used ::
    "(string \<Rightarrow> rate_limit_policy) \<Rightarrow> timestamp \<Rightarrow> string \<Rightarrow> redis_store redis_adapter \<Rightarrow> int" where
  "redis_used pol now key a =
     (case ra_client a key of
        None \<Rightarrow> 0 | Some h \<Rightarrow> if re_window_start_ms h = start_ms (pol key) now then re_count h else 0)"

definition redis_good ::
    "(string \<Rightarrow> rate_limit_policy) \<Rightarrow> timestamp \<Rightarrow> redis_store redis_adapter \<Rightarrow> bool" where
  "redis_good pol t a \<longleftrightarrow> \<not> ra_closed a \<and>
     (\<forall>key h. ra_client a key = Some h \<longrightarrow>
        (\<exists>s \<le> t. re_window_start_ms h = start_ms (pol key) s) \<and>
        re_expire_at_ms h = re_window_start_ms h + window_ms (pol key) \<and>
        0 \<le> re_count h \<and> re_count h \<le> rp_limit (pol key))"

lemma redis_entryE:
  assumes "redis_good pol t a" and "ra_client a key = Some h"
  obtains s where "s \<le> t" and "re_window_start_ms h = start_ms (pol key) s"
    and "re_expire_at_ms h = re_window_start_ms h + window_ms (pol key)"
    and "0 \<le> re_count h" and "re_count h \<le> rp_limit (pol key)"
  using assms unfolding redis_good_def by blast

lemma redis_used_new:
  assumes "policy_ok (pol key)" and "redis_good pol t a"
    and "window_index (pol key) t < window_index (pol key) now"
  shows "redis_used pol now key a = 0"
proof (cases "ra_client a key")
  case (Some h)
  with assms(2) obtain s where s: "s \<le> t" "re_window_start_ms h = start_ms (pol key) s"
    by (rule redis_entryE)
  have "window_index (pol key) s < window_index (pol key) now"
    using s(1) assms(3) window_index_mono [OF assms(1), of s t] by linarith
  then have "start_ms (pol key) s < start_ms (pol key) now"
    using policy_okD(3) [OF assms(1)] by (simp add: start_ms_def window_ms_def)
  then show ?thesis using s(2) Some by (simp add: redis_used_def)
qed (simp add: redis_used_def)

lemma redis_used_range:
  assumes "policy_ok (pol key)" and "redis_good pol t a"
  shows "0 \<le> redis_used pol now key a \<and> redis_used pol now key a \<le> rp_limit (pol key)"
proof (cases "ra_client a key")
  case (Some h)
  with assms(2) obtain s where "0 \<le> re_count h" "re_count h \<le> rp_limit (pol key)" by (rule redis_entryE)
  then show ?thesis using Some policy_okD(2) [OF assms(1)] by (simp add: redis_used_def)
qed (use policy_okD(2) [OF assms(1)] in \<open>simp add: redis_used_def\<close>)

text \<open>The script's arithmetic in milliseconds.\<close>

lemma now_ms: "now div us_per_second * 1000 + now mod us_per_second div 1000 = now div (1000::int)"
proof -
  have "now = now mod 1000000 + (now div 1000000 * 1000) * 1000"
    using div_mult_mod_eq [of now 1000000] by simp
  then have "now div 1000 = (now mod 1000000 + (now div 1000000 * 1000) * 1000) div 1000"
    by (rule arg_cong)
  also have "\<dots> = now div 1000000 * 1000 + now mod 1000000 div 1000"
    by (rule div_mult_self1) simp
  finally show ?thesis by (simp add: us_per_second_def)
qed

lemma start_ms_eq:
  assumes "policy_ok p"
  shows "now div 1000 - now div 1000 mod window_ms p = start_ms p now"
    and "now div 1000 < start_ms p now + window_ms p"
    and "(start_ms p now + window_ms p) * 1000 = window_end p now"
proof -
  have pos: "0 < window_ms p" using policy_okD(3) [OF assms] by (simp add: window_ms_def)
  have i: "now div 1000 div window_ms p = window_index p now"
    using pos by (simp add: window_ms_def window_index_def window_us_def us_per_second_def
        mult.commute flip: zdiv_zmult2_eq)
  have e: "now div 1000 = window_index p now * window_ms p + now div 1000 mod window_ms p"
    unfolding i [symmetric] by simp
  show "now div 1000 - now div 1000 mod window_ms p = start_ms p now"
    using e by (simp add: start_ms_def)
  show "now div 1000 < start_ms p now + window_ms p"
    using e pos_mod_bound [OF pos, of "now div 1000"] unfolding start_ms_def by linarith
  show "(start_ms p now + window_ms p) * 1000 = window_end p now"
    by (simp add: start_ms_def window_end_def window_us_def window_ms_def us_per_second_def algebra_simps)
qed

lemma redis_consume_law:
  assumes ok: "policy_ok (pol key)" and good: "redis_good pol t a"
    and now: "0 \<le> now" "t \<le> now" and cost: "1 \<le> cost"
  defines "u \<equiv> redis_used pol now key a"
  defines "al \<equiv> u + cost \<le> rp_limit (pol key)"
  defines "u' \<equiv> if al then u + cost else u"
  defines "e \<equiv> \<lparr> re_window_start_ms = start_ms (pol key) now, re_count = u',
                 re_expire_at_ms = start_ms (pol key) now + window_ms (pol key) \<rparr>"
  shows "redis_consume (redis_server now) key (pol key) cost a =
      (Inr \<lparr> sn_allowed = al, sn_remaining = rp_limit (pol key) - u',
             sn_reset_at = window_end (pol key) now, sn_observed_at = now div 1000 * 1000 \<rparr>,
       a\<lparr>ra_client := (ra_client a)(key \<mapsto> e)\<rparr>)"
proof -
  note ms = start_ms_eq [OF ok, of now]
  define live where "live = (case ra_client a key of None \<Rightarrow> None
      | Some h \<Rightarrow> if re_expire_at_ms h \<le> now div 1000 then None else Some h)"
  have count: "(if map_option re_window_start_ms live \<noteq> Some (start_ms (pol key) now) then 0
      else case live of None \<Rightarrow> 0 | Some h \<Rightarrow> re_count h) = u"
  proof (cases "ra_client a key")
    case (Some h)
    with good obtain s where "re_expire_at_ms h = re_window_start_ms h + window_ms (pol key)"
      by (rule redis_entryE)
    then show ?thesis using Some ms(2) by (auto simp: live_def u_def redis_used_def)
  qed (simp add: live_def u_def redis_used_def)
  have r: "0 \<le> u" "u \<le> rp_limit (pol key)"
    using redis_used_range [where pol = pol, OF ok good] by (simp_all add: u_def)
  have u': "0 \<le> u'" "u' \<le> rp_limit (pol key)" using r cost by (simp_all add: u'_def al_def)
  have lua: "fixed_window_lua now key (rp_limit (pol key)) (rp_window_seconds (pol key) * 1000) cost (ra_client a) =
      ([if al then 1 else 0, rp_limit (pol key) - u', start_ms (pol key) now + window_ms (pol key),
        now div 1000], (ra_client a)(key \<mapsto> e))"
    unfolding fixed_window_lua_def now_ms Let_def live_def [symmetric] window_ms_def [symmetric] ms(1) count
    using u' by (auto simp: e_def al_def u'_def)
  have "0 \<le> now div 1000" using now(1) by (simp add: pos_imp_zdiv_nonneg_iff)
  moreover have "now div 1000 * 1000 \<le> window_end (pol key) now"
    using ceil_seconds_ms(3) [OF ok] by blast
  moreover have "0 \<le> window_end (pol key) now" using window_bounds(2) [OF ok, of now] now(1) by linarith
  ultimately have "read_response (pol key) (map RInt [if al then 1 else 0, rp_limit (pol key) - u',
        start_ms (pol key) now + window_ms (pol key), now div 1000]) =
      Some \<lparr> sn_allowed = al, sn_remaining = rp_limit (pol key) - u',
             sn_reset_at = window_end (pol key) now, sn_observed_at = now div 1000 * 1000 \<rparr>"
    using u' ms(2,3) by (auto simp: read_response_def RateLimitSnapshot_def)
  moreover have "\<not> ra_closed a" using good by (simp add: redis_good_def)
  ultimately show ?thesis by (simp add: redis_consume_def redis_server_def lua)
qed

lemma redis_good_update:
  assumes "redis_good pol t a" and "t \<le> now" and "0 \<le> u" and "u \<le> rp_limit (pol key)"
  shows "redis_good pol now (a\<lparr>ra_client := (ra_client a)
    (key \<mapsto> \<lparr> re_window_start_ms = start_ms (pol key) now, re_count = u,
             re_expire_at_ms = start_ms (pol key) now + window_ms (pol key) \<rparr>)\<rparr>)"
  using assms unfolding redis_good_def by (auto split: if_splits) (meson order_trans)+

lemma redis_used_update:
  "redis_used pol now k (a\<lparr>ra_client := (ra_client a)(key \<mapsto> h)\<rparr>) =
     (if k = key then if re_window_start_ms h = start_ms (pol key) now then re_count h else 0
      else redis_used pol now k a)"
  by (simp add: redis_used_def)

lemma redis_fixed_window:
  assumes ok: "\<And>key. policy_ok (pol key)"
  shows "fixed_window (\<lambda>now. redis_consume (redis_server now)) (redis_used pol) (redis_good pol) pol"
proof (unfold_locales, goal_cases)
  case (1 key)
  show ?case by (rule ok)
next
  case (2 t a now cost key)
  note r = redis_used_range [where pol = pol, OF ok 2(1), of now key]
  show ?case
    using r 2(4)
    by (auto simp: redis_consume_law [where pol = pol, OF ok 2] redis_used_update
        intro!: redis_good_update [OF 2(1,3)])
next
  case (3 t a now key)
  then have "start_ms (pol key) now = start_ms (pol key) t" by (simp add: start_ms_def)
  then show ?case by (simp only: redis_used_def)
next
  case (4 t a key now)
  then show ?case by (intro redis_used_new [where pol = pol] ok)
next
  case (5 t a key)
  then show ?case by (intro redis_used_range [where pol = pol] ok)
qed

interpretation memory: fixed_window "\<lambda>now. memory_consume (Some now)" memory_used
    "memory_good (policy_of_key prefix)" "policy_of_key prefix" for prefix
  by (rule memory_fixed_window) (rule policy_of_key_ok)

interpretation redis: fixed_window "\<lambda>now. redis_consume (redis_server now)"
    "redis_used (policy_of_key prefix)" "redis_good (policy_of_key prefix)" "policy_of_key prefix" for prefix
  by (rule redis_fixed_window) (rule policy_of_key_ok)

section \<open>The limiter\<close>

definition memory_limiter ::
    "(string \<Rightarrow> string) \<Rightarrow> string \<Rightarrow> timestamp \<Rightarrow> rate_limit_check \<Rightarrow> memory_adapter limiter
       \<Rightarrow> (rl_exn + decision) \<times> memory_adapter limiter" where
  "memory_limiter hmac prefix now = limiter_check hmac prefix default_match (memory_consume (Some now))"

definition redis_limiter ::
    "(string \<Rightarrow> string) \<Rightarrow> string \<Rightarrow> timestamp \<Rightarrow> rate_limit_check \<Rightarrow> redis_store redis_adapter limiter
       \<Rightarrow> (rl_exn + decision) \<times> redis_store redis_adapter limiter" where
  "redis_limiter hmac prefix now =
     limiter_check hmac prefix default_match (redis_consume (redis_server now))"

definition opened :: "'a \<Rightarrow> 'a limiter" where
  "opened a = \<lparr> lm_adapter = a, lm_closed = False \<rparr>"

definition check_policy :: "rate_limit_check \<Rightarrow> rate_limit_policy" where
  "check_policy c = default_match (rc_method c) (rc_path c)"

definition check_key :: "(string \<Rightarrow> string) \<Rightarrow> string \<Rightarrow> rate_limit_check \<Rightarrow> string" where
  "check_key hmac prefix c = storage_key hmac prefix (rp_id (check_policy c)) (rc_client_identity c)"

text \<open>Checks the constructor accepts, at times that do not go backwards.\<close>

definition timed_checks :: "(timestamp \<times> rate_limit_check) list \<Rightarrow> bool" where
  "timed_checks rs \<longleftrightarrow> sorted (0 # map fst rs) \<and>
     list_all (\<lambda>(t, c). RateLimitCheck (rc_method c) (rc_path c) (rc_client_identity c) (rc_cost c) = Inr c) rs"

lemma policy_of_check_key: "policy_of_key prefix (check_key hmac prefix c) = check_policy c"
  unfolding check_key_def check_policy_def by (rule policy_of_storage_key) (rule default_match_policy)

lemma check_facts:
  "default_match (rc_method c) (rc_path c) = policy_of_key prefix (check_key hmac prefix c)"
  "check_key hmac prefix c =
     storage_key hmac prefix (rp_id (policy_of_key prefix (check_key hmac prefix c))) (rc_client_identity c)"
  unfolding policy_of_check_key by (simp_all only: check_policy_def check_key_def)

lemma check_cost: "RateLimitCheck m p i k = Inr c \<Longrightarrow> 1 \<le> rc_cost c"
  by (auto simp: RateLimitCheck_def Let_def positive_int_def split: if_splits)

lemma timed_cost: "timed_checks rs \<Longrightarrow> (t, c) \<in> set rs \<Longrightarrow> 1 \<le> rc_cost c"
  by (auto simp: timed_checks_def list_all_iff dest!: bspec intro: check_cost)

lemma init_sim: "memory.sim prefix 0 [] memory_init" "redis.sim prefix 0 [] redis_init"
  by (simp_all add: memory.sim_def redis.sim_def memory_good_def memory_init_def memory_used_def
      redis_good_def redis_init_def redis_used_def spent_eq)

abbreviation spec_decisions :: "(string \<Rightarrow> string) \<Rightarrow> string \<Rightarrow> (timestamp \<times> rate_limit_check) list \<Rightarrow> decision list" where
  "spec_decisions hmac prefix rs \<equiv> spec_run (policy_of_key prefix) (check_key hmac prefix) [] rs"

lemma memory_refines:
  assumes "timed_checks rs"
  shows "fst (limiter_run (memory_limiter hmac prefix) rs (opened memory_init)) =
    map Inr (spec_decisions hmac prefix rs)"
proof -
  have "fst (limiter_run (\<lambda>now. limiter_check hmac prefix default_match (memory_consume (Some now))) rs
      (opened memory_init)) = map Inr (spec_decisions hmac prefix rs)"
    by (rule memory.run_decides [where t = 0])
      (use assms init_sim(1) [of prefix] timed_cost [OF assms] check_facts in
        \<open>simp_all add: opened_def timed_checks_def\<close>)
  then show ?thesis by (simp add: memory_limiter_def [abs_def])
qed

lemma redis_refines:
  assumes "timed_checks rs"
  shows "fst (limiter_run (redis_limiter hmac prefix) rs (opened redis_init)) =
    map Inr (spec_decisions hmac prefix rs)"
proof -
  have "fst (limiter_run (\<lambda>now. limiter_check hmac prefix default_match (redis_consume (redis_server now))) rs
      (opened redis_init)) = map Inr (spec_decisions hmac prefix rs)"
    by (rule redis.run_decides [where t = 0])
      (use assms init_sim(2) [of prefix] timed_cost [OF assms] check_facts in
        \<open>simp_all add: opened_def timed_checks_def\<close>)
  then show ?thesis by (simp add: redis_limiter_def [abs_def])
qed

fun spec_history :: "(string \<Rightarrow> rate_limit_policy) \<Rightarrow> (rate_limit_check \<Rightarrow> string)
    \<Rightarrow> history \<Rightarrow> (timestamp \<times> rate_limit_check) list \<Rightarrow> history" where
  "spec_history pol key_of h [] = h"
| "spec_history pol key_of h ((now, c) # rs) =
     (let key = key_of c; d = spec_decision (pol key) now (spent pol h now key) (rc_cost c)
      in spec_history pol key_of (if de_allowed d then (now, key, rc_cost c) # h else h) rs)"

lemma spec_run_append:
  "spec_run pol key_of h (rs @ qs) =
     spec_run pol key_of h rs @ spec_run pol key_of (spec_history pol key_of h rs) qs"
  by (induction pol key_of h rs rule: spec_run.induct) (simp_all add: Let_def)

lemma spec_history_times:
  "fst ` set (spec_history pol key_of h rs) \<subseteq> fst ` set h \<union> fst ` set rs"
proof (induction pol key_of h rs rule: spec_history.induct)
  case (2 pol key_of h now c rs)
  define d where "d = spec_decision (pol (key_of c)) now (spent pol h now (key_of c)) (rc_cost c)"
  define h' where "h' = (if de_allowed d then (now, key_of c, rc_cost c) # h else h)"
  have "fst ` set (spec_history pol key_of h' rs) \<subseteq> fst ` set h' \<union> fst ` set rs"
    unfolding h'_def d_def by (rule "2.IH" [OF refl refl])
  moreover have "fst ` set h' \<subseteq> insert now (fst ` set h)" by (auto simp: h'_def)
  moreover have "spec_history pol key_of h ((now, c) # rs) = spec_history pol key_of h' rs"
    by (simp add: Let_def h'_def d_def)
  ultimately show ?case by simp blast
qed simp

text \<open>Two checks of one key, the second after the waiting time the first was told.\<close>

lemma spec_retry:
  assumes ok: "policy_ok (pol (key_of c))" and "sorted (map fst (rs @ [(now, c), (now', c')]))"
    and "key_of c' = key_of c" and "rc_cost c' \<le> rp_limit (pol (key_of c))"
    and "spec_run pol key_of [] (rs @ [(now, c)]) = ds @ [d]" and "\<not> de_allowed d"
    and "now + de_retry_after d * us_per_second \<le> now'"
  shows "1 \<le> de_retry_after d" and "de_retry_after d \<le> rp_window_seconds (pol (key_of c))"
    and "de_allowed (last (spec_run pol key_of [] (rs @ [(now, c), (now', c')])))"
proof -
  let ?p = "pol (key_of c)"
  define h where "h = spec_history pol key_of [] rs"
  have d: "d = spec_decision ?p now (spent pol h now (key_of c)) (rc_cost c)"
    using assms(5) by (simp add: spec_run_append h_def Let_def)
  have r: "de_retry_after d = ceil_seconds (window_end ?p now - now)"
    using assms(6) by (simp add: d spec_decision_def Let_def)
  note cs = ceil_seconds_ms [OF ok, of now now, simplified]
  show "1 \<le> de_retry_after d" "de_retry_after d \<le> rp_window_seconds ?p"
    using cs(2,4) by (simp_all add: r)
  have "window_end ?p now \<le> now'" using cs(5) assms(7) by (simp add: r)
  then have late: "window_index ?p now < window_index ?p now'"
    by (simp add: window_end_less_iff [OF ok])
  have "fst x \<le> now" if "x \<in> set h" for x
  proof -
    have "fst x \<in> fst ` set rs"
      using spec_history_times [of pol key_of "[]" rs] imageI [OF that, of fst] by (auto simp: h_def)
    then show ?thesis using assms(2) by (auto simp: sorted_append)
  qed
  then have "spent pol h now' (key_of c) = 0"
    unfolding spent_eq using late window_index_mono [OF ok] by (intro spent_in_none) fastforce
  moreover have "spec_history pol key_of [] (rs @ [(now, c)]) = h"
  proof -
    have "spec_history pol key_of k (rs @ qs) = spec_history pol key_of (spec_history pol key_of k rs) qs" for k qs
      by (induction pol key_of k rs rule: spec_history.induct) (simp_all add: Let_def)
    then show ?thesis using assms(6) d by (simp add: h_def Let_def)
  qed
  moreover have "rs @ [(now, c), (now', c')] = (rs @ [(now, c)]) @ [(now', c')]" by simp
  ultimately show "de_allowed (last (spec_run pol key_of [] (rs @ [(now, c), (now', c')])))"
    using assms(3,4) by (simp only: spec_run_append [of _ _ _ "rs @ [(now, c)]"])
      (simp add: Let_def spec_decision_def)
qed

definition fx_login :: rate_limit_check where
  "fx_login = \<lparr> rc_method = ''POST'', rc_path = ''/auth/login'', rc_client_identity = ''host:a'', rc_cost = 6 \<rparr>"

definition fx_checks :: "(timestamp \<times> rate_limit_check) list" where
  "fx_checks = [(30000500, fx_login), (45000000, fx_login), (60000000, fx_login)]"

lemma fx_checks_timed: "timed_checks fx_checks"
  by code_simp

text \<open>
  C18. On any sequence of checks at times that do not go backwards, a limiter over the in-memory
  adapter and a limiter over Redis give the same decisions, without an error: those of the
  specification, which admits a check exactly when the costs admitted earlier for its key in
  the window of the check leave room for it, and which derives the remaining budget, the
  waiting time and the reset time from these costs and the end of the window.
\<close>

theorem limiters_refine_fixed_window:
  assumes "timed_checks rs"
  shows "fst (limiter_run (memory_limiter hmac prefix) rs (opened memory_init)) =
      map Inr (spec_run (policy_of_key prefix) (check_key hmac prefix) [] rs) \<and>
    fst (limiter_run (redis_limiter hmac prefix) rs (opened redis_init)) =
      map Inr (spec_run (policy_of_key prefix) (check_key hmac prefix) [] rs)"
  using memory_refines [OF assms] redis_refines [OF assms] by blast

theorem limiters_refine_fixed_window_witness:
  "timed_checks fx_checks \<and>
   fst (limiter_run (redis_limiter id ''app'') fx_checks (opened redis_init)) =
     map Inr (spec_run (policy_of_key ''app'') (check_key id ''app'') [] fx_checks)"
  using limiters_refine_fixed_window [OF fx_checks_timed, of id "''app''"] fx_checks_timed by blast

text \<open>
  In no window are checks admitted for a key whose costs add up to more than the limit of
  the policy of the key, whichever of the two adapters stores the counters.
\<close>

theorem window_limit_never_exceeded:
  assumes "timed_checks rs"
  shows "admitted (policy_of_key prefix) (check_key hmac prefix) key k rs
      (fst (limiter_run (memory_limiter hmac prefix) rs (opened memory_init)))
      \<le> rp_limit (policy_of_key prefix key) \<and>
    admitted (policy_of_key prefix) (check_key hmac prefix) key k rs
      (fst (limiter_run (redis_limiter hmac prefix) rs (opened redis_init)))
      \<le> rp_limit (policy_of_key prefix key)"
proof -
  have "0 \<le> rp_limit (policy_of_key prefix key)"
    using policy_okD(2) [OF policy_of_key_ok, of prefix key] by linarith
  then show ?thesis
    using spec_run_bounded [of "policy_of_key prefix" "[]" key k "check_key hmac prefix" rs]
    by (simp add: memory_refines [OF assms] redis_refines [OF assms])
qed

theorem window_limit_never_exceeded_witness:
  "timed_checks fx_checks \<and>
   admitted (policy_of_key ''app'') (check_key id ''app'') (check_key id ''app'' fx_login) 0 fx_checks
     (fst (limiter_run (redis_limiter id ''app'') fx_checks (opened redis_init)))
     \<le> rp_limit (policy_of_key ''app'' (check_key id ''app'' fx_login))"
  using window_limit_never_exceeded [OF fx_checks_timed] fx_checks_timed by blast

lemma timed_prefix: "timed_checks (rs @ qs) \<Longrightarrow> timed_checks rs"
  by (auto simp: timed_checks_def sorted_append)

lemma fx_checks_eval:
  "fst (limiter_run (redis_limiter id ''app'') (take 2 fx_checks) (opened redis_init)) =
     [Inr \<lparr> de_policy_id = ''auth-login'', de_allowed = True, de_limit = 10, de_remaining = 4,
            de_retry_after = 0, de_reset = 60 \<rparr>]
     @ [Inr \<lparr> de_policy_id = ''auth-login'', de_allowed = False, de_limit = 10, de_remaining = 4,
            de_retry_after = 15, de_reset = 60 \<rparr>]"
  "rc_cost fx_login \<le> rp_limit (check_policy fx_login)"
  by code_simp+



section \<open>Routes\<close>

definition rule_head :: "route_rule \<Rightarrow> string" where
  "rule_head r = (case rr_pattern r of Lit l # _ \<Rightarrow> l | _ \<Rightarrow> [])"

lemma match_head: "path_fullmatch (rr_pattern r) s \<Longrightarrow> take (length (rule_head r)) s = rule_head r"
  by (auto simp: rule_head_def strip_literal_def split: list.splits path_re.splits if_splits)

lemma rule_heads_apart:
  "list_all (\<lambda>r. list_all (\<lambda>q. r = q \<or>
     take (length (rule_head r)) (rule_head q) \<noteq> rule_head r) DEFAULT_ROUTE_POLICY_RULES)
   DEFAULT_ROUTE_POLICY_RULES"
  by code_simp

lemma heads_of_one:
  assumes "take (length a) s = a" and "take (length b) s = b"
  shows "take (length a) b = a \<or> take (length b) a = b"
proof -
  have "s = b @ drop (length b) s" using assms(2) by (metis append_take_drop_id)
  then show ?thesis using heads_comparable [of a b] assms(1) by metis
qed

lemma rules_disjoint:
  assumes "r \<in> set DEFAULT_ROUTE_POLICY_RULES" and "q \<in> set DEFAULT_ROUTE_POLICY_RULES"
    and "rule_matches r m p" and "rule_matches q m p"
  shows "r = q"
proof -
  have "r = q \<or> take (length (rule_head r)) (rule_head q) \<noteq> rule_head r"
    "q = r \<or> take (length (rule_head q)) (rule_head r) \<noteq> rule_head q"
    using rule_heads_apart assms(1,2) unfolding list_all_iff by blast+
  moreover have "take (length (rule_head r)) (rule_head q) = rule_head r \<or>
      take (length (rule_head q)) (rule_head r) = rule_head q"
    using assms(3,4) by (intro heads_of_one [of _ p] match_head) (auto simp: rule_matches_def)
  ultimately show ?thesis by blast
qed

lemma find_order:
  assumes "set xs = set ys" and "\<And>x y. x \<in> set ys \<Longrightarrow> y \<in> set ys \<Longrightarrow> P x \<Longrightarrow> P y \<Longrightarrow> x = y"
  shows "find P xs = find P ys"
proof (cases "find P xs")
  case None
  then have "find P ys = None" using assms(1) by (auto simp: find_None_iff)
  then show ?thesis using None by simp
next
  case (Some x)
  then have x: "x \<in> set ys" "P x" using find_SomeD [of P xs x] assms(1) by auto
  then obtain y where y: "find P ys = Some y" by (cases "find P ys") (auto simp: find_None_iff)
  then have "x = y" using assms(2) [OF x(1) _ x(2)] find_SomeD [OF y] by blast
  then show ?thesis using Some y by simp
qed

text \<open>
  The policy of a request does not depend on the order of the route rules: at most one
  rule of the table matches a request, so every arrangement of the table selects the same
  policy, and the matcher gives a rule's policy to every request the rule matches.
\<close>

theorem route_policy_order_irrelevant:
  assumes "set rules = set DEFAULT_ROUTE_POLICY_RULES"
  shows "route_match rules fallback m p = route_match DEFAULT_ROUTE_POLICY_RULES fallback m p \<and>
    (\<forall>r \<in> set rules. rule_matches r (map ascii_upper (py_strip m)) (path_part p) \<longrightarrow>
       route_match rules fallback m p = rr_policy r)"
proof -
  let ?P = "\<lambda>r. rule_matches r (map ascii_upper (py_strip m)) (path_part p)"
  have eq: "find ?P rules = find ?P DEFAULT_ROUTE_POLICY_RULES"
    by (rule find_order [OF assms]) (rule rules_disjoint)
  have "find ?P rules = Some r" if r: "r \<in> set rules" "?P r" for r
  proof -
    obtain q where q: "find ?P rules = Some q"
      using r find_NoneD [of ?P rules r] by (cases "find ?P rules") auto
    then have "q = r" using find_SomeD [OF q] r assms by (intro rules_disjoint) auto
    then show ?thesis using q by simp
  qed
  then show ?thesis using eq by (auto simp: route_match_def Let_def)
qed

theorem route_policy_order_irrelevant_witness:
  "route_match (rev DEFAULT_ROUTE_POLICY_RULES) GENERAL_API_POLICY ''post'' ''/v1/threads/t/runs/stream?x''
     = THREAD_RUN_POLICY"
proof -
  have "route_match DEFAULT_ROUTE_POLICY_RULES GENERAL_API_POLICY ''post'' ''/v1/threads/t/runs/stream?x''
      = THREAD_RUN_POLICY"
    by code_simp
  then show ?thesis
    using route_policy_order_irrelevant [of "rev DEFAULT_ROUTE_POLICY_RULES" GENERAL_API_POLICY
        "''post''" "''/v1/threads/t/runs/stream?x''"] by simp
qed

end
