(* ===== verification/Rate_Limit_Requests.thy ===== *)
theory Rate_Limit_Requests
  imports Rate_Limit_Http Rate_Limit_Properties
begin

text \<open>
  What the limiter means for requests: the middleware, the check of login names, the limiter
  and the Redis adapter together. A request here is a call of the middleware or of the login
  check; both share the limiter and are interleaved in any order.
\<close>

section \<open>Requests\<close>

datatype request = HttpRequest scope | LoginCheck string string "string option" "json option"

text \<open>The check a request submits to the limiter, if it submits one.\<close>

definition scope_target :: "scope \<Rightarrow> rate_limit_check option" where
  "scope_target sc =
     (if sc_type sc \<noteq> ''http'' then None
      else case RateLimitCheck (normalized_method (sc_method sc)) (normalized_path (sc_path sc))
                  VALIDATION_IDENTITY 1 of
             Inl _ \<Rightarrow> None
           | Inr target \<Rightarrow> Some target)"

definition exempt :: "scope \<Rightarrow> bool" where
  "exempt sc \<longleftrightarrow> sc_type sc \<noteq> ''http'' \<or>
     (case scope_target sc of None \<Rightarrow> False | Some c \<Rightarrow> must_skip (rc_method c) (rc_path c))"

definition scope_check :: "(string \<Rightarrow> string option option) option \<Rightarrow> scope \<Rightarrow> rate_limit_check option" where
  "scope_check resolver sc =
     (case scope_target sc of
        None \<Rightarrow> None
      | Some target \<Rightarrow>
          if must_skip (rc_method target) (rc_path target) then None
          else (case RateLimitCheck (rc_method target) (rc_path target)
                       (client_identity resolver sc (rc_path target)) 1 of
                  Inl _ \<Rightarrow> None
                | Inr c \<Rightarrow> Some c))"

definition login_check :: "(string \<Rightarrow> string) \<Rightarrow> (string \<Rightarrow> string) \<Rightarrow> string \<Rightarrow> string \<Rightarrow> string option
    \<Rightarrow> json option \<Rightarrow> rate_limit_check option" where
  "login_check nfkc_fold sha256 method path client payload =
     (case payload of
        Some (JObj kvs) \<Rightarrow>
          (case bounded_username_identity nfkc_fold sha256 (jget (JObj kvs) ''username'') of
             None \<Rightarrow> None
           | Some username \<Rightarrow>
               (case RateLimitCheck method path
                       (username_identity (direct_client_host client) username) 2 of
                  Inl _ \<Rightarrow> None
                | Inr c \<Rightarrow> Some c))
      | _ \<Rightarrow> None)"

record world =
  wo_resolver :: "(string \<Rightarrow> string option option) option"
  wo_nfkc_fold :: "string \<Rightarrow> string"
  wo_sha256 :: "string \<Rightarrow> string"

fun request_check :: "world \<Rightarrow> request \<Rightarrow> rate_limit_check option" where
  "request_check w (HttpRequest sc) = scope_check (wo_resolver w) sc"
| "request_check w (LoginCheck m p client payload) =
     login_check (wo_nfkc_fold w) (wo_sha256 w) m p client payload"

text \<open>Whether the request goes on: to the application, or to the verification of the password.\<close>

fun serve_request ::
    "world \<Rightarrow> (rate_limit_check \<Rightarrow> 'l \<Rightarrow> (rl_exn + decision) \<times> 'l) \<Rightarrow> request \<Rightarrow> 'l \<Rightarrow> bool \<times> 'l" where
  "serve_request w check (HttpRequest sc) l =
     (case middleware_call (wo_resolver w) check sc l of
        (x, l') \<Rightarrow> (case x of Forward _ \<Rightarrow> True | _ \<Rightarrow> False, l'))"
| "serve_request w check (LoginCheck m p client payload) l =
     (case enforce_auth_username_rate_limit (wo_nfkc_fold w) (wo_sha256 w) (Some check) m p client payload l of
        (x, l') \<Rightarrow> (x = None, l'))"

fun serve_requests ::
    "(timestamp \<Rightarrow> request \<Rightarrow> 'l \<Rightarrow> bool \<times> 'l) \<Rightarrow> (timestamp \<times> request) list \<Rightarrow> 'l \<Rightarrow> bool list \<times> 'l" where
  "serve_requests serve [] l = ([], l)"
| "serve_requests serve ((now, r) # rs) l =
     (case serve now r l of
        (b, l1) \<Rightarrow> (case serve_requests serve rs l1 of (bs, l2) \<Rightarrow> (b # bs, l2)))"

text \<open>The cost of the requests of a key that went on in its window \<open>k\<close>.\<close>

fun passed_cost :: "world \<Rightarrow> (string \<Rightarrow> rate_limit_policy) \<Rightarrow> (rate_limit_check \<Rightarrow> string) \<Rightarrow> string \<Rightarrow> int
    \<Rightarrow> (timestamp \<times> request) list \<Rightarrow> bool list \<Rightarrow> int" where
  "passed_cost w pol key_of key k ((t, r) # rs) (b # bs) =
     (case request_check w r of
        None \<Rightarrow> 0
      | Some c \<Rightarrow> if b \<and> key_of c = key \<and> window_index (pol key) t = k then rc_cost c else 0)
     + passed_cost w pol key_of key k rs bs"
| "passed_cost w pol key_of key k _ _ = 0"

section \<open>A request is its check\<close>

lemma method_fixed: "method_re m \<Longrightarrow> map ascii_upper (py_strip m) = m"
proof -
  assume m: "method_re m"
  then have "py_strip m = m"
    by (intro py_strip_ascii) (auto simp: method_re_def list_all_iff is_upper_def)
  moreover have "map ascii_upper m = m"
    using m by (auto simp: method_re_def list_all_iff is_upper_def is_lower_def intro!: map_idI ascii_upper_id)
  ultimately show ?thesis by simp
qed

lemma path_part_idem [simp]: "path_part (path_part p) = path_part p"
  by (simp add: path_part_def)

lemma RateLimitCheck_fixed:
  assumes "RateLimitCheck m p i k = Inr c"
  shows "RateLimitCheck (rc_method c) (rc_path c) (rc_client_identity c) (rc_cost c) = Inr c"
  using assms by (auto simp: RateLimitCheck_def Let_def method_fixed split: if_splits)

lemma scope_check_fixed:
  "scope_check resolver sc = Some c \<Longrightarrow>
     RateLimitCheck (rc_method c) (rc_path c) (rc_client_identity c) (rc_cost c) = Inr c"
  by (auto simp: scope_check_def split: option.splits if_splits sum.splits intro: RateLimitCheck_fixed)

lemma login_check_fixed:
  "login_check n s m p client payload = Some c \<Longrightarrow>
     RateLimitCheck (rc_method c) (rc_path c) (rc_client_identity c) (rc_cost c) = Inr c"
  by (auto simp: login_check_def split: option.splits json.splits sum.splits intro: RateLimitCheck_fixed)

lemma request_check_fixed:
  "request_check w r = Some c \<Longrightarrow>
     RateLimitCheck (rc_method c) (rc_path c) (rc_client_identity c) (rc_cost c) = Inr c"
  by (cases r) (auto intro: scope_check_fixed login_check_fixed)

lemma middleware_none:
  assumes "scope_check resolver sc = None"
  shows "snd (middleware_call resolver check sc l) = l"
  using assms
  by (auto simp: middleware_call_def scope_check_def scope_target_def Let_def split: sum.splits if_splits)

lemma middleware_some:
  assumes "scope_check resolver sc = Some c"
  shows "middleware_call resolver check sc l =
    (case check c l of
       (Inl (RateLimitUnavailable a r), l') \<Rightarrow> (Respond unavailable_response, l')
     | (Inl RateLimitValueError, l') \<Rightarrow> (Raise RateLimitValueError, l')
     | (Inr d, l') \<Rightarrow>
         if \<not> de_allowed d then (Respond (limited_response d), l') else (Forward (Some d), l'))"
  using assms
  by (auto simp: middleware_call_def scope_check_def scope_target_def Let_def split: sum.splits if_splits)

lemma serve_none:
  "request_check w r = None \<Longrightarrow> snd (serve_request w check r l) = l"
proof (cases r)
  case (HttpRequest sc)
  then show "request_check w r = None \<Longrightarrow> ?thesis"
    using middleware_none [of "wo_resolver w" sc check l] by (auto split: prod.splits)
next
  case (LoginCheck m p client payload)
  then show "request_check w r = None \<Longrightarrow> ?thesis"
    by (auto simp: enforce_auth_username_rate_limit_def login_check_def
        split: option.splits json.splits sum.splits prod.splits)
qed

lemma serve_some:
  "request_check w r = Some c \<Longrightarrow> serve_request w check r l =
     (case check c l of (Inl ex, l') \<Rightarrow> (False, l') | (Inr d, l') \<Rightarrow> (de_allowed d, l'))"
proof (cases r)
  case (HttpRequest sc)
  then show "request_check w r = Some c \<Longrightarrow> ?thesis"
    using middleware_some [of "wo_resolver w" sc c check l] by (auto split: sum.splits rl_exn.splits prod.splits)
next
  case (LoginCheck m p client payload)
  then show "request_check w r = Some c \<Longrightarrow> ?thesis"
    by (auto simp: enforce_auth_username_rate_limit_def login_check_def
        split: option.splits json.splits sum.splits prod.splits rl_exn.splits)
qed

fun checks_of :: "world \<Rightarrow> (timestamp \<times> request) list \<Rightarrow> (timestamp \<times> rate_limit_check) list" where
  "checks_of w [] = []"
| "checks_of w ((t, r) # rs) =
     (case request_check w r of None \<Rightarrow> [] | Some c \<Rightarrow> [(t, c)]) @ checks_of w rs"

lemma passed_cost_admitted:
  "passed_cost w pol key_of key k rs (fst (serve_requests (\<lambda>now. serve_request w (check now)) rs l)) =
     admitted pol key_of key k (checks_of w rs) (fst (limiter_run check (checks_of w rs) l))"
proof (induction w rs arbitrary: l rule: checks_of.induct)
  case (1 w)
  then show ?case by simp
next
  case (2 w t r rs)
  show ?case
  proof (cases "request_check w r")
    case None
    obtain b where "serve_request w (check t) r l = (b, l)"
      using serve_none [OF None, of "check t" l] by (cases "serve_request w (check t) r l") simp
    then show ?thesis using "2.IH" [of l] None by (auto split: prod.splits)
  next
    case (Some c)
    obtain d l1 where d: "check t c l = (d, l1)" by (cases "check t c l")
    then show ?thesis
      using "2.IH" [of l1] serve_some [OF Some, of "check t" l] Some
      by (cases d) (auto split: prod.splits)
  qed
qed

lemma checks_of_times: "fst ` set (checks_of w rs) \<subseteq> fst ` set rs"
  by (induction w rs rule: checks_of.induct) (auto split: option.splits)

lemma checks_of_timed:
  assumes "sorted (0 # map fst rs)"
  shows "timed_checks (checks_of w rs)"
  using assms
proof (induction w rs rule: checks_of.induct)
  case (2 w t r rs)
  have rs: "timed_checks (checks_of w rs)" using 2 by simp
  have "\<forall>x \<in> set (checks_of w rs). t \<le> fst x"
  proof
    fix x assume "x \<in> set (checks_of w rs)"
    then have "fst x \<in> fst ` set rs" using checks_of_times by blast
    then show "t \<le> fst x" using "2.prems" by auto
  qed
  then show ?case
    using rs "2.prems" by (auto simp: timed_checks_def request_check_fixed split: option.splits)
qed (simp add: timed_checks_def)

section \<open>Bounds on what goes on\<close>

definition fx_world :: world where
  "fx_world = \<lparr> wo_resolver = None, wo_nfkc_fold = id, wo_sha256 = id \<rparr>"

definition fx_requests :: "(timestamp \<times> request) list" where
  "fx_requests =
     [(1000000, HttpRequest \<lparr> sc_type = ''http'', sc_method = Text ''post'', sc_path = Text ''/auth/login'',
         sc_client_host = Some ''h'', sc_authorization = None \<rparr>),
      (1000000, LoginCheck ''POST'' ''/auth/login'' (Some ''h'') (Some (JObj [(''username'', JStr ''u'')])))]"



text \<open>
  C20. When Redis cannot be reached, or what it answers is not a reply of the script, every
  request that is subject to a limit is refused: the middleware answers 503 and the login
  check raises, whatever the state of the limiter.
\<close>

theorem redis_outage_fails_closed:
  assumes "request_check w r = Some c"
    and "\<forall>key limit window cost s. Option.bind (fst (eval key limit window cost s)) (read_response (check_policy c)) = None"
  shows "\<not> fst (serve_request w (limiter_check hmac prefix default_match (redis_consume eval)) r l) \<and>
    (\<forall>sc. r = HttpRequest sc \<longrightarrow>
       fst (middleware_call (wo_resolver w) (limiter_check hmac prefix default_match (redis_consume eval)) sc l)
         = Respond unavailable_response)"
proof -
  let ?check = "limiter_check hmac prefix default_match (redis_consume eval)"
  have "\<exists>a x l'. ?check c l = (Inl (RateLimitUnavailable a x), l')"
    by (auto simp: limiter_check_def Let_def redis_consume_def rate_limit_unavailable_def
        split_beta assms(2) simp flip: check_policy_def)
  then obtain a x l' where c: "?check c l = (Inl (RateLimitUnavailable a x), l')" by blast
  show ?thesis
    using assms(1) by (auto simp: serve_some [OF assms(1)] middleware_some c)
qed

theorem redis_outage_fails_closed_witness:
  "\<not> fst (serve_request fx_world
       (limiter_check id ''app'' default_match (redis_consume (\<lambda>key n window cost s. (None, s))))
       (snd (hd fx_requests)) (opened redis_init))"
proof -
  have "request_check fx_world (snd (hd fx_requests)) \<noteq> None" by code_simp
  then obtain c where "request_check fx_world (snd (hd fx_requests)) = Some c" by blast
  from redis_outage_fails_closed [OF this, where eval = "\<lambda>key n window cost s. (None, s)" and hmac = id
      and prefix = "''app''" and l = "opened redis_init"]
  show ?thesis by simp
qed

end
