(* ===== verification/Auth_Tokens.thy ===== *)
theory Auth_Tokens
  imports Database
begin

text \<open>
  Refresh tokens: \<open>AuthTokenService\<close> of \<^verbatim>\<open>src/backend/auth/service.py\<close>, the access tokens of
  \<^verbatim>\<open>src/backend/auth/access.py\<close> and the retention job of \<^verbatim>\<open>src/backend/auth/cleanup.py\<close>. An operation
  is one transaction on the ledger of tokens; the row locks it takes make it atomic. SHA-256,
  the signing of a payload, the token factory and \<open>uuid4\<close> are fields of \<open>auth_env\<close>; \<open>jwt.decode\<close>
  is a parameter of the decoder.
\<close>

section \<open>The ledger\<close>

record refresh_token =
  rt_id :: string
  rt_user :: int
  rt_hash :: string
  rt_expires_at :: timestamp
  rt_revoked_at :: "timestamp option"
  rt_created_at :: timestamp

record auth_db =
  ad_users :: "user list"
  ad_tokens :: "refresh_token list"

text \<open>Unique columns and the foreign key, checked when rows are flushed.\<close>

definition auth_integrity :: "auth_db \<Rightarrow> bool" where
  "auth_integrity d \<longleftrightarrow>
     distinct (map rt_id (ad_tokens d)) \<and> distinct (map rt_hash (ad_tokens d)) \<and>
     list_all (\<lambda>t. rt_user t \<in> set (map u_id (ad_users d))) (ad_tokens d)"

datatype rejection = MISSING | INVALID | EXPIRED | REPLAY

datatype auth_exn = RefreshTokenRejected rejection | AuthRuntimeError | AuthIntegrityError | AuthValueError

record claims =
  cl_sub :: string
  cl_role :: string
  cl_iat :: timestamp
  cl_exp :: timestamp
  cl_jti :: string

record auth_env =
  ae_now :: timestamp
  ae_token_factory :: string
  ae_uuid :: string
  ae_access_uuid :: string
  ae_sha256 :: "string \<Rightarrow> string"
  ae_encode :: "claims \<Rightarrow> string"
  ae_refresh_days :: int
  ae_retention_days :: int
  ae_access_minutes :: int

definition minutes :: "int \<Rightarrow> timestamp" where
  "minutes n = n * 60000000"

definition days :: "int \<Rightarrow> timestamp" where
  "days n = n * 86400000000"

record token_grant =
  tg_access_token :: string
  tg_refresh_token :: string
  tg_username :: string
  tg_role :: string

section \<open>Access tokens\<close>

definition create_access_token :: "auth_env \<Rightarrow> string \<Rightarrow> string \<Rightarrow> string" where
  "create_access_token e username role =
     ae_encode e \<lparr> cl_sub = username, cl_role = role, cl_iat = ae_now e,
       cl_exp = ae_now e + minutes (ae_access_minutes e), cl_jti = ''access_'' @ ae_access_uuid e \<rparr>"

definition is_hex :: "char \<Rightarrow> bool" where
  "is_hex c \<longleftrightarrow> is_digit c \<or> 97 \<le> byte c \<and> byte c \<le> 102"

definition access_jti :: "string \<Rightarrow> bool" where
  "access_jti s \<longleftrightarrow> take 7 s = ''access_'' \<and> length s = 39 \<and> list_all is_hex (drop 7 s)"

text \<open>
  \<open>decode\<close> is \<open>jwt.decode\<close> with the required claims: the payload of a valid token, \<open>None\<close> when
  it raises \<open>InvalidTokenError\<close>. The claims are JSON values.
\<close>

definition decode_access_token ::
    "(string \<Rightarrow> (string \<times> json) list option) \<Rightarrow> string \<Rightarrow> (string \<times> string) option" where
  "decode_access_token decode token =
     (case decode token of
        None \<Rightarrow> None
      | Some payload \<Rightarrow>
          (case (map_of payload ''sub'', map_of payload ''jti'') of
             (Some (JStr username), Some (JStr jti)) \<Rightarrow>
               if username = [] \<or> \<not> access_jti jti then None
               else Some (username, case map_of payload ''role'' of Some (JStr r) \<Rightarrow> r | _ \<Rightarrow> [])
           | _ \<Rightarrow> None))"

definition resolve_access_token_subject ::
    "(string \<Rightarrow> (string \<times> json) list option) \<Rightarrow> string \<Rightarrow> string option" where
  "resolve_access_token_subject decode token = map_option fst (decode_access_token decode token)"

section \<open>The service\<close>

definition opaque_refresh_token :: "string \<Rightarrow> bool" where
  "opaque_refresh_token s \<longleftrightarrow> list_all (\<lambda>c. is_alnum c \<or> c = CHR ''_'' \<or> c = CHR ''-'') s \<and>
     64 \<le> length s \<and> length s \<le> 256"

definition hash_refresh_token :: "auth_env \<Rightarrow> string \<Rightarrow> string" where
  "hash_refresh_token e raw = ae_sha256 e raw"

definition new_refresh_token :: "auth_env \<Rightarrow> auth_exn + string" where
  "new_refresh_token e =
     (if opaque_refresh_token (ae_token_factory e) then Inr (ae_token_factory e) else Inl AuthRuntimeError)"

definition validated_hash :: "auth_env \<Rightarrow> string option \<Rightarrow> auth_exn + string" where
  "validated_hash e raw =
     (case raw of
        None \<Rightarrow> Inl (RefreshTokenRejected MISSING)
      | Some s \<Rightarrow> if opaque_refresh_token s then Inr (hash_refresh_token e s)
                  else Inl (RefreshTokenRejected INVALID))"

definition token_user_id :: "auth_db \<Rightarrow> string \<Rightarrow> int option" where
  "token_user_id d h = map_option rt_user (find (\<lambda>t. rt_hash t = h) (ad_tokens d))"

definition lock_user :: "auth_db \<Rightarrow> int \<Rightarrow> user option" where
  "lock_user d uid = find (\<lambda>u. u_id u = uid) (ad_users d)"

definition lock_token :: "auth_db \<Rightarrow> string \<Rightarrow> int \<Rightarrow> refresh_token option" where
  "lock_token d h uid = find (\<lambda>t. rt_hash t = h \<and> rt_user t = uid) (ad_tokens d)"

definition active :: "timestamp \<Rightarrow> refresh_token \<Rightarrow> bool" where
  "active now t \<longleftrightarrow> rt_revoked_at t = None \<and> now < rt_expires_at t"

definition revoke_active_for_user :: "int \<Rightarrow> timestamp \<Rightarrow> auth_db \<Rightarrow> int \<times> auth_db" where
  "revoke_active_for_user uid now d =
     (let P = (\<lambda>t. rt_user t = uid \<and> active now t)
      in (int (length (filter P (ad_tokens d))),
          d\<lparr>ad_tokens := update_where P (\<lambda>t. t\<lparr>rt_revoked_at := Some now\<rparr>) (ad_tokens d)\<rparr>))"

definition new_token_row :: "auth_env \<Rightarrow> int \<Rightarrow> string \<Rightarrow> refresh_token" where
  "new_token_row e uid raw =
     \<lparr> rt_id = ''refresh_'' @ ae_uuid e, rt_user = uid, rt_hash = hash_refresh_token e raw,
       rt_expires_at = ae_now e + days (ae_refresh_days e), rt_revoked_at = None,
       rt_created_at = ae_now e \<rparr>"

definition grant_for :: "auth_env \<Rightarrow> user \<Rightarrow> string \<Rightarrow> token_grant" where
  "grant_for e u raw =
     \<lparr> tg_access_token = create_access_token e (u_username u) (u_role u), tg_refresh_token = raw,
       tg_username = u_username u, tg_role = u_role u \<rparr>"

text \<open>Each operation: the exception or the result, and the ledger after it.\<close>

definition issue :: "auth_env \<Rightarrow> int \<Rightarrow> auth_db \<Rightarrow> (auth_exn + token_grant) \<times> auth_db" where
  "issue e uid d =
     (case new_refresh_token e of
        Inl ex \<Rightarrow> (Inl ex, d)
      | Inr raw \<Rightarrow>
          (case lock_user d uid of
             None \<Rightarrow> (Inl AuthRuntimeError, d)
           | Some u \<Rightarrow>
               (let d' = d\<lparr>ad_tokens := ad_tokens d @ [new_token_row e (u_id u) raw]\<rparr>
                in if auth_integrity d' then (Inr (grant_for e u raw), d') else (Inl AuthIntegrityError, d))))"

definition replace_token :: "auth_env \<Rightarrow> string \<Rightarrow> int \<Rightarrow> int \<Rightarrow> string \<Rightarrow> auth_db \<Rightarrow> auth_db" where
  "replace_token e h uid owner replacement d =
     d\<lparr>ad_tokens := update_where (\<lambda>t. rt_hash t = h \<and> rt_user t = uid)
           (\<lambda>t. t\<lparr>rt_revoked_at := Some (ae_now e)\<rparr>) (ad_tokens d)
         @ [new_token_row e owner replacement]\<rparr>"

definition rotate :: "auth_env \<Rightarrow> string option \<Rightarrow> auth_db \<Rightarrow> (auth_exn + token_grant) \<times> auth_db" where
  "rotate e raw_token d =
     (case validated_hash e raw_token of
        Inl ex \<Rightarrow> (Inl ex, d)
      | Inr h \<Rightarrow>
          (case token_user_id d h of
             None \<Rightarrow> (Inl (RefreshTokenRejected INVALID), d)
           | Some uid \<Rightarrow>
               (case (lock_user d uid, lock_token d h uid) of
                  (Some u, Some stored) \<Rightarrow>
                    if rt_expires_at stored \<le> ae_now e then (Inl (RefreshTokenRejected EXPIRED), d)
                    else if rt_revoked_at stored \<noteq> None
                    then (Inl (RefreshTokenRejected REPLAY), snd (revoke_active_for_user (u_id u) (ae_now e) d))
                    else
                     (case new_refresh_token e of
                        Inl ex \<Rightarrow> (Inl ex, d)
                      | Inr replacement \<Rightarrow>
                          (let d' = replace_token e h uid (u_id u) replacement d
                           in if auth_integrity d' then (Inr (grant_for e u replacement), d')
                              else (Inl AuthIntegrityError, d)))
                | _ \<Rightarrow> (Inl (RefreshTokenRejected INVALID), d))))"

definition logout :: "auth_env \<Rightarrow> string option \<Rightarrow> auth_db \<Rightarrow> int \<times> auth_db" where
  "logout e raw_token d =
     (case validated_hash e raw_token of
        Inl _ \<Rightarrow> (0, d)
      | Inr h \<Rightarrow>
          (case token_user_id d h of
             None \<Rightarrow> (0, d)
           | Some uid \<Rightarrow>
               (case (lock_user d uid, lock_token d h uid) of
                  (Some u, Some stored) \<Rightarrow>
                    if rt_revoked_at stored \<noteq> None \<or> rt_expires_at stored \<le> ae_now e then (0, d)
                    else (1, d\<lparr>ad_tokens := update_where (\<lambda>t. rt_hash t = h \<and> rt_user t = uid)
                                (\<lambda>t. t\<lparr>rt_revoked_at := Some (ae_now e)\<rparr>) (ad_tokens d)\<rparr>)
                | _ \<Rightarrow> (0, d))))"

definition logout_all :: "auth_env \<Rightarrow> int \<Rightarrow> auth_db \<Rightarrow> int \<times> auth_db" where
  "logout_all e uid d =
     (case lock_user d uid of
        None \<Rightarrow> (0, d)
      | Some _ \<Rightarrow> revoke_active_for_user uid (ae_now e) d)"

section \<open>Retention\<close>

definition purge_candidates :: "auth_env \<Rightarrow> nat \<Rightarrow> auth_db \<Rightarrow> string list" where
  "purge_candidates e batch d =
     (let cutoff = ae_now e - days (ae_retention_days e)
      in map rt_id (take batch
           (sort_key rt_expires_at (sort_key rt_id (filter (\<lambda>t. rt_expires_at t \<le> cutoff) (ad_tokens d))))))"

definition purge_refresh_token_batch :: "auth_env \<Rightarrow> int \<Rightarrow> auth_db \<Rightarrow> auth_exn + int \<times> auth_db" where
  "purge_refresh_token_batch e batch d =
     (if batch \<le> 0 then Inl AuthValueError
      else
       (let candidates = purge_candidates e (nat batch) d
        in if candidates = [] then Inr (0, d)
           else Inr (int (length (filter (\<lambda>t. rt_id t \<in> set candidates) (ad_tokens d))),
                     d\<lparr>ad_tokens := filter (\<lambda>t. rt_id t \<notin> set candidates) (ad_tokens d)\<rparr>)))"

text \<open>The loop of \<open>main\<close>: the environments are those of its batches.\<close>

fun purge_loop :: "int \<Rightarrow> auth_env list \<Rightarrow> int \<Rightarrow> auth_db \<Rightarrow> auth_exn + int \<times> auth_db" where
  "purge_loop batch [] acc d = Inr (acc, d)"
| "purge_loop batch (e # es) acc d =
     (case purge_refresh_token_batch e batch d of
        Inl ex \<Rightarrow> Inl ex
      | Inr (deleted, d1) \<Rightarrow>
          if deleted < batch then Inr (acc + deleted, d1)
          else purge_loop batch es (acc + deleted) d1)"

end
