(* ===== verification/Auth_Safety.thy ===== *)
theory Auth_Safety
  imports Auth_Tokens
begin

text \<open>
  What the token service promises over time. \<open>token_step sha h T\<close> is one transaction of the
  service or of the retention job at a time up to \<open>T\<close>; the tokens its factory makes do not have
  the hash \<open>h\<close>, the one a property follows. Registration adds users.
\<close>

inductive token_step :: "(string \<Rightarrow> string) \<Rightarrow> string \<Rightarrow> timestamp \<Rightarrow> auth_db \<Rightarrow> auth_db \<Rightarrow> bool"
  for sha :: "string \<Rightarrow> string" and h :: string and T :: timestamp where
  step_issue: "ae_sha256 e = sha \<Longrightarrow> ae_now e \<le> T \<Longrightarrow> sha (ae_token_factory e) \<noteq> h \<Longrightarrow>
    token_step sha h T d (snd (issue e uid d))"
| step_rotate: "ae_sha256 e = sha \<Longrightarrow> ae_now e \<le> T \<Longrightarrow> sha (ae_token_factory e) \<noteq> h \<Longrightarrow>
    token_step sha h T d (snd (rotate e raw d))"
| step_logout: "ae_sha256 e = sha \<Longrightarrow> ae_now e \<le> T \<Longrightarrow> token_step sha h T d (snd (logout e raw d))"
| step_logout_all: "ae_now e \<le> T \<Longrightarrow> token_step sha h T d (snd (logout_all e uid d))"
| step_purge: "ae_now e \<le> T \<Longrightarrow> 0 \<le> ae_retention_days e \<Longrightarrow>
    purge_refresh_token_batch e batch d = Inr (n, d') \<Longrightarrow> token_step sha h T d d'"
| step_register: "u_id u \<notin> set (map u_id (ad_users d)) \<Longrightarrow>
    token_step sha h T d (d\<lparr>ad_users := ad_users d @ [u]\<rparr>)"

section \<open>What one transaction can do to the ledger\<close>

text \<open>
  Rows are only revoked, appended with another hash, or deleted when they have expired.
\<close>

definition revoked_rows :: "refresh_token list \<Rightarrow> refresh_token list \<Rightarrow> bool" where
  "revoked_rows ts ts' \<longleftrightarrow>
     list_all2 (\<lambda>t t'. t' = t \<or> (\<exists>n. t' = t\<lparr>rt_revoked_at := Some n\<rparr>)) ts ts'"

lemma revoked_rows_refl [simp]: "revoked_rows ts ts"
  by (simp add: revoked_rows_def list_all2_same)

lemma revoked_rows_update:
  "revoked_rows ts (update_where P (\<lambda>t. t\<lparr>rt_revoked_at := Some n\<rparr>) ts)"
  by (induction ts) (auto simp: revoked_rows_def)

lemma revoked_rowsD:
  assumes "revoked_rows ts ts'"
  shows "map rt_id ts' = map rt_id ts" and "map rt_hash ts' = map rt_hash ts"
    and "map rt_user ts' = map rt_user ts" and "map rt_expires_at ts' = map rt_expires_at ts"
  using assms unfolding revoked_rows_def by (induction rule: list_all2_induct) auto

lemma revoked_rows_nth:
  assumes "revoked_rows ts ts'" and "i < length ts"
  shows "rt_hash (ts' ! i) = rt_hash (ts ! i)" and "rt_user (ts' ! i) = rt_user (ts ! i)"
    and "rt_expires_at (ts' ! i) = rt_expires_at (ts ! i)"
    and "rt_revoked_at (ts ! i) \<noteq> None \<Longrightarrow> rt_revoked_at (ts' ! i) \<noteq> None"
    and "length ts' = length ts"
proof -
  have "ts' ! i = ts ! i \<or> (\<exists>n. ts' ! i = (ts ! i)\<lparr>rt_revoked_at := Some n\<rparr>)"
    and "length ts' = length ts"
    using assms by (simp_all add: revoked_rows_def list_all2_conv_all_nth)
  then show "rt_hash (ts' ! i) = rt_hash (ts ! i)" "rt_user (ts' ! i) = rt_user (ts ! i)"
    "rt_expires_at (ts' ! i) = rt_expires_at (ts ! i)"
    "rt_revoked_at (ts ! i) \<noteq> None \<Longrightarrow> rt_revoked_at (ts' ! i) \<noteq> None" "length ts' = length ts"
    by auto
qed

lemma revoked_rows_length: "revoked_rows ts ts' \<Longrightarrow> length ts' = length ts"
  by (simp add: revoked_rows_def list_all2_lengthD)

lemma revoked_rows_back:
  assumes "revoked_rows ts ts'" and "t' \<in> set ts'"
  obtains t where "t \<in> set ts" "rt_hash t' = rt_hash t" "rt_user t' = rt_user t"
    "rt_expires_at t' = rt_expires_at t" "rt_revoked_at t \<noteq> None \<longrightarrow> rt_revoked_at t' \<noteq> None"
proof -
  obtain i where "i < length ts" "t' = ts' ! i"
    using assms revoked_rows_length [OF assms(1)] by (metis in_set_conv_nth)
  then show thesis using that [of "ts ! i"] revoked_rows_nth [OF assms(1)] by simp
qed

lemma revoked_rows_forth:
  assumes "revoked_rows ts ts'" and "t \<in> set ts"
  obtains t' where "t' \<in> set ts'" "rt_hash t' = rt_hash t" "rt_user t' = rt_user t"
    "rt_expires_at t' = rt_expires_at t"
proof -
  obtain i where "i < length ts" "t = ts ! i"
    using assms(2) by (metis in_set_conv_nth)
  then show thesis using that [of "ts' ! i"] revoked_rows_nth [OF assms(1)] by simp
qed

definition ledger_moves :: "string \<Rightarrow> timestamp \<Rightarrow> auth_db \<Rightarrow> auth_db \<Rightarrow> bool" where
  "ledger_moves h T d d' \<longleftrightarrow>
     (\<exists>us. ad_users d' = ad_users d @ us) \<and>
     ((\<exists>ts new. revoked_rows (ad_tokens d) ts \<and> ad_tokens d' = ts @ new \<and> (\<forall>t \<in> set new. rt_hash t \<noteq> h)) \<or>
      (\<exists>P. ad_tokens d' = filter P (ad_tokens d) \<and> (\<forall>t \<in> set (ad_tokens d). \<not> P t \<longrightarrow> rt_expires_at t \<le> T)))"

lemma moves_revoke:
  "revoked_rows (ad_tokens d) ts \<Longrightarrow> \<forall>t \<in> set new. rt_hash t \<noteq> h \<Longrightarrow>
     ledger_moves h T d (d\<lparr>ad_tokens := ts @ new\<rparr>)"
  by (auto simp: ledger_moves_def)

lemma moves_refl [simp]: "ledger_moves h T d d"
  using moves_revoke [of d "ad_tokens d" "[]"] by simp

lemma moves_revoke_only:
  "ledger_moves h T d (d\<lparr>ad_tokens := update_where P (\<lambda>t. t\<lparr>rt_revoked_at := Some n\<rparr>) (ad_tokens d)\<rparr>)"
  using moves_revoke [OF revoked_rows_update, of "[]"] by simp

lemma new_token_row_hash [simp]: "rt_hash (new_token_row e uid raw) = ae_sha256 e raw"
  by (simp add: new_token_row_def hash_refresh_token_def)

lemma new_refresh_tokenD: "new_refresh_token e = Inr raw \<Longrightarrow> raw = ae_token_factory e \<and> opaque_refresh_token raw"
  by (auto simp: new_refresh_token_def split: if_splits)

lemma issue_moves: "ae_sha256 e (ae_token_factory e) \<noteq> h \<Longrightarrow> ledger_moves h T d (snd (issue e uid d))"
  by (auto simp: issue_def Let_def dest!: new_refresh_tokenD split: sum.splits option.splits intro: moves_revoke)

lemma rotate_moves: "ae_sha256 e (ae_token_factory e) \<noteq> h \<Longrightarrow> ledger_moves h T d (snd (rotate e raw d))"
  by (auto simp: rotate_def Let_def revoke_active_for_user_def replace_token_def dest!: new_refresh_tokenD
      split: sum.splits option.splits intro: moves_revoke moves_revoke_only revoked_rows_update)

lemma logout_moves: "ledger_moves h T d (snd (logout e raw d))"
  by (auto simp: logout_def intro: moves_revoke_only split: sum.splits option.splits)

lemma logout_all_moves: "ledger_moves h T d (snd (logout_all e uid d))"
  by (auto simp: logout_all_def revoke_active_for_user_def Let_def intro: moves_revoke_only split: option.splits)

lemma purge_candidate:
  assumes "distinct (map rt_id (ad_tokens d))" and "t \<in> set (ad_tokens d)"
    and "rt_id t \<in> set (purge_candidates e n d)"
  shows "rt_expires_at t \<le> ae_now e - days (ae_retention_days e)"
proof -
  obtain x where "x \<in> set (ad_tokens d)" "rt_expires_at x \<le> ae_now e - days (ae_retention_days e)"
    "rt_id x = rt_id t"
    using assms(3) by (auto simp: purge_candidates_def Let_def dest!: in_set_takeD)
  then show ?thesis using distinct_key_unique [OF assms(1) _ assms(2)] by metis
qed

lemma purge_moves:
  assumes "distinct (map rt_id (ad_tokens d))" and "purge_refresh_token_batch e batch d = Inr (n, d')"
    and "ae_now e \<le> T" and "0 \<le> ae_retention_days e"
  shows "ledger_moves h T d d'"
proof -
  have "rt_expires_at t \<le> T" if "t \<in> set (ad_tokens d)" "rt_id t \<in> set (purge_candidates e (nat batch) d)" for t
    using purge_candidate [OF assms(1) that] assms(3,4) by (simp add: days_def)
  then have "ledger_moves h T d (d\<lparr>ad_tokens :=
      filter (\<lambda>t. rt_id t \<notin> set (purge_candidates e (nat batch) d)) (ad_tokens d)\<rparr>)"
    unfolding ledger_moves_def by auto
  then show ?thesis
    using assms(2) by (auto simp: purge_refresh_token_batch_def Let_def split: if_splits)
qed

lemma step_moves:
  assumes "token_step sha h T d d'" and "auth_integrity d"
  shows "ledger_moves h T d d'"
  using assms(1)
proof cases
  case (step_purge e batch n)
  then show ?thesis using assms(2) by (intro purge_moves) (auto simp: auth_integrity_def)
next
  case (step_register u)
  then have "ad_tokens d' = filter (\<lambda>_. True) (ad_tokens d)" "ad_users d' = ad_users d @ [u]" by simp_all
  then show ?thesis unfolding ledger_moves_def by blast
qed (auto intro: issue_moves rotate_moves logout_moves logout_all_moves)

lemma integrity_revoked:
  assumes "auth_integrity d" and "revoked_rows (ad_tokens d) ts"
  shows "auth_integrity (d\<lparr>ad_tokens := ts\<rparr>)"
proof -
  have "rt_user ` set ts = rt_user ` set (ad_tokens d)"
    using revoked_rowsD(3) [OF assms(2)] by (metis list.set_map)
  then have "rt_user t \<in> rt_user ` set (ad_tokens d)" if "t \<in> set ts" for t
    using imageI [OF that, of rt_user] by simp
  then have "\<forall>t \<in> set ts. rt_user t \<in> set (map u_id (ad_users d))"
    using assms(1) by (fastforce simp: auth_integrity_def list_all_iff)
  then show ?thesis
    using assms(1) revoked_rowsD(1,2) [OF assms(2)] by (simp add: auth_integrity_def list_all_iff)
qed

lemma integrity_filter:
  "auth_integrity d \<Longrightarrow> auth_integrity (d\<lparr>ad_tokens := filter P (ad_tokens d)\<rparr>)"
  by (auto simp: auth_integrity_def list_all_iff distinct_map_filter)

lemma integrity_revoke_only:
  "auth_integrity d \<Longrightarrow>
     auth_integrity (d\<lparr>ad_tokens := update_where P (\<lambda>t. t\<lparr>rt_revoked_at := Some n\<rparr>) (ad_tokens d)\<rparr>)"
  by (rule integrity_revoked [OF _ revoked_rows_update])

lemma step_integrity:
  assumes "token_step sha h T d d'" and "auth_integrity d"
  shows "auth_integrity d'"
  using assms(1)
proof cases
  case (step_issue e uid)
  then show ?thesis using assms(2) by (simp add: issue_def Let_def split: sum.splits option.splits)
next
  case (step_rotate e raw)
  then show ?thesis
    using assms(2) integrity_revoke_only [OF assms(2)]
    by (auto simp: rotate_def Let_def revoke_active_for_user_def split: sum.splits option.splits)
next
  case (step_logout e raw)
  then show ?thesis
    using assms(2) integrity_revoke_only [OF assms(2)]
    by (auto simp: logout_def split: sum.splits option.splits)
next
  case (step_logout_all e uid)
  then show ?thesis
    using assms(2) integrity_revoke_only [OF assms(2)]
    by (auto simp: logout_all_def revoke_active_for_user_def Let_def split: option.splits)
next
  case (step_purge e batch n)
  then show ?thesis
    using assms(2) integrity_filter [OF assms(2)]
    by (auto simp: purge_refresh_token_batch_def Let_def split: if_splits)
next
  case (step_register u)
  then show ?thesis using assms(2) by (auto simp: auth_integrity_def list_all_iff)
qed

section \<open>Dead tokens\<close>

definition dead :: "string \<Rightarrow> timestamp \<Rightarrow> auth_db \<Rightarrow> bool" where
  "dead h now d \<longleftrightarrow> (\<forall>t \<in> set (ad_tokens d). rt_hash t = h \<longrightarrow> \<not> active now t)"

definition recorded :: "string \<Rightarrow> int \<Rightarrow> timestamp \<Rightarrow> auth_db \<Rightarrow> bool" where
  "recorded h uid expiry d \<longleftrightarrow>
     (\<exists>t \<in> set (ad_tokens d). rt_hash t = h \<and> rt_user t = uid \<and> rt_expires_at t = expiry)"

lemma moves_dead:
  assumes "ledger_moves h T d d'" and "dead h now d"
  shows "dead h now d'"
proof -
  consider (revoke) ts new where "revoked_rows (ad_tokens d) ts" "ad_tokens d' = ts @ new" "\<forall>t \<in> set new. rt_hash t \<noteq> h"
    | (filter) P where "ad_tokens d' = filter P (ad_tokens d)"
    using assms(1) unfolding ledger_moves_def by blast
  then show ?thesis
  proof cases
    case revoke
    have "\<not> active now t'" if t': "t' \<in> set ts" "rt_hash t' = h" for t'
    proof -
      obtain t where "t \<in> set (ad_tokens d)" "rt_hash t' = rt_hash t"
        "rt_expires_at t' = rt_expires_at t" "rt_revoked_at t \<noteq> None \<longrightarrow> rt_revoked_at t' \<noteq> None"
        using revoked_rows_back [OF revoke(1) t'(1)] by metis
      then show ?thesis using assms(2) t'(2) by (auto simp: dead_def active_def)
    qed
    then show ?thesis using revoke(2,3) by (auto simp: dead_def)
  next
    case filter
    then show ?thesis using assms(2) by (simp add: dead_def)
  qed
qed

lemma moves_recorded:
  assumes "ledger_moves h T d d'" and "recorded h uid expiry d" and "T < expiry"
  shows "recorded h uid expiry d'"
proof -
  obtain t where t: "t \<in> set (ad_tokens d)" "rt_hash t = h" "rt_user t = uid" "rt_expires_at t = expiry"
    using assms(2) by (auto simp: recorded_def)
  consider (revoke) ts new where "revoked_rows (ad_tokens d) ts" "ad_tokens d' = ts @ new"
    | (filter) P where "ad_tokens d' = filter P (ad_tokens d)"
      "\<forall>t \<in> set (ad_tokens d). \<not> P t \<longrightarrow> rt_expires_at t \<le> T"
    using assms(1) unfolding ledger_moves_def by blast
  then show ?thesis
  proof cases
    case revoke
    obtain t' where "t' \<in> set ts" "rt_hash t' = rt_hash t" "rt_user t' = rt_user t" "rt_expires_at t' = rt_expires_at t"
      using revoked_rows_forth [OF revoke(1) t(1)] by metis
    then show ?thesis using t revoke(2) by (auto simp: recorded_def)
  next
    case filter
    have "P t" using filter(2) t(1,4) assms(3) by fastforce
    then show ?thesis using filter(1) t by (auto simp: recorded_def)
  qed
qed

lemma steps_keep:
  assumes "(token_step sha h T)\<^sup>*\<^sup>* d d'" and "auth_integrity d"
  shows "auth_integrity d' \<and> (dead h now d \<longrightarrow> dead h now d') \<and>
    (recorded h uid expiry d \<longrightarrow> T < expiry \<longrightarrow> recorded h uid expiry d')"
  using assms(1)
proof (induction rule: rtranclp_induct)
  case base
  then show ?case using assms(2) by blast
next
  case (step d1 d2)
  then have "ledger_moves h T d1 d2" "auth_integrity d2"
    using step_moves step_integrity by blast+
  then show ?case using step.IH moves_dead moves_recorded by blast
qed

section \<open>Rotation\<close>

lemma validated_hashD: "validated_hash e (Some raw) = Inr h \<Longrightarrow> h = ae_sha256 e raw \<and> opaque_refresh_token raw"
  by (auto simp: validated_hash_def hash_refresh_token_def split: if_splits)

lemma validated_hash_exn: "validated_hash e raw = Inl ex \<Longrightarrow> \<exists>r. ex = RefreshTokenRejected r"
  by (auto simp: validated_hash_def split: option.splits if_splits)

lemma rotate_dead:
  assumes "dead (ae_sha256 e raw) now d" and "now \<le> ae_now e"
  shows "\<exists>r. fst (rotate e (Some raw) d) = Inl (RefreshTokenRejected r)"
proof -
  have old: "rt_expires_at t \<le> ae_now e"
    if "lock_token d (ae_sha256 e raw) uid = Some t" and "rt_revoked_at t = None" for uid t
  proof -
    have "t \<in> set (ad_tokens d) \<and> rt_hash t = ae_sha256 e raw"
      using that(1) find_SomeD unfolding lock_token_def by fast
    then show ?thesis using assms that(2) by (auto simp: dead_def active_def)
  qed
  show ?thesis
    by (auto simp: rotate_def dest!: validated_hashD validated_hash_exn dest: old
        split: sum.splits option.splits)
qed

lemma token_lookup:
  assumes "auth_integrity d" and "t \<in> set (ad_tokens d)"
  shows "token_user_id d (rt_hash t) = Some (rt_user t)"
    and "lock_token d (rt_hash t) (rt_user t) = Some t"
    and "\<exists>u. lock_user d (rt_user t) = Some u \<and> u_id u = rt_user t"
proof -
  have hd: "distinct (map rt_hash (ad_tokens d))" using assms(1) by (simp add: auth_integrity_def)
  show "token_user_id d (rt_hash t) = Some (rt_user t)"
    using find_unique [OF hd assms(2)] by (simp add: token_user_id_def)
  have "lock_token d (rt_hash t) (rt_user t) \<noteq> None"
    using find_NoneD [OF _ assms(2)] by (auto simp: lock_token_def)
  then obtain x where x: "lock_token d (rt_hash t) (rt_user t) = Some x" by blast
  then have "x \<in> set (ad_tokens d) \<and> rt_hash x = rt_hash t"
    using find_SomeD unfolding lock_token_def by fast
  then show "lock_token d (rt_hash t) (rt_user t) = Some t"
    using x distinct_key_unique [OF hd _ assms(2)] by metis
  have "rt_user t \<in> set (map u_id (ad_users d))"
    using assms by (auto simp: auth_integrity_def list_all_iff)
  then obtain u where "u \<in> set (ad_users d)" "u_id u = rt_user t" by auto
  then have "find (\<lambda>u. u_id u = rt_user t) (ad_users d) \<noteq> None" using find_NoneD by fastforce
  then show "\<exists>u. lock_user d (rt_user t) = Some u \<and> u_id u = rt_user t"
    using find_SomeD unfolding lock_user_def by fast
qed

text \<open>The branches of \<open>rotate\<close> on a token that is in the ledger.\<close>

definition rotate_live :: "auth_env \<Rightarrow> refresh_token \<Rightarrow> user \<Rightarrow> auth_db \<Rightarrow> (auth_exn + token_grant) \<times> auth_db" where
  "rotate_live e t u d =
     (case new_refresh_token e of
        Inl ex \<Rightarrow> (Inl ex, d)
      | Inr replacement \<Rightarrow>
          (let d' = replace_token e (rt_hash t) (rt_user t) (u_id u) replacement d
           in if auth_integrity d' then (Inr (grant_for e u replacement), d')
              else (Inl AuthIntegrityError, d)))"

lemma rotate_row:
  assumes "auth_integrity d" and "t \<in> set (ad_tokens d)" and "rt_hash t = ae_sha256 e raw"
    and "opaque_refresh_token raw"
  obtains u where "lock_user d (rt_user t) = Some u" and "u_id u = rt_user t"
    and "rotate e (Some raw) d =
     (if rt_expires_at t \<le> ae_now e then (Inl (RefreshTokenRejected EXPIRED), d)
      else if rt_revoked_at t \<noteq> None
      then (Inl (RefreshTokenRejected REPLAY), snd (revoke_active_for_user (u_id u) (ae_now e) d))
      else rotate_live e t u d)"
proof -
  note lk = token_lookup [OF assms(1,2)]
  obtain u where u: "lock_user d (rt_user t) = Some u" "u_id u = rt_user t" using lk(3) by blast
  have v: "validated_hash e (Some raw) = Inr (rt_hash t)"
    using assms(3,4) by (simp add: validated_hash_def hash_refresh_token_def)
  show thesis
    by (rule that [OF u]) (simp add: rotate_def rotate_live_def v lk(1,2) u(1))
qed

lemma revoke_active_none:
  assumes "x \<in> set (ad_tokens (snd (revoke_active_for_user uid now d)))" and "rt_user x = uid"
  shows "\<not> active now x"
proof -
  have "x \<in> set (update_where (\<lambda>t. rt_user t = uid \<and> active now t)
      (\<lambda>t. t\<lparr>rt_revoked_at := Some now\<rparr>) (ad_tokens d))"
    using assms(1) by (simp add: revoke_active_for_user_def Let_def)
  then show ?thesis
  proof (rule in_update_whereE)
    fix t assume "x = t\<lparr>rt_revoked_at := Some now\<rparr>"
    then show ?thesis by (simp add: active_def)
  qed (use assms(2) in blast)
qed

lemma rotate_success:
  assumes "auth_integrity d" and "rotate e (Some raw) d = (Inr g, d1)"
    and "t \<in> set (ad_tokens d)" and "rt_hash t = ae_sha256 e raw"
  shows "opaque_refresh_token raw" and "auth_integrity d1" and "dead (ae_sha256 e raw) now d1"
    and "recorded (ae_sha256 e raw) (rt_user t) (rt_expires_at t) d1"
proof -
  show o: "opaque_refresh_token raw"
    using assms(2) by (auto simp: rotate_def dest: validated_hashD split: sum.splits)
  obtain u where u: "u_id u = rt_user t" and r: "rotate e (Some raw) d =
     (if rt_expires_at t \<le> ae_now e then (Inl (RefreshTokenRejected EXPIRED), d)
      else if rt_revoked_at t \<noteq> None
      then (Inl (RefreshTokenRejected REPLAY), snd (revoke_active_for_user (u_id u) (ae_now e) d))
      else rotate_live e t u d)"
    by (rule rotate_row [OF assms(1,3,4) o])
  have "rotate_live e t u d = (Inr g, d1)" using r assms(2) by (auto split: if_splits)
  then obtain replacement where d1: "auth_integrity d1"
      "d1 = replace_token e (rt_hash t) (rt_user t) (u_id u) replacement d"
    by (auto simp: rotate_live_def Let_def split: if_splits sum.splits)
  show "auth_integrity d1" by (rule d1(1))
  have m: "t\<lparr>rt_revoked_at := Some (ae_now e)\<rparr> \<in> set (update_where (\<lambda>x. rt_hash x = rt_hash t \<and> rt_user x = rt_user t)
          (\<lambda>x. x\<lparr>rt_revoked_at := Some (ae_now e)\<rparr>) (ad_tokens d))"
    using assms(3) by (auto simp: set_update_where)
  then show "recorded (ae_sha256 e raw) (rt_user t) (rt_expires_at t) d1"
    using assms(4) unfolding recorded_def d1(2) replace_token_def
    by (intro bexI [of _ "t\<lparr>rt_revoked_at := Some (ae_now e)\<rparr>"]) simp_all
  have only: "x = t\<lparr>rt_revoked_at := Some (ae_now e)\<rparr>" if x: "x \<in> set (ad_tokens d1)" "rt_hash x = ae_sha256 e raw" for x
  proof (rule distinct_key_unique [of rt_hash "ad_tokens d1"])
    show "distinct (map rt_hash (ad_tokens d1))" using d1(1) by (simp add: auth_integrity_def)
    show "t\<lparr>rt_revoked_at := Some (ae_now e)\<rparr> \<in> set (ad_tokens d1)" using m by (simp add: d1(2) replace_token_def)
  qed (use x assms(4) in simp_all)
  show "dead (ae_sha256 e raw) now d1"
    unfolding dead_def
  proof (intro ballI impI)
    fix x assume "x \<in> set (ad_tokens d1)" "rt_hash x = ae_sha256 e raw"
    then have "x = t\<lparr>rt_revoked_at := Some (ae_now e)\<rparr>" by (rule only)
    then show "\<not> active now x" by (simp add: active_def)
  qed
qed

lemma rotate_found:
  assumes "rotate e (Some raw) d = (Inr g, d1)"
  obtains t where "t \<in> set (ad_tokens d)" and "rt_hash t = ae_sha256 e raw"
proof -
  have "token_user_id d (ae_sha256 e raw) \<noteq> None"
    using assms
    by (cases "token_user_id d (ae_sha256 e raw)") (auto simp: rotate_def dest!: validated_hashD split: sum.splits)
  then obtain t where "find (\<lambda>t. rt_hash t = ae_sha256 e raw) (ad_tokens d) = Some t"
    by (auto simp: token_user_id_def)
  then show thesis using that find_SomeD by fast
qed

text \<open>Presenting a recorded, dead token before it expires.\<close>

lemma rotate_replay:
  assumes "auth_integrity d" and "dead (ae_sha256 e raw) (ae_now e) d"
    and "recorded (ae_sha256 e raw) uid expiry d" and "ae_now e < expiry" and "opaque_refresh_token raw"
  shows "rotate e (Some raw) d =
    (Inl (RefreshTokenRejected REPLAY), snd (revoke_active_for_user uid (ae_now e) d))"
proof -
  obtain t where t: "t \<in> set (ad_tokens d)" "rt_hash t = ae_sha256 e raw" "rt_user t = uid" "rt_expires_at t = expiry"
    using assms(3) by (auto simp: recorded_def)
  have "rt_revoked_at t \<noteq> None" using assms(2,4) t by (auto simp: dead_def active_def)
  moreover obtain u where "u_id u = rt_user t" "rotate e (Some raw) d =
     (if rt_expires_at t \<le> ae_now e then (Inl (RefreshTokenRejected EXPIRED), d)
      else if rt_revoked_at t \<noteq> None
      then (Inl (RefreshTokenRejected REPLAY), snd (revoke_active_for_user (u_id u) (ae_now e) d))
      else rotate_live e t u d)"
    by (rule rotate_row [OF assms(1) t(1,2) assms(5)])
  ultimately show ?thesis using t(3,4) assms(4) by simp
qed

definition fx_auth_env :: "timestamp \<Rightarrow> string \<Rightarrow> string \<Rightarrow> auth_env" where
  "fx_auth_env now token uuid =
     \<lparr> ae_now = now, ae_token_factory = token, ae_uuid = uuid, ae_access_uuid = uuid, ae_sha256 = id,
       ae_encode = cl_sub, ae_refresh_days = 14, ae_retention_days = 7, ae_access_minutes = 15 \<rparr>"

definition fx_secret :: "char \<Rightarrow> string" where
  "fx_secret c = replicate 64 c"

definition fx_ledger :: auth_db where
  "fx_ledger = snd (issue (fx_auth_env 0 (fx_secret CHR ''a'') ''1'') 7
     \<lparr> ad_users = [\<lparr> u_id = 7, u_username = ''ann'', u_role = ''user'' \<rparr>], ad_tokens = [] \<rparr>)"

definition fx_rotation :: "(auth_exn + token_grant) \<times> auth_db" where
  "fx_rotation = rotate (fx_auth_env 5 (fx_secret CHR ''b'') ''2'') (Some (fx_secret CHR ''a'')) fx_ledger"

lemma fx_rotation_ok:
  "auth_integrity fx_ledger"
  "rotate (fx_auth_env 5 (fx_secret CHR ''b'') ''2'') (Some (fx_secret CHR ''a'')) fx_ledger =
     (Inr \<lparr> tg_access_token = ''ann'', tg_refresh_token = fx_secret CHR ''b'', tg_username = ''ann'',
            tg_role = ''user'' \<rparr>, snd fx_rotation)"
  by code_simp+

text \<open>
  C21. A refresh token works at most once. After it has been rotated, and whatever transactions
  of the service, of the retention job and of registration follow, presenting it again is
  rejected; while the token has not expired the rejection is the replay alarm, and it leaves
  its user without any usable refresh token. The factory is assumed not to make a token with
  the hash of the one that is followed.
\<close>

theorem rotated_token_never_again:
  assumes "auth_integrity d" and "rotate e (Some raw) d = (Inr g, d1)"
    and "(token_step (ae_sha256 e) (ae_sha256 e raw) T)\<^sup>*\<^sup>* d1 d2"
    and "ae_sha256 e' = ae_sha256 e" and "T \<le> ae_now e'"
  shows "\<exists>t \<in> set (ad_tokens d). rt_hash t = ae_sha256 e raw \<and>
    (\<exists>r. fst (rotate e' (Some raw) d2) = Inl (RefreshTokenRejected r)) \<and>
    (ae_now e' < rt_expires_at t \<longrightarrow>
       fst (rotate e' (Some raw) d2) = Inl (RefreshTokenRejected REPLAY) \<and>
       (\<forall>x \<in> set (ad_tokens (snd (rotate e' (Some raw) d2))).
          rt_user x = rt_user t \<longrightarrow> \<not> active (ae_now e') x))"
proof -
  obtain t where t: "t \<in> set (ad_tokens d)" "rt_hash t = ae_sha256 e raw"
    by (rule rotate_found [OF assms(2)])
  note s = rotate_success [OF assms(1,2) t]
  have k: "auth_integrity d2" "dead (ae_sha256 e raw) (ae_now e') d2"
    "T < rt_expires_at t \<Longrightarrow> recorded (ae_sha256 e raw) (rt_user t) (rt_expires_at t) d2"
    using steps_keep [OF assms(3) s(2)] s(3,4) by blast+
  have "\<exists>r. fst (rotate e' (Some raw) d2) = Inl (RefreshTokenRejected r)"
    using k(2) unfolding assms(4) [symmetric] by (rule rotate_dead) simp
  moreover have "rotate e' (Some raw) d2 =
      (Inl (RefreshTokenRejected REPLAY), snd (revoke_active_for_user (rt_user t) (ae_now e') d2))"
    if "ae_now e' < rt_expires_at t"
    using that k assms(5) s(1) unfolding assms(4) [symmetric] by (intro rotate_replay) auto
  ultimately show ?thesis using t revoke_active_none by (intro bexI [of _ t]) simp_all
qed

theorem rotated_token_never_again_witness:
  "\<exists>r. fst (rotate (fx_auth_env 6 (fx_secret CHR ''c'') ''3'') (Some (fx_secret CHR ''a''))
     (snd (logout (fx_auth_env 6 [] []) (Some (fx_secret CHR ''b'')) (snd fx_rotation))))
     = Inl (RefreshTokenRejected r)"
proof -
  let ?e = "fx_auth_env 5 (fx_secret CHR ''b'') ''2''"
  let ?d = "snd (logout (fx_auth_env 6 [] []) (Some (fx_secret CHR ''b'')) (snd fx_rotation))"
  have "token_step (ae_sha256 ?e) (ae_sha256 ?e (fx_secret CHR ''a'')) 6 (snd fx_rotation) ?d"
    by (rule step_logout) (simp_all add: fx_auth_env_def)
  then have "(token_step (ae_sha256 ?e) (ae_sha256 ?e (fx_secret CHR ''a'')) 6)\<^sup>*\<^sup>* (snd fx_rotation) ?d"
    by (rule r_into_rtranclp)
  from rotated_token_never_again [OF fx_rotation_ok(1,2) this, of "fx_auth_env 6 (fx_secret CHR ''c'') ''3''"]
  show ?thesis by (auto simp: fx_auth_env_def)
qed

section \<open>Ending all sessions\<close>

lemma logout_all_row:
  assumes "auth_integrity d" and "lock_user d uid \<noteq> None"
    and "t \<in> set (ad_tokens d)" and "rt_user t = uid"
  shows "dead (rt_hash t) (ae_now e) (snd (logout_all e uid d))"
  unfolding dead_def
proof (intro ballI impI)
  let ?d = "snd (revoke_active_for_user uid (ae_now e) d)"
  have eq: "snd (logout_all e uid d) = ?d" using assms(2) by (auto simp: logout_all_def)
  fix x assume x: "x \<in> set (ad_tokens (snd (logout_all e uid d)))" "rt_hash x = rt_hash t"
  have "revoked_rows (ad_tokens d) (ad_tokens ?d)"
    by (simp add: revoke_active_for_user_def Let_def revoked_rows_update)
  then obtain y where y: "y \<in> set (ad_tokens d)" "rt_hash x = rt_hash y" "rt_user x = rt_user y"
    using revoked_rows_back x(1) unfolding eq by metis
  have "distinct (map rt_hash (ad_tokens d))" using assms(1) by (simp add: auth_integrity_def)
  then have "y = t" using y(1,2) x(2) assms(3) by (intro distinct_key_unique [of rt_hash "ad_tokens d"]) simp_all
  then show "\<not> active (ae_now e) x"
    using x(1) y(3) assms(4) unfolding eq by (intro revoke_active_none) auto
qed

lemma logout_all_integrity: "auth_integrity d \<Longrightarrow> auth_integrity (snd (logout_all e uid d))"
  using integrity_revoke_only
  by (auto simp: logout_all_def revoke_active_for_user_def Let_def split: option.splits)

lemma logout_all_others:
  "filter (\<lambda>t. rt_user t \<noteq> uid) (ad_tokens (snd (logout_all e uid d))) = filter (\<lambda>t. rt_user t \<noteq> uid) (ad_tokens d)"
  by (auto simp: logout_all_def revoke_active_for_user_def Let_def split: option.splits
      intro: filter_update_where_other)

text \<open>
  C22. Logging out everywhere ends every session of the user: it reports the number of tokens
  that were usable, leaves the tokens of other users alone, and from then on, whatever
  transactions follow, no refresh token the user had can be rotated.
\<close>

theorem logout_all_ends_sessions:
  assumes "auth_integrity d" and "lock_user d uid \<noteq> None" and "logout_all e uid d = (n, d1)"
    and "t \<in> set (ad_tokens d)" and "rt_user t = uid" and "rt_hash t = ae_sha256 e' raw"
    and "(token_step (ae_sha256 e') (ae_sha256 e' raw) T)\<^sup>*\<^sup>* d1 d2" and "ae_now e \<le> ae_now e'"
  shows "n = int (length (filter (\<lambda>x. rt_user x = uid \<and> active (ae_now e) x) (ad_tokens d))) \<and>
    filter (\<lambda>x. rt_user x \<noteq> uid) (ad_tokens d1) = filter (\<lambda>x. rt_user x \<noteq> uid) (ad_tokens d) \<and>
    (\<exists>r. fst (rotate e' (Some raw) d2) = Inl (RefreshTokenRejected r))"
proof -
  have d1: "d1 = snd (logout_all e uid d)" using assms(3) by simp
  have "dead (ae_sha256 e' raw) (ae_now e) d1" "auth_integrity d1"
    using logout_all_row [OF assms(1,2,4,5), of e] logout_all_integrity [OF assms(1)]
    unfolding d1 assms(6) by blast+
  then have "dead (ae_sha256 e' raw) (ae_now e) d2" using steps_keep [OF assms(7)] by blast
  then have "\<exists>r. fst (rotate e' (Some raw) d2) = Inl (RefreshTokenRejected r)"
    using assms(8) by (rule rotate_dead)
  moreover have "n = int (length (filter (\<lambda>x. rt_user x = uid \<and> active (ae_now e) x) (ad_tokens d)))"
    using assms(2,3) by (auto simp: logout_all_def revoke_active_for_user_def Let_def)
  ultimately show ?thesis using logout_all_others [of uid e d] unfolding d1 by blast
qed

definition fx_row :: refresh_token where
  "fx_row = new_token_row (fx_auth_env 0 (fx_secret CHR ''a'') ''1'') 7 (fx_secret CHR ''a'')"

lemma fx_ledger_facts:
  "lock_user fx_ledger 7 \<noteq> None" "ad_tokens fx_ledger = [fx_row]"
  "rt_user fx_row = 7" "rt_hash fx_row = ae_sha256 (fx_auth_env 6 (fx_secret CHR ''c'') ''3'') (fx_secret CHR ''a'')"
  by code_simp+

theorem logout_all_ends_sessions_witness:
  "\<exists>r. fst (rotate (fx_auth_env 6 (fx_secret CHR ''c'') ''3'') (Some (fx_secret CHR ''a''))
     (snd (logout_all (fx_auth_env 5 [] []) 7 fx_ledger))) = Inl (RefreshTokenRejected r)"
proof -
  have "fx_row \<in> set (ad_tokens fx_ledger)" by (simp add: fx_ledger_facts(2))
  from logout_all_ends_sessions [OF fx_rotation_ok(1) fx_ledger_facts(1) prod.collapse [symmetric] this
      fx_ledger_facts(3,4) rtranclp.rtrancl_refl]
  show ?thesis by (auto simp: fx_auth_env_def)
qed

section \<open>Retention\<close>

definition cutoff :: "auth_env \<Rightarrow> timestamp" where
  "cutoff e = ae_now e - days (ae_retention_days e)"

definition stale :: "auth_env \<Rightarrow> refresh_token list \<Rightarrow> refresh_token list" where
  "stale e ts = filter (\<lambda>t. rt_expires_at t \<le> cutoff e) ts"

lemma candidates_stale:
  assumes "distinct (map rt_id (ad_tokens d))"
  shows "length (filter (\<lambda>t. rt_id t \<in> set (purge_candidates e k d)) (ad_tokens d))
      = min k (length (stale e (ad_tokens d)))"
    and "t \<in> set (ad_tokens d) \<Longrightarrow> rt_id t \<in> set (purge_candidates e k d) \<Longrightarrow> rt_expires_at t \<le> cutoff e"
    and "purge_candidates e k d = [] \<longleftrightarrow> k = 0 \<or> stale e (ad_tokens d) = []"
proof -
  define rows where "rows = sort_key rt_expires_at (sort_key rt_id (stale e (ad_tokens d)))"
  have c: "purge_candidates e k d = map rt_id (take k rows)"
    by (simp add: purge_candidates_def rows_def stale_def cutoff_def Let_def)
  have rows: "set rows \<subseteq> set (ad_tokens d)" "length rows = length (stale e (ad_tokens d))" "distinct rows"
    using assms by (auto simp: rows_def stale_def distinct_map)
  have inj: "inj_on rt_id (set (ad_tokens d))" using assms by (simp add: distinct_map)
  have in_iff: "rt_id t \<in> set (purge_candidates e k d) \<longleftrightarrow> t \<in> set (take k rows)" if "t \<in> set (ad_tokens d)" for t
    using that rows(1) inj unfolding c by (auto simp: inj_on_def dest: in_set_takeD)
  then have "filter (\<lambda>t. rt_id t \<in> set (purge_candidates e k d)) (ad_tokens d) =
      filter (\<lambda>t. t \<in> set (take k rows)) (ad_tokens d)" by (intro filter_cong) auto
  also have "length \<dots> = card (set (take k rows))"
  proof -
    have "distinct (filter (\<lambda>t. t \<in> set (take k rows)) (ad_tokens d))" using assms by (simp add: distinct_map)
    then have "length (filter (\<lambda>t. t \<in> set (take k rows)) (ad_tokens d)) =
        card (set (filter (\<lambda>t. t \<in> set (take k rows)) (ad_tokens d)))"
      by (simp only: distinct_card)
    also have "set (filter (\<lambda>t. t \<in> set (take k rows)) (ad_tokens d)) = set (take k rows)"
      using rows(1) set_take_subset [of k rows] by auto
    finally show ?thesis .
  qed
  also have "\<dots> = length (take k rows)" using rows(3) by (intro distinct_card) simp
  finally show "length (filter (\<lambda>t. rt_id t \<in> set (purge_candidates e k d)) (ad_tokens d))
      = min k (length (stale e (ad_tokens d)))" by (simp add: rows(2) min.commute)
  show "rt_expires_at t \<le> cutoff e" if "t \<in> set (ad_tokens d)" "rt_id t \<in> set (purge_candidates e k d)"
    using purge_candidate [OF assms that] by (simp add: cutoff_def)
  show "purge_candidates e k d = [] \<longleftrightarrow> k = 0 \<or> stale e (ad_tokens d) = []"
    using rows(2) by (auto simp: c)
qed

lemma purge_batch:
  assumes "distinct (map rt_id (ad_tokens d))" and "0 < batch"
  obtains d1 where "purge_refresh_token_batch e batch d = Inr (min batch (int (length (stale e (ad_tokens d)))), d1)"
    and "ad_users d1 = ad_users d" and "distinct (map rt_id (ad_tokens d1))"
    and "filter (\<lambda>t. cutoff e < rt_expires_at t) (ad_tokens d1) = filter (\<lambda>t. cutoff e < rt_expires_at t) (ad_tokens d)"
    and "length (stale e (ad_tokens d1)) = length (stale e (ad_tokens d)) - nat batch"
proof -
  let ?c = "purge_candidates e (nat batch) d"
  define d1 where "d1 = d\<lparr>ad_tokens := filter (\<lambda>t. rt_id t \<notin> set ?c) (ad_tokens d)\<rparr>"
  note cs = candidates_stale [OF assms(1), where e = e and k = "nat batch"]
  have n: "int (length (filter (\<lambda>t. rt_id t \<in> set ?c) (ad_tokens d))) = min batch (int (length (stale e (ad_tokens d))))"
    using cs(1) assms(2) by (simp add: of_nat_min)
  have "purge_refresh_token_batch e batch d = Inr (min batch (int (length (stale e (ad_tokens d)))), d1)"
  proof (cases "?c = []")
    case True
    then show ?thesis using cs(3) assms(2) by (auto simp: purge_refresh_token_batch_def Let_def d1_def)
  next
    case False
    then show ?thesis using assms(2) n by (simp add: purge_refresh_token_batch_def Let_def d1_def)
  qed
  moreover have "distinct (map rt_id (ad_tokens d1))" using assms(1) by (simp add: d1_def distinct_map_filter)
  moreover have "filter (\<lambda>t. cutoff e < rt_expires_at t) (ad_tokens d1) = filter (\<lambda>t. cutoff e < rt_expires_at t) (ad_tokens d)"
    using cs(2) by (auto simp: d1_def intro!: filter_cong) fastforce
  moreover have "length (stale e (ad_tokens d1)) = length (stale e (ad_tokens d)) - nat batch"
  proof -
    have "filter (\<lambda>t. rt_id t \<in> set ?c) (stale e (ad_tokens d)) = filter (\<lambda>t. rt_id t \<in> set ?c) (ad_tokens d)"
      using cs(2) by (auto simp: stale_def intro!: filter_cong)
    moreover have "stale e (ad_tokens d1) = filter (\<lambda>t. \<not> rt_id t \<in> set ?c) (stale e (ad_tokens d))"
      by (auto simp: stale_def d1_def intro!: filter_cong)
    ultimately show ?thesis
      using sum_length_filter_compl [of "\<lambda>t. rt_id t \<in> set ?c" "stale e (ad_tokens d)"] cs(1) by simp
  qed
  ultimately show thesis by (intro that [of d1]) (simp_all add: d1_def)
qed

lemma stale_none: "stale e ts = [] \<Longrightarrow> filter (\<lambda>t. cutoff e < rt_expires_at t) ts = ts"
  by (auto simp: stale_def filter_empty_conv filter_id_conv)

lemma purge_loop_all:
  assumes "distinct (map rt_id (ad_tokens d))" and "0 < batch"
    and "length (stale e (ad_tokens d)) \<le> k * nat batch"
  shows "purge_loop batch (replicate k e) acc d =
    Inr (acc + int (length (stale e (ad_tokens d))), d\<lparr>ad_tokens := filter (\<lambda>t. cutoff e < rt_expires_at t) (ad_tokens d)\<rparr>)"
  using assms
proof (induction k arbitrary: acc d)
  case 0
  then show ?case using stale_none [of e "ad_tokens d"] by simp
next
  case (Suc k)
  obtain d1 where d1: "purge_refresh_token_batch e batch d = Inr (min batch (int (length (stale e (ad_tokens d)))), d1)"
    "ad_users d1 = ad_users d" "distinct (map rt_id (ad_tokens d1))"
    "filter (\<lambda>t. cutoff e < rt_expires_at t) (ad_tokens d1) = filter (\<lambda>t. cutoff e < rt_expires_at t) (ad_tokens d)"
    "length (stale e (ad_tokens d1)) = length (stale e (ad_tokens d)) - nat batch"
    by (rule purge_batch [OF Suc.prems(1,2)])
  have fin: "d1\<lparr>ad_tokens := ts\<rparr> = d\<lparr>ad_tokens := ts\<rparr>" for ts using d1(2) by (cases d; cases d1) simp
  show ?case
  proof (cases "int (length (stale e (ad_tokens d))) < batch")
    case True
    then have "stale e (ad_tokens d1) = []" using d1(5) by simp
    then have "d1 = d\<lparr>ad_tokens := filter (\<lambda>t. cutoff e < rt_expires_at t) (ad_tokens d)\<rparr>"
      using stale_none [of e "ad_tokens d1"] fin [of "ad_tokens d1"] d1(4) by simp
    then show ?thesis using True d1(1) by simp
  next
    case False
    have "length (stale e (ad_tokens d1)) \<le> k * nat batch" using d1(5) Suc.prems(3) by simp
    note IH = Suc.IH [OF d1(3) Suc.prems(2) this, of "acc + batch"]
    have "batch + int (length (stale e (ad_tokens d1))) = int (length (stale e (ad_tokens d)))"
      using False d1(5) Suc.prems(2) by simp
    then show ?thesis using False IH d1(1,4) fin by (simp add: add.assoc)
  qed
qed

text \<open>
  C23. The retention job, given enough batches at one time, deletes exactly the tokens that
  expired at least the retention period ago, reports their number and keeps all others in
  place, so that a token that can still raise the replay alarm is never purged.
\<close>

theorem purge_loop_complete:
  assumes "auth_integrity d" and "0 < batch"
    and "length (filter (\<lambda>t. rt_expires_at t \<le> ae_now e - days (ae_retention_days e)) (ad_tokens d)) \<le> k * nat batch"
  shows "purge_loop batch (replicate k e) 0 d =
    Inr (int (length (filter (\<lambda>t. rt_expires_at t \<le> ae_now e - days (ae_retention_days e)) (ad_tokens d))),
         d\<lparr>ad_tokens := filter (\<lambda>t. ae_now e - days (ae_retention_days e) < rt_expires_at t) (ad_tokens d)\<rparr>)"
  using purge_loop_all [of d batch e k 0] assms
  by (simp add: stale_def cutoff_def auth_integrity_def)

theorem purge_loop_complete_witness:
  "purge_loop 1 (replicate 2 (fx_auth_env (days 30) [] [])) 0 fx_ledger = Inr (1, fx_ledger\<lparr>ad_tokens := []\<rparr>)"
proof -
  have "rt_expires_at fx_row \<le> days 30 - days 7" by code_simp
  then show ?thesis
    using purge_loop_complete [OF fx_rotation_ok(1), of 1 "fx_auth_env (days 30) [] []" 2]
    by (simp add: fx_ledger_facts(2) fx_auth_env_def)
qed

end
