(* ===== verification/Guardrails.thy ===== *)
theory Guardrails
  imports Run_Request
begin

text \<open>
  The tool guardrail of \<^verbatim>\<open>src/backend/guardrails\<close>: \<^verbatim>\<open>contracts.py\<close> (the summary of the arguments of a
  call, the request, directives and results with their validation) and \<^verbatim>\<open>policy.py\<close> (the policy
  and its validation, the decision matrix and the fail-closed evaluation). A constructor that
  raises is \<open>None\<close>. SHA-256 is the parameter \<open>sha\<close>, the order in which Python iterates over a
  set of strings the parameter \<open>iter\<close>. Tool arguments are Python objects, so they live in a heap
  and may be shared or cyclic.
\<close>

section \<open>Identifiers and fingerprints\<close>

definition sha256_re :: "string \<Rightarrow> bool" where
  "sha256_re s \<longleftrightarrow> length s = 64 \<and> list_all (\<lambda>c. is_digit c \<or> 97 \<le> byte c \<and> byte c \<le> 102) s"

definition stable_id_re :: "string \<Rightarrow> bool" where
  "stable_id_re = fullmatch_ident is_lower (\<lambda>c. is_lower c \<or> is_digit c \<or> c \<in> set ''_.:-'') 127"

definition policy_version_re :: "string \<Rightarrow> bool" where
  "policy_version_re = fullmatch_ident is_alnum (\<lambda>c. is_alnum c \<or> c \<in> set ''_.+-'') 63"

text \<open>The values that are fingerprinted, and \<open>json.dumps\<close> with sorted keys and no spaces on them.\<close>

datatype payload =
    PInt nat
  | PStr string
  | PList "payload list"
  | PObj "(string \<times> payload) list"

fun dumps :: "payload \<Rightarrow> string" where
  "dumps (PInt n) = dump_nat n"
| "dumps (PStr s) = dump_string s"
| "dumps (PList xs) = ''['' @ join_with '','' (map dumps xs) @ '']''"
| "dumps (PObj kvs) =
     ''{'' @ join_with '','' (map (\<lambda>(k, v). dump_string k @ '':'' @ v)
       (sort_key fst (map (\<lambda>(k, v). (k, dumps v)) kvs))) @ ''}''"

definition canonical_fingerprint :: "(string \<Rightarrow> string) \<Rightarrow> payload \<Rightarrow> string" where
  "canonical_fingerprint sha p = sha (dumps p)"

definition context_text_is_complete :: "string option \<Rightarrow> bool" where
  "context_text_is_complete v =
     (case v of
        None \<Rightarrow> False
      | Some s \<Rightarrow> s \<noteq> [] \<and> s = py_strip s \<and> length s \<le> 512 \<and>
          \<not> list_ex (\<lambda>c. byte c < 32 \<or> byte c = 127) s)"

definition stable_context_identifier :: "string option \<Rightarrow> bool" where
  "stable_context_identifier v = (case v of None \<Rightarrow> False | Some s \<Rightarrow> stable_id_re s)"

section \<open>Summaries of arguments\<close>

datatype pyvalue =
    VNone
  | VBool bool
  | VInt int
  | VFloat "rat option"
  | VStr string
  | VBytes string
  | VRef nat
  | VOther

datatype pyobj = OMap "(string option \<times> pyvalue) list" | OSeq "pyvalue list"

type_synonym heap = "nat \<Rightarrow> pyobj"

record tool_args_summary =
  ta_complete :: bool
  ta_argument_count :: nat
  ta_scalar_count :: nat
  ta_collection_count :: nat
  ta_secret_field_count :: nat
  ta_body_field_count :: nat
  ta_unknown_value_count :: nat
  ta_max_depth :: nat
  ta_shape_hash :: string

definition ToolArgsSummary :: "tool_args_summary \<Rightarrow> tool_args_summary option" where
  "ToolArgsSummary s = (if sha256_re (ta_shape_hash s) then Some s else None)"

definition unavailable :: "(string \<Rightarrow> string) \<Rightarrow> tool_args_summary option" where
  "unavailable sha =
     ToolArgsSummary
       \<lparr> ta_complete = False, ta_argument_count = 0, ta_scalar_count = 0, ta_collection_count = 0,
         ta_secret_field_count = 0, ta_body_field_count = 0, ta_unknown_value_count = 1,
         ta_max_depth = 0,
         ta_shape_hash = canonical_fingerprint sha
           (PObj [(''schema_version'', PInt 1), (''state'', PStr ''unavailable'')]) \<rparr>"

definition SECRET_KEY_PARTS :: "string list" where
  "SECRET_KEY_PARTS = [''api'', ''apikey'', ''authorization'', ''cookie'', ''credential'', ''key'',
     ''password'', ''secret'', ''session'', ''token'']"

definition BODY_KEY_PARTS :: "string list" where
  "BODY_KEY_PARTS = [''body'', ''content'', ''data'', ''document'', ''payload'', ''query'', ''sql'', ''text'']"

definition MAX_ARGUMENT_NODES :: nat where
  "MAX_ARGUMENT_NODES = 4096"

definition MAX_ARGUMENT_DEPTH :: nat where
  "MAX_ARGUMENT_DEPTH = 16"

text \<open>\<open>findall\<close> of the runs of ASCII letters and digits.\<close>

function key_parts :: "string \<Rightarrow> string list" where
  "key_parts s =
     (case dropWhile (\<lambda>c. \<not> is_alnum c) s of
        [] \<Rightarrow> []
      | c # cs \<Rightarrow> (c # takeWhile is_alnum cs) # key_parts (dropWhile is_alnum cs))"
  by pat_completeness auto
termination
proof (relation "measure length", goal_cases)
  case (2 s c cs)
  then have "length (c # cs) \<le> length s" by (metis length_dropWhile_le)
  moreover have "length (dropWhile is_alnum cs) \<le> length cs" by (rule length_dropWhile_le)
  ultimately show ?case by simp
qed simp

declare key_parts.simps [simp del]

definition contains :: "string \<Rightarrow> string \<Rightarrow> bool" where
  "contains m s \<longleftrightarrow> list_ex (\<lambda>i. take (length m) (drop i s) = m) [0..<Suc (length s)]"

datatype key_class = InvalidKey | SecretField | BodyField | OrdinaryField

fun key_class_value :: "key_class \<Rightarrow> string" where
  "key_class_value InvalidKey = ''invalid-key''"
| "key_class_value SecretField = ''secret-field''"
| "key_class_value BodyField = ''body-field''"
| "key_class_value OrdinaryField = ''ordinary-field''"

definition key_class :: "(string fset \<Rightarrow> string list) \<Rightarrow> string option \<Rightarrow> key_class" where
  "key_class iter key =
     (case key of
        None \<Rightarrow> InvalidKey
      | Some k \<Rightarrow>
          (let parts = map (map ascii_lower) (key_parts k);
               compact = concat (iter (fset_of_list parts))
           in if list_ex (\<lambda>p. p \<in> set SECRET_KEY_PARTS) parts \<or>
                 list_ex (\<lambda>m. contains m compact) [''apikey'', ''accesstoken'', ''refreshtoken'']
              then SecretField
              else if list_ex (\<lambda>p. p \<in> set BODY_KEY_PARTS) parts then BodyField
              else OrdinaryField))"

record counters =
  co_complete :: bool
  co_scalar :: nat
  co_collection :: nat
  co_secret :: nat
  co_body :: nat
  co_unknown :: nat
  co_max_depth :: nat
  co_nodes :: nat

definition counters_init :: counters where
  "counters_init = \<lparr> co_complete = True, co_scalar = 0, co_collection = 0, co_secret = 0,
     co_body = 0, co_unknown = 0, co_max_depth = 0, co_nodes = 0 \<rparr>"

definition count_unknown :: "counters \<Rightarrow> counters" where
  "count_unknown c = c\<lparr>co_complete := False, co_unknown := co_unknown c + 1\<rparr>"

definition count_scalar :: "counters \<Rightarrow> counters" where
  "count_scalar c = c\<lparr>co_scalar := co_scalar c + 1\<rparr>"

definition count_node :: "nat \<Rightarrow> counters \<Rightarrow> counters" where
  "count_node depth c = c\<lparr>co_nodes := co_nodes c + 1, co_max_depth := max (co_max_depth c) depth\<rparr>"

fun count_key :: "key_class \<Rightarrow> counters \<Rightarrow> counters" where
  "count_key InvalidKey c = count_unknown c"
| "count_key SecretField c = c\<lparr>co_secret := co_secret c + 1\<rparr>"
| "count_key BodyField c = c\<lparr>co_body := co_body c + 1\<rparr>"
| "count_key OrdinaryField c = c"

datatype shape = Atom string | ShObject "(key_class \<times> shape) list" | ShArray "shape list"

text \<open>\<open>repr\<close> of an entry, by which the entries of an object are sorted.\<close>

fun repr_shape :: "shape \<Rightarrow> string" where
  "repr_shape (Atom s) = [CHR 0x27] @ s @ [CHR 0x27]"
| "repr_shape (ShObject es) =
     ''['' @ [CHR 0x27] @ ''object'' @ [CHR 0x27] @ '', ['' @
     join_with '', '' (map (\<lambda>(k, x). ''('' @ [CHR 0x27] @ key_class_value k @ [CHR 0x27] @ '', '' @ x @ '')'')
       (map (\<lambda>(k, x). (k, repr_shape x)) es)) @ '']]''"
| "repr_shape (ShArray xs) =
     ''['' @ [CHR 0x27] @ ''array'' @ [CHR 0x27] @ '', ['' @ join_with '', '' (map repr_shape xs) @ '']]''"

definition repr_entry :: "key_class \<times> shape \<Rightarrow> string" where
  "repr_entry e = ''('' @ [CHR 0x27] @ key_class_value (fst e) @ [CHR 0x27] @ '', '' @ repr_shape (snd e) @ '')''"

fun shape_payload :: "shape \<Rightarrow> payload" where
  "shape_payload (Atom s) = PStr s"
| "shape_payload (ShObject es) =
     PList [PStr ''object'',
       PList (map (\<lambda>(k, p). PList [PStr (key_class_value k), p]) (map (\<lambda>(k, x). (k, shape_payload x)) es))]"
| "shape_payload (ShArray xs) = PList [PStr ''array'', PList (map shape_payload xs)]"

text \<open>\<open>visit\<close>, with the addresses of the enclosing collections and the counters.\<close>

function (sequential) visit ::
    "(string option \<Rightarrow> key_class) \<Rightarrow> heap \<Rightarrow> nat list \<Rightarrow> nat \<Rightarrow> pyvalue \<Rightarrow> counters \<Rightarrow> shape \<times> counters"
  and visit_entries ::
    "(string option \<Rightarrow> key_class) \<Rightarrow> heap \<Rightarrow> nat list \<Rightarrow> nat \<Rightarrow> (string option \<times> pyvalue) list \<Rightarrow> counters
       \<Rightarrow> (key_class \<times> shape) list \<times> counters"
  and visit_items ::
    "(string option \<Rightarrow> key_class) \<Rightarrow> heap \<Rightarrow> nat list \<Rightarrow> nat \<Rightarrow> pyvalue list \<Rightarrow> counters
       \<Rightarrow> shape list \<times> counters" where
  "visit cls h active depth v c0 =
     (let c = count_node depth c0
      in if MAX_ARGUMENT_NODES < co_nodes c \<or> MAX_ARGUMENT_DEPTH < depth
         then (Atom ''limit-exceeded'', count_unknown c)
         else
          (case v of
             VNone \<Rightarrow> (Atom ''null'', count_scalar c)
           | VBool b \<Rightarrow> (Atom ''boolean'', count_scalar c)
           | VInt i \<Rightarrow> (Atom ''number'', count_scalar c)
           | VFloat f \<Rightarrow>
               if f = None then (Atom ''invalid-number'', count_unknown (count_scalar c))
               else (Atom ''number'', count_scalar c)
           | VStr s \<Rightarrow> (Atom ''string'', count_scalar c)
           | VBytes s \<Rightarrow> (Atom ''binary'', count_scalar c)
           | VRef a \<Rightarrow>
               if a \<in> set active then (Atom ''cycle'', count_unknown c)
               else
                (let c1 = c\<lparr>co_collection := co_collection c + 1\<rparr>
                 in case h a of
                      OMap es \<Rightarrow>
                        (case visit_entries cls h (a # active) (depth + 1) es c1 of
                           (out, c2) \<Rightarrow> (ShObject (sort_key repr_entry out), c2))
                    | OSeq xs \<Rightarrow>
                        (case visit_items cls h (a # active) (depth + 1) xs c1 of
                           (out, c2) \<Rightarrow> (ShArray out, c2)))
           | VOther \<Rightarrow> (Atom ''unknown'', count_unknown c)))"
| "visit_entries cls h active depth [] c = ([], c)"
| "visit_entries cls h active depth ((k, v) # es) c =
     (case visit cls h active depth v (count_key (cls k) c) of
        (x, c1) \<Rightarrow> (case visit_entries cls h active depth es c1 of (xs, c2) \<Rightarrow> ((cls k, x) # xs, c2)))"
| "visit_items cls h active depth [] c = ([], c)"
| "visit_items cls h active depth (v # vs) c =
     (case visit cls h active depth v c of
        (x, c1) \<Rightarrow> (case visit_items cls h active depth vs c1 of (xs, c2) \<Rightarrow> (x # xs, c2)))"
  by pat_completeness auto
termination
  by (relation "measures
        [\<lambda>x. case x of Inl (cls, h, active, depth, v, c) \<Rightarrow> 18 - depth
             | Inr (Inl (cls, h, active, depth, es, c)) \<Rightarrow> 18 - depth
             | Inr (Inr (cls, h, active, depth, vs, c)) \<Rightarrow> 18 - depth,
         \<lambda>x. case x of Inl _ \<Rightarrow> 0
             | Inr (Inl (cls, h, active, depth, es, c)) \<Rightarrow> Suc (length es)
             | Inr (Inr (cls, h, active, depth, vs, c)) \<Rightarrow> Suc (length vs)]")
    (auto simp: MAX_ARGUMENT_DEPTH_def)

declare visit.simps [simp del]

text \<open>\<open>ToolArgsSummary.from_mapping\<close> of the object at an address; it may not be a mapping.\<close>

definition from_mapping ::
    "(string \<Rightarrow> string) \<Rightarrow> (string fset \<Rightarrow> string list) \<Rightarrow> heap \<Rightarrow> pyvalue \<Rightarrow> tool_args_summary option" where
  "from_mapping sha iter h arguments =
     (case arguments of
        VRef a \<Rightarrow>
          (case h a of
             OMap es \<Rightarrow>
               (case visit (key_class iter) h [] 0 arguments counters_init of
                  (shape, c) \<Rightarrow>
                    ToolArgsSummary
                      \<lparr> ta_complete = co_complete c, ta_argument_count = length es,
                        ta_scalar_count = co_scalar c, ta_collection_count = co_collection c,
                        ta_secret_field_count = co_secret c, ta_body_field_count = co_body c,
                        ta_unknown_value_count = co_unknown c, ta_max_depth = co_max_depth c,
                        ta_shape_hash = canonical_fingerprint sha
                          (PObj [(''schema_version'', PInt 1), (''shape'', shape_payload shape)]) \<rparr>)
           | OSeq _ \<Rightarrow> unavailable sha)
      | _ \<Rightarrow> unavailable sha)"

section \<open>Requests, directives and results\<close>

record guardrail_request =
  gr_user_id :: "string option"
  gr_roles :: "string fset option"
  gr_tenant_id :: "string option"
  gr_thread_id :: "string option"
  gr_run_id :: "string option"
  gr_tool_name :: "string option"
  gr_tool_group :: "string option"
  gr_tool_args_summary :: "tool_args_summary option"
  gr_active_skill :: "string option"
  gr_active_skill_registered :: "bool option"
  gr_active_skill_scope_allows :: "bool option"
  gr_channel :: "string option"
  gr_network_policy :: "string option"
  gr_resource_scope :: "string option"
  gr_descriptor_requires_approval :: "bool option"
  gr_approval_granted :: "bool option"

definition missing_context_fields :: "guardrail_request \<Rightarrow> string list" where
  "missing_context_fields r =
     map fst (filter (\<lambda>(n, v). \<not> context_text_is_complete v)
       [(''user_id'', gr_user_id r), (''tenant_id'', gr_tenant_id r), (''thread_id'', gr_thread_id r),
        (''run_id'', gr_run_id r), (''tool_name'', gr_tool_name r), (''tool_group'', gr_tool_group r),
        (''channel'', gr_channel r), (''network_policy'', gr_network_policy r),
        (''resource_scope'', gr_resource_scope r)])
     @ (if gr_roles r = None then [''roles''] else [])
     @ (case gr_tool_args_summary r of
          None \<Rightarrow> [''tool_args_summary'']
        | Some s \<Rightarrow> if ta_complete s then [] else [''tool_args_summary''])
     @ (if gr_descriptor_requires_approval r = None then [''descriptor_requires_approval''] else [])
     @ (if gr_approval_granted r = None then [''approval_granted''] else [])
     @ (if gr_active_skill_registered r = None then [''active_skill_registered''] else [])
     @ (if gr_active_skill_scope_allows r = None then [''active_skill_scope_allows''] else [])
     @ (if gr_active_skill r \<noteq> None \<and> \<not> context_text_is_complete (gr_active_skill r)
        then [''active_skill''] else [])"

definition has_unknown_context_values :: "guardrail_request \<Rightarrow> bool" where
  "has_unknown_context_values r \<longleftrightarrow>
     list_ex (\<lambda>v. \<not> stable_context_identifier v)
       [gr_tool_name r, gr_tool_group r, gr_channel r, gr_network_policy r, gr_resource_scope r] \<or>
     gr_active_skill r \<noteq> None \<and> \<not> stable_context_identifier (gr_active_skill r) \<or>
     (case gr_roles r of
        None \<Rightarrow> False
      | Some roles \<Rightarrow> 1024 < fcard roles \<or> \<not> fBall roles stable_id_re)"

definition context_complete :: "guardrail_request \<Rightarrow> bool" where
  "context_complete r \<longleftrightarrow> missing_context_fields r = [] \<and> \<not> has_unknown_context_values r"

datatype guardrail_decision = ALLOW | DENY | REQUIRE_APPROVAL

datatype reason_code =
    ALLOWED | CONTEXT_INCOMPLETE | CONTEXT_UNKNOWN | CHANNEL_UNKNOWN
  | NETWORK_POLICY_UNKNOWN | RESOURCE_SCOPE_UNKNOWN | TOOL_GROUP_UNKNOWN | REGISTRY_POLICY_DENIED
  | ACTIVE_SKILL_REQUIRED | ACTIVE_SKILL_UNKNOWN | TOOL_OUTSIDE_ACTIVE_SKILL | DESCRIPTOR_APPROVAL_REQUIRED
  | HIGH_RISK_TOOL_DENIED | HIGH_RISK_TOOL_APPROVAL_REQUIRED | PRIVATE_NETWORK_DENIED | SQL_CONTEXT_REQUIRED
  | SQL_PRIVATE_NETWORK_REQUIRED | SQL_ADMIN_REQUIRED | SQL_READ_ONLY_TOOL_REQUIRED | SQL_RESOURCE_SCOPE_DENIED
  | POLICY_PROVIDER_DENIED | POLICY_PROVIDER_APPROVAL_REQUIRED | POLICY_PROVIDER_FAILED

record directive =
  di_decision :: guardrail_decision
  di_reason_code :: reason_code

definition approval_reasons :: "reason_code list" where
  "approval_reasons =
     [DESCRIPTOR_APPROVAL_REQUIRED, HIGH_RISK_TOOL_APPROVAL_REQUIRED, POLICY_PROVIDER_APPROVAL_REQUIRED]"

definition GuardrailDirective :: "guardrail_decision \<Rightarrow> reason_code \<Rightarrow> directive option" where
  "GuardrailDirective d c =
     (if d = ALLOW \<and> c \<noteq> ALLOWED then None
      else if d = REQUIRE_APPROVAL \<and> c \<notin> set approval_reasons then None
      else if d = DENY \<and> (c = ALLOWED \<or> c \<in> set approval_reasons) then None
      else Some \<lparr> di_decision = d, di_reason_code = c \<rparr>)"

datatype safe_value = MStr string | MInt int | MBool bool | MNull

record guardrail_result =
  re_decision :: guardrail_decision
  re_reason_code :: reason_code
  re_policy_version :: string
  re_policy_hash :: string
  re_safe_metadata :: "(string \<times> safe_value) list"

definition SAFE_METADATA_IDENTIFIER_KEYS :: "string list" where
  "SAFE_METADATA_IDENTIFIER_KEYS =
     [''active_skill'', ''channel'', ''network_policy'', ''resource_scope'', ''tool_group'', ''tool_name'']"

definition SAFE_METADATA_BOOLEAN_KEYS :: "string list" where
  "SAFE_METADATA_BOOLEAN_KEYS =
     [''active_skill_registered'', ''active_skill_scope_allows'', ''approval_granted'', ''context_complete'']"

definition SAFE_METADATA_KEYS :: "string list" where
  "SAFE_METADATA_KEYS =
     [''active_skill'', ''active_skill_registered'', ''active_skill_scope_allows'', ''approval_granted'',
      ''channel'', ''context_complete'', ''descriptor_requires_approval'', ''network_policy'',
      ''resource_scope'', ''role_count'', ''tool_group'', ''tool_name'']"

definition safe_metadata_item :: "string \<times> safe_value \<Rightarrow> bool" where
  "safe_metadata_item kv =
     (case kv of (k, v) \<Rightarrow>
        k \<in> set SAFE_METADATA_KEYS \<and>
        (k \<in> set SAFE_METADATA_IDENTIFIER_KEYS \<longrightarrow> (case v of MStr s \<Rightarrow> stable_id_re s | _ \<Rightarrow> False)) \<and>
        (k \<in> set SAFE_METADATA_BOOLEAN_KEYS \<longrightarrow> (case v of MBool _ \<Rightarrow> True | MNull \<Rightarrow> True | _ \<Rightarrow> False)) \<and>
        (k = ''descriptor_requires_approval'' \<longrightarrow> (case v of MBool _ \<Rightarrow> True | MNull \<Rightarrow> True | _ \<Rightarrow> False)) \<and>
        (k = ''role_count'' \<longrightarrow> (case v of MInt n \<Rightarrow> 0 \<le> n \<and> n \<le> 1024 | _ \<Rightarrow> False)))"

definition ToolGuardrailResult ::
    "guardrail_decision \<Rightarrow> reason_code \<Rightarrow> string \<Rightarrow> string \<Rightarrow> (string \<times> safe_value) list \<Rightarrow> guardrail_result option" where
  "ToolGuardrailResult d c version hash metadata =
     (if GuardrailDirective d c \<noteq> None \<and> policy_version_re version \<and> sha256_re hash \<and>
         list_all safe_metadata_item metadata
      then Some \<lparr> re_decision = d, re_reason_code = c, re_policy_version = version,
                  re_policy_hash = hash, re_safe_metadata = metadata \<rparr>
      else None)"

section \<open>The policy\<close>

record skill_scope =
  ss_skill_name :: string
  ss_allowed_tools :: "string fset"
  ss_allowed_groups :: "string fset"

definition SkillToolScope :: "string \<Rightarrow> string fset \<Rightarrow> string fset \<Rightarrow> skill_scope option" where
  "SkillToolScope name tools groups =
     (if stable_id_re name \<and> fBall tools stable_id_re \<and> fBall groups stable_id_re \<and>
         \<not> (tools = {||} \<and> groups = {||})
      then Some \<lparr> ss_skill_name = name, ss_allowed_tools = tools, ss_allowed_groups = groups \<rparr>
      else None)"

definition scope_allows :: "skill_scope \<Rightarrow> string \<Rightarrow> string \<Rightarrow> bool" where
  "scope_allows s tool_name tool_group \<longleftrightarrow>
     tool_name |\<in>| ss_allowed_tools s \<or> tool_group |\<in>| ss_allowed_groups s"

definition sorted_payload :: "string fset \<Rightarrow> payload" where
  "sorted_payload s = PList (map PStr (sorted_list_of_fset s))"

definition canonical_record :: "skill_scope \<Rightarrow> payload" where
  "canonical_record s =
     PObj [(''skill_name'', PStr (ss_skill_name s)), (''allowed_tools'', sorted_payload (ss_allowed_tools s)),
           (''allowed_groups'', sorted_payload (ss_allowed_groups s))]"

record guardrail_policy =
  gp_version :: string
  gp_known_channels :: "string fset"
  gp_known_network_policies :: "string fset"
  gp_known_resource_scopes :: "string fset"
  gp_known_tool_groups :: "string fset"
  gp_skill_scopes :: "skill_scope list"
  gp_resident_tools :: "string fset"
  gp_control_tools :: "string fset"
  gp_control_groups :: "string fset"
  gp_hard_deny_groups :: "string fset"
  gp_approval_groups :: "string fset"
  gp_restricted_web_tools :: "string fset"
  gp_restricted_network_policy :: string
  gp_private_network_policy :: string
  gp_public_web_scope :: string
  gp_web_group :: string
  gp_web_skill :: string
  gp_sql_group :: string
  gp_sql_skill :: string
  gp_sql_admin_role :: string
  gp_sql_read_scope :: string
  gp_sql_read_only_tools :: "string fset"

definition scope_for :: "guardrail_policy \<Rightarrow> string \<Rightarrow> skill_scope option" where
  "scope_for p name = find (\<lambda>s. ss_skill_name s = name) (gp_skill_scopes p)"

text \<open>\<open>GuardrailPolicy.__post_init__\<close>; a scope has already passed its own constructor.\<close>

definition GuardrailPolicy :: "guardrail_policy \<Rightarrow> guardrail_policy option" where
  "GuardrailPolicy p0 =
     (let p = p0\<lparr>gp_skill_scopes := sort_key ss_skill_name (gp_skill_scopes p0)\<rparr>;
          groups_known = (\<lambda>s. s |\<subseteq>| gp_known_tool_groups p)
      in if policy_version_re (gp_version p) \<and>
            list_all (\<lambda>s. fBall s stable_id_re)
              [gp_known_channels p,
               gp_known_network_policies p,
               gp_known_resource_scopes p,
               gp_known_tool_groups p,
               gp_resident_tools p,
               gp_control_tools p,
               gp_control_groups p,
               gp_hard_deny_groups p,
               gp_approval_groups p,
               gp_restricted_web_tools p,
               gp_sql_read_only_tools p] \<and>
            list_all stable_id_re
              [gp_restricted_network_policy p,
               gp_private_network_policy p,
               gp_public_web_scope p,
               gp_web_group p,
               gp_web_skill p,
               gp_sql_group p,
               gp_sql_skill p,
               gp_sql_admin_role p,
               gp_sql_read_scope p] \<and>
            distinct (map ss_skill_name (gp_skill_scopes p)) \<and>
            gp_hard_deny_groups p |\<inter>| gp_approval_groups p = {||} \<and>
            list_all groups_known
              [gp_control_groups p, gp_hard_deny_groups p, gp_approval_groups p,
               {|gp_web_group p|}, {|gp_sql_group p|}] \<and>
            gp_restricted_network_policy p |\<in>| gp_known_network_policies p \<and>
            gp_private_network_policy p |\<in>| gp_known_network_policies p \<and>
            gp_public_web_scope p |\<in>| gp_known_resource_scopes p \<and>
            gp_sql_read_scope p |\<in>| gp_known_resource_scopes p \<and>
            (case scope_for p (gp_web_skill p) of
               None \<Rightarrow> False
             | Some s \<Rightarrow> gp_restricted_web_tools p |\<subseteq>| ss_allowed_tools s) \<and>
            (case scope_for p (gp_sql_skill p) of
               None \<Rightarrow> False
             | Some s \<Rightarrow> gp_sql_read_only_tools p |\<subseteq>| ss_allowed_tools s) \<and>
            list_all (\<lambda>s. groups_known (ss_allowed_groups s)) (gp_skill_scopes p)
         then Some p else None)"

definition policy_hash :: "(string \<Rightarrow> string) \<Rightarrow> guardrail_policy \<Rightarrow> string" where
  "policy_hash sha p =
     canonical_fingerprint sha (PObj
       [(''schema_version'', PInt 1),
        (''version'', PStr (gp_version p)),
        (''known_channels'', sorted_payload (gp_known_channels p)),
        (''known_network_policies'', sorted_payload (gp_known_network_policies p)),
        (''known_resource_scopes'', sorted_payload (gp_known_resource_scopes p)),
        (''known_tool_groups'', sorted_payload (gp_known_tool_groups p)),
        (''skill_scopes'', PList (map canonical_record (gp_skill_scopes p))),
        (''resident_tools'', sorted_payload (gp_resident_tools p)),
        (''control_tools'', sorted_payload (gp_control_tools p)),
        (''control_groups'', sorted_payload (gp_control_groups p)),
        (''hard_deny_groups'', sorted_payload (gp_hard_deny_groups p)),
        (''approval_groups'', sorted_payload (gp_approval_groups p)),
        (''restricted_web_tools'', sorted_payload (gp_restricted_web_tools p)),
        (''restricted_network_policy'', PStr (gp_restricted_network_policy p)),
        (''private_network_policy'', PStr (gp_private_network_policy p)),
        (''public_web_scope'', PStr (gp_public_web_scope p)),
        (''web_group'', PStr (gp_web_group p)),
        (''web_skill'', PStr (gp_web_skill p)),
        (''sql_group'', PStr (gp_sql_group p)),
        (''sql_skill'', PStr (gp_sql_skill p)),
        (''sql_admin_role'', PStr (gp_sql_admin_role p)),
        (''sql_read_scope'', PStr (gp_sql_read_scope p)),
        (''sql_read_only_tools'', sorted_payload (gp_sql_read_only_tools p))])"

definition default_guardrail_fields :: guardrail_policy where
  "default_guardrail_fields =
     \<lparr> gp_version = ''1.2.0'',
       gp_known_channels = fset_of_list [''api'', ''run'', ''web'', ''worker''],
       gp_known_network_policies = fset_of_list [''none'', ''restricted'', ''private-data''],
       gp_known_resource_scopes = fset_of_list [''none'', ''knowledge-read'', ''public-web'', ''private-data-read'', ''thread-read'', ''thread-write'', ''process'', ''code-execution''],
       gp_known_tool_groups = fset_of_list [''knowledge'', ''weather'', ''registry-control'', ''sql'', ''web-research'', ''shell'', ''code'', ''file-write'', ''sandbox-execution'', ''process'', ''network-private'', ''high-risk''],
       gp_skill_scopes = [skill_scope.make ''knowledge-base'' (fset_of_list [''search_knowledge_base'']) {||},
         skill_scope.make ''sql-assistant'' (fset_of_list [''sql_query'', ''sql_schema'']) {||},
         skill_scope.make ''web-research'' (fset_of_list [''web_fetch'', ''web_search'']) {||},
         skill_scope.make ''sandbox'' (fset_of_list [''sandbox_execute'']) {||},
         skill_scope.make ''file-manager'' {||} (fset_of_list [''file-write''])],
       gp_resident_tools = fset_of_list [''get_current_weather'', ''search_knowledge_base''],
       gp_control_tools = fset_of_list [''describe_skill'', ''tool_search''],
       gp_control_groups = fset_of_list [''registry-control''],
       gp_hard_deny_groups = fset_of_list [''shell'', ''code'', ''process'', ''network-private'', ''high-risk''],
       gp_approval_groups = fset_of_list [''file-write'', ''sandbox-execution''],
       gp_restricted_web_tools = fset_of_list [''web_fetch'', ''web_search''],
       gp_restricted_network_policy = ''restricted'',
       gp_private_network_policy = ''private-data'',
       gp_public_web_scope = ''public-web'',
       gp_web_group = ''web-research'',
       gp_web_skill = ''web-research'',
       gp_sql_group = ''sql'',
       gp_sql_skill = ''sql-assistant'',
       gp_sql_admin_role = ''admin'',
       gp_sql_read_scope = ''private-data-read'',
       gp_sql_read_only_tools = fset_of_list [''sql_query'', ''sql_schema''] \<rparr>"

definition DEFAULT_GUARDRAIL_POLICY :: guardrail_policy where
  "DEFAULT_GUARDRAIL_POLICY =
     (case GuardrailPolicy default_guardrail_fields of Some p \<Rightarrow> p | None \<Rightarrow> default_guardrail_fields)"

section \<open>The decision matrix\<close>

text \<open>\<open>None\<close> is an exception: a failed assertion.\<close>

definition check_sql ::
    "guardrail_policy \<Rightarrow> guardrail_request \<Rightarrow> string \<Rightarrow> string \<Rightarrow> string \<Rightarrow> string \<Rightarrow> string fset
       \<Rightarrow> directive option option" where
  "check_sql p r tool_name tool_group network_policy resource_scope roles =
     (let is_sql_group = (tool_group = gp_sql_group p);
          is_sql_tool = (tool_name |\<in>| gp_sql_read_only_tools p)
      in if \<not> is_sql_group \<and> \<not> is_sql_tool
         then (if network_policy = gp_private_network_policy p
               then Some (GuardrailDirective DENY PRIVATE_NETWORK_DENIED) else None)
         else if \<not> is_sql_group \<or> gr_active_skill r \<noteq> Some (gp_sql_skill p)
         then Some (GuardrailDirective DENY SQL_CONTEXT_REQUIRED)
         else if network_policy \<noteq> gp_private_network_policy p
         then Some (GuardrailDirective DENY SQL_PRIVATE_NETWORK_REQUIRED)
         else if gp_sql_admin_role p |\<notin>| roles then Some (GuardrailDirective DENY SQL_ADMIN_REQUIRED)
         else if \<not> is_sql_tool then Some (GuardrailDirective DENY SQL_READ_ONLY_TOOL_REQUIRED)
         else if resource_scope \<noteq> gp_sql_read_scope p
         then Some (GuardrailDirective DENY SQL_RESOURCE_SCOPE_DENIED)
         else None)"

definition decide :: "guardrail_policy \<Rightarrow> guardrail_request \<Rightarrow> directive option" where
  "decide p r =
     (if missing_context_fields r \<noteq> [] then GuardrailDirective DENY CONTEXT_INCOMPLETE
      else if has_unknown_context_values r then GuardrailDirective DENY CONTEXT_UNKNOWN
      else case (gr_tool_name r, gr_tool_group r, gr_channel r, gr_network_policy r, gr_resource_scope r,
                 gr_roles r, gr_descriptor_requires_approval r, gr_approval_granted r) of
        (Some tool_name, Some tool_group, Some channel, Some network_policy, Some resource_scope,
         Some roles, Some requires_approval, Some granted) \<Rightarrow>
          if channel |\<notin>| gp_known_channels p then GuardrailDirective DENY CHANNEL_UNKNOWN
          else if network_policy |\<notin>| gp_known_network_policies p
          then GuardrailDirective DENY NETWORK_POLICY_UNKNOWN
          else if resource_scope |\<notin>| gp_known_resource_scopes p
          then GuardrailDirective DENY RESOURCE_SCOPE_UNKNOWN
          else if tool_group |\<notin>| gp_known_tool_groups p then GuardrailDirective DENY TOOL_GROUP_UNKNOWN
          else if tool_group |\<in>| gp_hard_deny_groups p then GuardrailDirective DENY HIGH_RISK_TOOL_DENIED
          else (case check_sql p r tool_name tool_group network_policy resource_scope roles of
                  Some rule \<Rightarrow> rule
                | None \<Rightarrow>
                    if requires_approval \<and> \<not> granted
                    then GuardrailDirective REQUIRE_APPROVAL DESCRIPTOR_APPROVAL_REQUIRED
                    else if tool_group |\<in>| gp_approval_groups p
                    then (if granted then GuardrailDirective ALLOW ALLOWED
                          else GuardrailDirective REQUIRE_APPROVAL HIGH_RISK_TOOL_APPROVAL_REQUIRED)
                    else GuardrailDirective ALLOW ALLOWED)
      | _ \<Rightarrow> None)"

section \<open>Evaluation\<close>

definition guard_safe_identifier :: "string option \<Rightarrow> string" where
  "guard_safe_identifier v = (case v of None \<Rightarrow> ''unknown'' | Some s \<Rightarrow> if stable_id_re s then s else ''unknown'')"

definition opt_bool :: "bool option \<Rightarrow> safe_value" where
  "opt_bool v = (case v of None \<Rightarrow> MNull | Some b \<Rightarrow> MBool b)"

definition safe_metadata :: "guardrail_request option \<Rightarrow> (string \<times> safe_value) list" where
  "safe_metadata req =
     (case req of
        None \<Rightarrow>
          [(''active_skill'', MStr ''unknown''), (''active_skill_registered'', MNull),
           (''active_skill_scope_allows'', MNull), (''approval_granted'', MNull),
           (''channel'', MStr ''unknown''), (''context_complete'', MBool False),
           (''descriptor_requires_approval'', MNull), (''network_policy'', MStr ''unknown''),
           (''resource_scope'', MStr ''unknown''), (''role_count'', MInt 0),
           (''tool_group'', MStr ''unknown''), (''tool_name'', MStr ''unknown'')]
      | Some r \<Rightarrow>
          [(''active_skill'', MStr (if gr_active_skill r = None then ''inactive''
                                  else guard_safe_identifier (gr_active_skill r))),
           (''active_skill_registered'', opt_bool (gr_active_skill_registered r)),
           (''active_skill_scope_allows'', opt_bool (gr_active_skill_scope_allows r)),
           (''approval_granted'', opt_bool (gr_approval_granted r)),
           (''channel'', MStr (guard_safe_identifier (gr_channel r))),
           (''context_complete'', MBool (context_complete r)),
           (''descriptor_requires_approval'', opt_bool (gr_descriptor_requires_approval r)),
           (''network_policy'', MStr (guard_safe_identifier (gr_network_policy r))),
           (''resource_scope'', MStr (guard_safe_identifier (gr_resource_scope r))),
           (''role_count'', MInt (int (min (case gr_roles r of None \<Rightarrow> 0 | Some s \<Rightarrow> fcard s) 1024))),
           (''tool_group'', MStr (guard_safe_identifier (gr_tool_group r))),
           (''tool_name'', MStr (guard_safe_identifier (gr_tool_name r)))])"

text \<open>
  An injected provider builds a directive from a decision and a reason code, or raises or
  returns something else (\<open>None\<close>).
\<close>

type_synonym guardrail_provider = "guardrail_request \<Rightarrow> (guardrail_decision \<times> reason_code) option"

definition provider_decide :: "guardrail_provider \<Rightarrow> guardrail_request \<Rightarrow> directive option" where
  "provider_decide f r = (case f r of None \<Rightarrow> None | Some (d, c) \<Rightarrow> GuardrailDirective d c)"

definition resolve_directive ::
    "guardrail_policy \<Rightarrow> guardrail_provider option \<Rightarrow> guardrail_request \<Rightarrow> directive option" where
  "resolve_directive p provider r =
     (case decide p r of
        None \<Rightarrow> None
      | Some base \<Rightarrow>
          (case provider of
             None \<Rightarrow> Some base
           | Some f \<Rightarrow>
               if di_decision base = DENY then Some base
               else (case provider_decide f r of
                       None \<Rightarrow> None
                     | Some d \<Rightarrow> if di_decision base = ALLOW \<or> di_decision d = DENY then Some d
                                 else Some base)))"

definition guardrail_evaluate ::
    "(string \<Rightarrow> string) \<Rightarrow> guardrail_policy \<Rightarrow> guardrail_provider option \<Rightarrow> guardrail_request option
       \<Rightarrow> guardrail_result option" where
  "guardrail_evaluate sha p provider req =
     (let directive =
        (case req of
           None \<Rightarrow> GuardrailDirective DENY CONTEXT_INCOMPLETE
         | Some r \<Rightarrow>
             (case resolve_directive p provider r of
                None \<Rightarrow> GuardrailDirective DENY POLICY_PROVIDER_FAILED
              | Some d \<Rightarrow> Some d))
      in case directive of
           None \<Rightarrow> None
         | Some d \<Rightarrow> ToolGuardrailResult (di_decision d) (di_reason_code d) (gp_version p)
                       (policy_hash sha p) (safe_metadata req))"

section \<open>Approval grants\<close>

record approval_grant =
  ag_user_id :: string
  ag_tenant_id :: string
  ag_thread_id :: string
  ag_run_id :: string
  ag_tool_names :: "string fset"

definition tool_name_re :: "string \<Rightarrow> bool" where
  "tool_name_re = fullmatch_ident is_lower (\<lambda>c. is_lower c \<or> is_digit c \<or> c \<in> set ''_.-'') 127"

definition RunToolApprovalGrant :: "approval_grant \<Rightarrow> approval_grant option" where
  "RunToolApprovalGrant g =
     (if list_all (\<lambda>v. context_text_is_complete (Some v)) [ag_user_id g, ag_tenant_id g, ag_thread_id g, ag_run_id g] \<and>
         fBall (ag_tool_names g) tool_name_re
      then Some g else None)"

definition is_bound_to :: "approval_grant \<Rightarrow> string \<Rightarrow> string \<Rightarrow> string \<Rightarrow> string \<Rightarrow> bool" where
  "is_bound_to g user_id tenant_id thread_id run_id \<longleftrightarrow>
     ag_user_id g = user_id \<and> ag_tenant_id g = tenant_id \<and> ag_thread_id g = thread_id \<and> ag_run_id g = run_id"

definition grant_allows :: "approval_grant \<Rightarrow> string \<Rightarrow> string \<Rightarrow> string \<Rightarrow> string \<Rightarrow> string \<Rightarrow> bool" where
  "grant_allows g tool_name user_id tenant_id thread_id run_id \<longleftrightarrow>
     is_bound_to g user_id tenant_id thread_id run_id \<and> tool_name |\<in>| ag_tool_names g"

end
