(* ===== verification/Guardrail_Safety.thy ===== *)
theory Guardrail_Safety
  imports Guardrails
begin

text \<open>
  What the guardrail guarantees: it always answers, with a result its own constructor accepts;
  it allows a call only under the conditions of the policy and of every injected provider; and
  the summary of the arguments it is given does not depend on their contents.
\<close>

section \<open>Directives\<close>

lemma directive_Some:
  "GuardrailDirective d c = Some x \<Longrightarrow> di_decision x = d \<and> di_reason_code x = c"
  by (auto simp: GuardrailDirective_def split: if_splits)

lemma directive_simps [simp]:
  "GuardrailDirective ALLOW ALLOWED = Some \<lparr> di_decision = ALLOW, di_reason_code = ALLOWED \<rparr>"
  "c \<noteq> ALLOWED \<Longrightarrow> c \<notin> set approval_reasons \<Longrightarrow>
     GuardrailDirective DENY c = Some \<lparr> di_decision = DENY, di_reason_code = c \<rparr>"
  "c \<in> set approval_reasons \<Longrightarrow>
     GuardrailDirective REQUIRE_APPROVAL c = Some \<lparr> di_decision = REQUIRE_APPROVAL, di_reason_code = c \<rparr>"
  by (simp_all add: GuardrailDirective_def)

lemma in_approval_reasons [simp]:
  "c \<in> set approval_reasons \<longleftrightarrow>
     c \<in> {DESCRIPTOR_APPROVAL_REQUIRED, HIGH_RISK_TOOL_APPROVAL_REQUIRED, POLICY_PROVIDER_APPROVAL_REQUIRED}"
  by (simp add: approval_reasons_def)

lemma directive_valid: "GuardrailDirective d c = Some x \<Longrightarrow> GuardrailDirective (di_decision x) (di_reason_code x) = Some x"
  using directive_Some by metis

section \<open>Progress\<close>

lemma complete_not_None: "context_text_is_complete v \<Longrightarrow> v \<noteq> None"
  by (auto simp: context_text_is_complete_def split: option.splits)

lemma complete_fields:
  assumes "missing_context_fields r = []"
  obtains tool_name tool_group channel network_policy resource_scope roles requires granted where
    "gr_tool_name r = Some tool_name" "gr_tool_group r = Some tool_group" "gr_channel r = Some channel"
    "gr_network_policy r = Some network_policy" "gr_resource_scope r = Some resource_scope"
    "gr_roles r = Some roles" "gr_descriptor_requires_approval r = Some requires"
    "gr_approval_granted r = Some granted"
proof -
  have "context_text_is_complete (gr_tool_name r)" "context_text_is_complete (gr_tool_group r)"
    "context_text_is_complete (gr_channel r)" "context_text_is_complete (gr_network_policy r)"
    "context_text_is_complete (gr_resource_scope r)" "gr_roles r \<noteq> None"
    "gr_descriptor_requires_approval r \<noteq> None" "gr_approval_granted r \<noteq> None"
    using assms by (auto simp: missing_context_fields_def filter_empty_conv split: if_splits)
  then show thesis using that complete_not_None by (metis option.exhaust)
qed

text \<open>The rule a complete request reaches, with its fields in hand.\<close>

lemma check_sql_valid: "check_sql p r tn tg np rs roles = Some rule \<Longrightarrow> \<exists>c. rule = Some \<lparr> di_decision = DENY, di_reason_code = c \<rparr> \<and> c \<noteq> ALLOWED \<and> c \<notin> set approval_reasons"
  by (auto simp: check_sql_def Let_def split: if_splits)

lemma decide_progress: "\<exists>x. decide p r = Some x \<and> GuardrailDirective (di_decision x) (di_reason_code x) = Some x"
proof (cases "missing_context_fields r = []")
  case False
  then show ?thesis by (simp add: decide_def)
next
  case True
  show ?thesis
  proof (rule complete_fields [OF True], goal_cases)
    case (1 tn tg ch np rs roles req granted)
    show ?thesis
    proof (cases "check_sql p r tn tg np rs roles")
      case None
      then show ?thesis using True by (simp add: decide_def 1)
    next
      case (Some rule)
      then obtain c where "rule = Some \<lparr> di_decision = DENY, di_reason_code = c \<rparr>"
        "c \<noteq> ALLOWED" "c \<notin> set approval_reasons"
        using check_sql_valid by metis
      then show ?thesis using True Some by (simp add: decide_def 1)
    qed
  qed
qed

lemma resolve_valid:
  "resolve_directive p provider r = Some x \<Longrightarrow> GuardrailDirective (di_decision x) (di_reason_code x) = Some x"
  using decide_progress [of p r]
  by (auto simp: resolve_directive_def provider_decide_def dest: directive_valid
      split: option.splits if_splits prod.splits)

lemma safe_identifier_stable: "stable_id_re (guard_safe_identifier v)"
  by (auto simp: guard_safe_identifier_def stable_id_re_def is_lower_def split: option.splits)

lemma opt_bool_cases: "(case opt_bool v of MBool _ \<Rightarrow> True | MNull \<Rightarrow> True | _ \<Rightarrow> False)"
  by (simp add: opt_bool_def split: option.splits)

lemma stable_words: "stable_id_re ''unknown''" "stable_id_re ''inactive''"
  by (simp_all add: stable_id_re_def is_lower_def)

lemma safe_metadata_valid: "list_all safe_metadata_item (safe_metadata req)"
  using safe_identifier_stable stable_words opt_bool_cases
  by (cases req)
     (simp_all add: safe_metadata_def safe_metadata_item_def SAFE_METADATA_KEYS_def
       SAFE_METADATA_IDENTIFIER_KEYS_def SAFE_METADATA_BOOLEAN_KEYS_def)

lemma policy_version_valid: "GuardrailPolicy p0 = Some p \<Longrightarrow> policy_version_re (gp_version p)"
  by (auto simp: GuardrailPolicy_def Let_def split: if_splits)

text \<open>The result is built from the directive that was resolved, or from a denial.\<close>

definition final_directive :: "guardrail_policy \<Rightarrow> guardrail_provider option \<Rightarrow> guardrail_request option \<Rightarrow> directive" where
  "final_directive p provider req =
     (case req of
        None \<Rightarrow> \<lparr> di_decision = DENY, di_reason_code = CONTEXT_INCOMPLETE \<rparr>
      | Some r \<Rightarrow> (case resolve_directive p provider r of
                    None \<Rightarrow> \<lparr> di_decision = DENY, di_reason_code = POLICY_PROVIDER_FAILED \<rparr>
                  | Some d \<Rightarrow> d))"

lemma evaluate_final:
  assumes "policy_version_re (gp_version p)" and "sha256_re (policy_hash sha p)"
  shows "guardrail_evaluate sha p provider req = Some
    \<lparr> re_decision = di_decision (final_directive p provider req),
      re_reason_code = di_reason_code (final_directive p provider req),
      re_policy_version = gp_version p, re_policy_hash = policy_hash sha p,
      re_safe_metadata = safe_metadata req \<rparr>"
proof -
  define x where "x = final_directive p provider req"
  have "GuardrailDirective (di_decision x) (di_reason_code x) = Some x"
    by (auto simp: x_def final_directive_def resolve_valid split: option.splits)
  moreover have "guardrail_evaluate sha p provider req =
      ToolGuardrailResult (di_decision x) (di_reason_code x) (gp_version p) (policy_hash sha p) (safe_metadata req)"
    by (auto simp: guardrail_evaluate_def x_def final_directive_def split: option.splits)
  ultimately show ?thesis
    using assms safe_metadata_valid by (simp add: ToolGuardrailResult_def x_def)
qed

section \<open>What an allowed call satisfies\<close>

lemma decide_allow:
  assumes "decide p r = Some x" and "di_decision x = ALLOW"
  obtains tn tg ch np rs roles req granted where "missing_context_fields r = []"
    "\<not> has_unknown_context_values r"
    "gr_tool_name r = Some tn" "gr_tool_group r = Some tg" "gr_channel r = Some ch"
    "gr_network_policy r = Some np" "gr_resource_scope r = Some rs" "gr_roles r = Some roles"
    "gr_descriptor_requires_approval r = Some req" "gr_approval_granted r = Some granted"
    "ch |\<in>| gp_known_channels p" "np |\<in>| gp_known_network_policies p" "rs |\<in>| gp_known_resource_scopes p"
    "tg |\<in>| gp_known_tool_groups p" "tg |\<notin>| gp_hard_deny_groups p"
    "check_sql p r tn tg np rs roles = None" "req \<longrightarrow> granted" "tg |\<in>| gp_approval_groups p \<longrightarrow> granted"
proof -
  have m: "missing_context_fields r = []" "\<not> has_unknown_context_values r"
    using assms by (auto simp: decide_def split: if_splits)
  show thesis
  proof (rule complete_fields [OF m(1)], goal_cases)
    case (1 tn tg ch np rs roles req granted)
    have "ch |\<in>| gp_known_channels p" "np |\<in>| gp_known_network_policies p" "rs |\<in>| gp_known_resource_scopes p"
      "tg |\<in>| gp_known_tool_groups p" "tg |\<notin>| gp_hard_deny_groups p"
      and sql: "check_sql p r tn tg np rs roles = None" and "req \<longrightarrow> granted" "tg |\<in>| gp_approval_groups p \<longrightarrow> granted"
      using assms m check_sql_valid
      by (auto simp: decide_def 1 split: if_splits option.splits dest!: check_sql_valid)
    then show thesis using that [OF m 1] by blast
  qed
qed

lemma check_sql_None:
  assumes "check_sql p r tn tg np rs roles = None"
  shows "tg = gp_sql_group p \<or> tn |\<in>| gp_sql_read_only_tools p \<or> np = gp_private_network_policy p \<Longrightarrow>
    tg = gp_sql_group p \<and> tn |\<in>| gp_sql_read_only_tools p \<and> gr_active_skill r = Some (gp_sql_skill p) \<and>
    np = gp_private_network_policy p \<and> gp_sql_admin_role p |\<in>| roles \<and> rs = gp_sql_read_scope p"
  using assms by (auto simp: check_sql_def Let_def split: if_splits)

lemma resolve_allow:
  assumes "resolve_directive p provider r = Some x" and "di_decision x = ALLOW"
  shows "\<exists>b. decide p r = Some b \<and> di_decision b = ALLOW"
    and "provider = Some f \<Longrightarrow> f r = Some (ALLOW, ALLOWED)"
  using assms
  by (auto simp: resolve_directive_def provider_decide_def GuardrailDirective_def
      split: option.splits if_splits prod.splits)

section \<open>The properties of decisions\<close>

definition fx_sha :: "string \<Rightarrow> string" where
  "fx_sha s = replicate 64 CHR ''0''"

definition fx_summary :: tool_args_summary where
  "fx_summary = \<lparr> ta_complete = True, ta_argument_count = 0, ta_scalar_count = 0, ta_collection_count = 1,
     ta_secret_field_count = 0, ta_body_field_count = 0, ta_unknown_value_count = 0, ta_max_depth = 0,
     ta_shape_hash = fx_sha [] \<rparr>"

definition fx_sql_request :: guardrail_request where
  "fx_sql_request =
     \<lparr> gr_user_id = Some ''u'', gr_roles = Some {|''admin''|}, gr_tenant_id = Some ''t'', gr_thread_id = Some ''h'',
       gr_run_id = Some ''r'', gr_tool_name = Some ''sql_query'', gr_tool_group = Some ''sql'',
       gr_tool_args_summary = Some fx_summary, gr_active_skill = Some ''sql-assistant'',
       gr_active_skill_registered = Some True, gr_active_skill_scope_allows = Some True,
       gr_channel = Some ''web'', gr_network_policy = Some ''private-data'',
       gr_resource_scope = Some ''private-data-read'', gr_descriptor_requires_approval = Some False,
       gr_approval_granted = Some False \<rparr>"

lemma fx_sha_valid: "\<forall>s. sha256_re (fx_sha s)"
  by (simp add: fx_sha_def sha256_re_def is_digit_def list_all_iff)

lemma default_policy_valid: "GuardrailPolicy default_guardrail_fields = Some DEFAULT_GUARDRAIL_POLICY"
proof -
  have "GuardrailPolicy default_guardrail_fields \<noteq> None" by code_simp
  then show ?thesis by (auto simp: DEFAULT_GUARDRAIL_POLICY_def)
qed

lemma fx_sql_decision:
  "di_decision (final_directive DEFAULT_GUARDRAIL_POLICY (Some (\<lambda>r. Some (ALLOW, ALLOWED))) (Some fx_sql_request)) = ALLOW"
  by code_simp

text \<open>
  C26. The guardrail always answers. For every policy its constructor accepts, every injected
  provider (which may raise or answer with a directive that is not valid) and every request,
  complete or not, evaluation returns a result, and the result is one that its own constructor
  accepts: the reason code fits the decision, and the metadata holds only the known keys with
  identifiers, flags and a bounded count, never a raw value of the request.
\<close>

theorem guardrail_evaluate_typed:
  assumes "GuardrailPolicy p0 = Some p" and "\<forall>s. sha256_re (sha s)"
  shows "\<exists>x. guardrail_evaluate sha p provider req = Some x \<and>
    ToolGuardrailResult (re_decision x) (re_reason_code x) (re_policy_version x) (re_policy_hash x)
      (re_safe_metadata x) = Some x \<and>
    (\<forall>(k, v) \<in> set (re_safe_metadata x). \<forall>s. v = MStr s \<longrightarrow> stable_id_re s)"
proof -
  let ?x = "\<lparr> re_decision = di_decision (final_directive p provider req),
      re_reason_code = di_reason_code (final_directive p provider req),
      re_policy_version = gp_version p, re_policy_hash = policy_hash sha p,
      re_safe_metadata = safe_metadata req \<rparr>"
  have h: "sha256_re (policy_hash sha p)"
    using assms(2) by (simp add: policy_hash_def canonical_fingerprint_def)
  note ev = evaluate_final [OF policy_version_valid [OF assms(1)] h, of provider req]
  have "GuardrailDirective (di_decision (final_directive p provider req))
      (di_reason_code (final_directive p provider req)) \<noteq> None"
    by (auto simp: final_directive_def resolve_valid split: option.splits)
  then have "ToolGuardrailResult (re_decision ?x) (re_reason_code ?x) (re_policy_version ?x)
      (re_policy_hash ?x) (re_safe_metadata ?x) = Some ?x"
    using h policy_version_valid [OF assms(1)] safe_metadata_valid by (simp add: ToolGuardrailResult_def)
  moreover have "stable_id_re s" if "(k, MStr s) \<in> set (safe_metadata req)" for k s
    using that safe_identifier_stable stable_words
    by (auto simp: safe_metadata_def opt_bool_def split: option.splits if_splits)
  ultimately show ?thesis using ev by auto
qed

theorem guardrail_evaluate_typed_witness:
  "\<exists>x. guardrail_evaluate fx_sha DEFAULT_GUARDRAIL_POLICY (Some (\<lambda>r. Some (ALLOW, CONTEXT_UNKNOWN)))
     (Some fx_sql_request) = Some x"
  using guardrail_evaluate_typed [OF default_policy_valid fx_sha_valid] by blast

text \<open>
  C25. A call is allowed only when its whole context is known: channel, network policy, resource
  scope and tool group are those of the policy, the group is not one that is always denied, an
  approval is present whenever the tool or its group asks for one, and an injected provider, if
  there is one, allows it too. Private data is reached in one way only: by a read-only SQL tool
  of the SQL group, under the SQL skill, in the read scope, by an administrator.
\<close>

theorem guardrail_allow_sound:
  assumes "guardrail_evaluate sha p provider req = Some x" and "re_decision x = ALLOW"
  shows "\<exists>r tn tg ch np rs roles. req = Some r \<and> context_complete r \<and>
    gr_tool_name r = Some tn \<and> gr_tool_group r = Some tg \<and> gr_channel r = Some ch \<and>
    gr_network_policy r = Some np \<and> gr_resource_scope r = Some rs \<and> gr_roles r = Some roles \<and>
    ch |\<in>| gp_known_channels p \<and> np |\<in>| gp_known_network_policies p \<and> rs |\<in>| gp_known_resource_scopes p \<and>
    tg |\<in>| gp_known_tool_groups p \<and> tg |\<notin>| gp_hard_deny_groups p \<and>
    (gr_descriptor_requires_approval r = Some True \<or> tg |\<in>| gp_approval_groups p \<longrightarrow>
       gr_approval_granted r = Some True) \<and>
    (\<forall>f. provider = Some f \<longrightarrow> f r = Some (ALLOW, ALLOWED)) \<and>
    (np = gp_private_network_policy p \<or> tg = gp_sql_group p \<or> tn |\<in>| gp_sql_read_only_tools p \<longrightarrow>
       tg = gp_sql_group p \<and> tn |\<in>| gp_sql_read_only_tools p \<and> gr_active_skill r = Some (gp_sql_skill p) \<and>
       np = gp_private_network_policy p \<and> gp_sql_admin_role p |\<in>| roles \<and> rs = gp_sql_read_scope p)"
proof -
  obtain r d where r: "req = Some r" "resolve_directive p provider r = Some d" "di_decision d = ALLOW"
    using assms
    by (auto simp: guardrail_evaluate_def ToolGuardrailResult_def Let_def split: option.splits if_splits)
  note al = resolve_allow [OF r(2,3)]
  obtain b where "decide p r = Some b" "di_decision b = ALLOW" using al(1) by blast
  then show ?thesis
  proof (rule decide_allow, goal_cases)
    case (1 tn tg ch np rs roles need granted)
    have "context_complete r" using 1(1,2) by (simp add: context_complete_def)
    moreover have "gr_descriptor_requires_approval r = Some True \<or> tg |\<in>| gp_approval_groups p \<longrightarrow>
        gr_approval_granted r = Some True"
      using 1(9,10,17,18) by auto
    moreover have "\<forall>f. provider = Some f \<longrightarrow> f r = Some (ALLOW, ALLOWED)" using al(2) by blast
    moreover have "np = gp_private_network_policy p \<or> tg = gp_sql_group p \<or> tn |\<in>| gp_sql_read_only_tools p \<longrightarrow>
       tg = gp_sql_group p \<and> tn |\<in>| gp_sql_read_only_tools p \<and> gr_active_skill r = Some (gp_sql_skill p) \<and>
       np = gp_private_network_policy p \<and> gp_sql_admin_role p |\<in>| roles \<and> rs = gp_sql_read_scope p"
      using check_sql_None [OF 1(16)] by blast
    ultimately show ?thesis using r(1) 1(3-8,11-15) by (intro exI conjI)
  qed
qed

theorem guardrail_allow_sound_witness:
  "''admin'' |\<in>| the (gr_roles fx_sql_request) \<and> context_complete fx_sql_request"
proof -
  have h: "sha256_re (policy_hash fx_sha DEFAULT_GUARDRAIL_POLICY)"
    using fx_sha_valid by (simp add: policy_hash_def canonical_fingerprint_def)
  have pol: "gp_sql_group DEFAULT_GUARDRAIL_POLICY = ''sql''" "gp_sql_admin_role DEFAULT_GUARDRAIL_POLICY = ''admin''"
    by code_simp+
  note ev = evaluate_final [OF policy_version_valid [OF default_policy_valid] h,
      of "Some (\<lambda>r. Some (ALLOW, ALLOWED))" "Some fx_sql_request"]
  from guardrail_allow_sound [OF ev] show ?thesis
    using fx_sql_decision pol by (auto simp: fx_sql_request_def)
qed

section \<open>Summaries of arguments\<close>

text \<open>What a summary may depend on: the kinds of values, their nesting and the classes of keys.\<close>

fun erase :: "pyvalue \<Rightarrow> pyvalue" where
  "erase (VBool b) = VBool False"
| "erase (VInt i) = VInt 0"
| "erase (VFloat (Some q)) = VInt 0"
| "erase (VStr s) = VStr []"
| "erase (VBytes s) = VBytes []"
| "erase v = v"

fun outline :: "(string option \<Rightarrow> key_class) \<Rightarrow> pyobj \<Rightarrow> (key_class \<times> pyvalue) list + pyvalue list" where
  "outline cls (OMap es) = Inl (map (\<lambda>(k, v). (cls k, erase v)) es)"
| "outline cls (OSeq vs) = Inr (map erase vs)"

definition kind :: "pyvalue \<Rightarrow> shape \<times> (counters \<Rightarrow> counters)" where
  "kind v =
     (case v of
        VNone \<Rightarrow> (Atom ''null'', count_scalar)
      | VBool b \<Rightarrow> (Atom ''boolean'', count_scalar)
      | VInt i \<Rightarrow> (Atom ''number'', count_scalar)
      | VFloat f \<Rightarrow> if f = None then (Atom ''invalid-number'', count_unknown \<circ> count_scalar)
                    else (Atom ''number'', count_scalar)
      | VStr s \<Rightarrow> (Atom ''string'', count_scalar)
      | VBytes s \<Rightarrow> (Atom ''binary'', count_scalar)
      | VRef a \<Rightarrow> (Atom ''cycle'', count_unknown)
      | VOther \<Rightarrow> (Atom ''unknown'', count_unknown))"

lemma kind_erase: "kind (erase v) = kind v"
  by (cases v rule: erase.cases) (simp_all add: kind_def)

lemma erase_VRef [simp]: "erase v = VRef a \<longleftrightarrow> v = VRef a"
  by (cases v rule: erase.cases) simp_all

text \<open>One step of \<open>visit\<close>: a limit, a leaf, or a collection that is not being visited.\<close>

definition in_limits :: "nat \<Rightarrow> counters \<Rightarrow> bool" where
  "in_limits depth c \<longleftrightarrow> co_nodes (count_node depth c) \<le> MAX_ARGUMENT_NODES \<and> depth \<le> MAX_ARGUMENT_DEPTH"

definition opened_at :: "nat \<Rightarrow> counters \<Rightarrow> counters" where
  "opened_at depth c = (count_node depth c)\<lparr>co_collection := co_collection (count_node depth c) + 1\<rparr>"

lemma visit_limit: "\<not> in_limits depth c \<Longrightarrow>
  visit cls h active depth v c = (Atom ''limit-exceeded'', count_unknown (count_node depth c))"
  by (auto simp: visit.simps [of cls h active depth v c] in_limits_def Let_def)

lemma visit_leaf: "in_limits depth c \<Longrightarrow> (\<And>a. v = VRef a \<Longrightarrow> a \<in> set active) \<Longrightarrow>
  visit cls h active depth v c = (fst (kind v), snd (kind v) (count_node depth c))"
  by (subst visit.simps) (cases v; auto simp: in_limits_def Let_def kind_def)

lemma visit_ref: "in_limits depth c \<Longrightarrow> a \<notin> set active \<Longrightarrow>
  visit cls h active depth (VRef a) c =
    (case h a of
       OMap es \<Rightarrow> (case visit_entries cls h (a # active) (depth + 1) es (opened_at depth c) of
                     (out, c2) \<Rightarrow> (ShObject (sort_key repr_entry out), c2))
     | OSeq xs \<Rightarrow> (case visit_items cls h (a # active) (depth + 1) xs (opened_at depth c) of
                     (out, c2) \<Rightarrow> (ShArray out, c2)))"
  unfolding opened_at_def by (subst visit.simps) (cases "h a"; simp add: in_limits_def Let_def)

lemma visit_cases:
  obtains (limit) "\<not> in_limits depth c"
    | (leaf) "in_limits depth c" "\<And>a. v = VRef a \<Longrightarrow> a \<in> set active"
    | (ref) a where "in_limits depth c" "v = VRef a" "a \<notin> set active"
  by (cases v) auto

lemma visit_entries_same:
  assumes "\<And>v v' c. erase v = erase v' \<Longrightarrow> visit cls h act d v c = visit cls h' act d v' c"
    and "map (\<lambda>(k, v). (cls k, erase v)) es = map (\<lambda>(k, v). (cls k, erase v)) es'"
  shows "visit_entries cls h act d es c = visit_entries cls h' act d es' c"
  using assms(2)
proof (induction es arbitrary: es' c)
  case (Cons e es)
  obtain k v k' v' fs where e: "e = (k, v)" "es' = (k', v') # fs" "cls k = cls k'" "erase v = erase v'"
    "map (\<lambda>(k, v). (cls k, erase v)) es = map (\<lambda>(k, v). (cls k, erase v)) fs"
    using Cons.prems by (cases e; cases es') auto
  show ?case using Cons.IH [OF e(5)] by (simp add: e(1-3) assms(1) [OF e(4)] split: prod.splits)
qed simp

lemma visit_items_same:
  assumes "\<And>v v' c. erase v = erase v' \<Longrightarrow> visit cls h act d v c = visit cls h' act d v' c"
    and "map erase vs = map erase vs'"
  shows "visit_items cls h act d vs c = visit_items cls h' act d vs' c"
  using assms(2)
proof (induction vs arbitrary: vs' c)
  case (Cons v vs)
  obtain v' ws where w: "vs' = v' # ws" "erase v = erase v'" "map erase vs = map erase ws"
    using Cons.prems by (cases vs') auto
  show ?case using Cons.IH [OF w(3)] by (simp add: w(1) assms(1) [OF w(2)] split: prod.splits)
qed simp

lemma visit_same:
  assumes same: "\<And>a. outline cls (h a) = outline cls (h' a)" and "erase v = erase v'"
  shows "visit cls h act depth v c = visit cls h' act depth v' c"
  using assms(2)
proof (induction "17 - depth" arbitrary: depth act v v' c)
  case 0
  then have "\<not> in_limits depth c" by (simp add: in_limits_def MAX_ARGUMENT_DEPTH_def)
  then show ?case by (simp add: visit_limit)
next
  case (Suc n)
  have IH: "visit cls h ac (depth + 1) v c = visit cls h' ac (depth + 1) v' c" if "erase v = erase v'" for v v' c ac
    using Suc.hyps that by simp
  show ?case
  proof (cases rule: visit_cases [where depth = depth and c = c and v = v and active = act])
    case limit
    then show ?thesis by (simp add: visit_limit)
  next
    case leaf
    have "v' = VRef a \<Longrightarrow> a \<in> set act" for a using leaf(2) Suc.prems by (metis erase_VRef)
    moreover have "kind v = kind v'" using Suc.prems kind_erase by metis
    ultimately show ?thesis using leaf by (simp add: visit_leaf)
  next
    case (ref a)
    have v': "v' = VRef a" using Suc.prems ref(2) by (metis erase_VRef)
    show ?thesis
    proof (cases "h a")
      case (OMap es)
      then obtain es' where es': "h' a = OMap es'"
        "map (\<lambda>(k, v). (cls k, erase v)) es = map (\<lambda>(k, v). (cls k, erase v)) es'"
        using same [of a] by (cases "h' a") auto
      have "visit_entries cls h (a # act) (depth + 1) es (opened_at depth c) =
          visit_entries cls h' (a # act) (depth + 1) es' (opened_at depth c)"
        by (rule visit_entries_same [OF IH es'(2)])
      then show ?thesis using ref v' OMap es'(1) by (simp add: visit_ref)
    next
      case (OSeq vs)
      then obtain vs' where vs': "h' a = OSeq vs'" "map erase vs = map erase vs'"
        using same [of a] by (cases "h' a") auto
      have "visit_items cls h (a # act) (depth + 1) vs (opened_at depth c) =
          visit_items cls h' (a # act) (depth + 1) vs' (opened_at depth c)"
        by (rule visit_items_same [OF IH vs'(2)])
      then show ?thesis using ref v' OSeq vs'(1) by (simp add: visit_ref)
    qed
  qed
qed

text \<open>Counters: the call is complete exactly when nothing unknown was counted; depth is bounded.\<close>

definition counters_ok :: "counters \<Rightarrow> bool" where
  "counters_ok c \<longleftrightarrow> (co_complete c \<longleftrightarrow> co_unknown c = 0) \<and> co_max_depth c \<le> 17"

lemma counters_ok_simps [simp]:
  "counters_ok c \<Longrightarrow> counters_ok (count_unknown c)" "counters_ok c \<Longrightarrow> counters_ok (count_scalar c)"
  "counters_ok c \<Longrightarrow> counters_ok (count_key k c)" "counters_ok c \<Longrightarrow> depth \<le> 17 \<Longrightarrow> counters_ok (count_node depth c)"
  "counters_ok c \<Longrightarrow> depth \<le> 17 \<Longrightarrow> counters_ok (opened_at depth c)"
  by (cases k; simp add: counters_ok_def count_unknown_def count_scalar_def count_node_def opened_at_def)+

lemma kind_ok: "counters_ok c \<Longrightarrow> counters_ok (snd (kind v) c)"
  by (cases v) (simp_all add: kind_def)

lemma visit_counters:
  "depth \<le> 17 \<Longrightarrow> counters_ok c \<Longrightarrow> counters_ok (snd (visit cls h act depth v c))"
proof (induction "17 - depth" arbitrary: depth act v c)
  case 0
  then have "\<not> in_limits depth c" by (simp add: in_limits_def MAX_ARGUMENT_DEPTH_def)
  then show ?case using 0 by (simp add: visit_limit)
next
  case (Suc n)
  have IH: "counters_ok c \<Longrightarrow> counters_ok (snd (visit cls h ac (Suc depth) v c))" for v c ac
    using Suc.hyps by simp
  have es: "counters_ok c \<Longrightarrow> counters_ok (snd (visit_entries cls h ac (Suc depth) es c))" for es ac c
  proof (induction es arbitrary: c)
    case (Cons e es)
    obtain k v where e: "e = (k, v)" by (cases e)
    obtain x c1 where x: "visit cls h ac (Suc depth) v (count_key (cls k) c) = (x, c1)" by (meson surj_pair)
    have "counters_ok c1" using IH [of "count_key (cls k) c" ac v] Cons.prems x by simp
    then show ?case using Cons.IH [of c1] by (auto simp: e x split: prod.splits)
  qed simp
  have vs: "counters_ok c \<Longrightarrow> counters_ok (snd (visit_items cls h ac (Suc depth) vs c))" for vs ac c
  proof (induction vs arbitrary: c)
    case (Cons v vs)
    obtain x c1 where x: "visit cls h ac (Suc depth) v c = (x, c1)" by (meson surj_pair)
    have "counters_ok c1" using IH [of c ac v] Cons.prems x by simp
    then show ?case using Cons.IH [of c1] by (auto simp: x split: prod.splits)
  qed simp
  show ?case
  proof (cases rule: visit_cases [where depth = depth and c = c and v = v and active = act])
    case limit
    then show ?thesis using Suc.prems by (simp add: visit_limit)
  next
    case leaf
    then show ?thesis using Suc.prems by (simp add: visit_leaf kind_ok)
  next
    case (ref a)
    then show ?thesis
      using es vs Suc.prems by (simp add: visit_ref split: pyobj.splits prod.splits) (metis counters_ok_simps(5) snd_conv)
  qed
qed

definition fx_args :: "string \<Rightarrow> int \<Rightarrow> heap" where
  "fx_args s n a = (if a = 0 then OMap [(Some ''sql'', VStr s), (Some ''args'', VRef 1)]
                   else OSeq [VInt n, VRef 0])"

text \<open>
  C27. The summary of the arguments of a call reveals nothing of their contents: two argument
  objects, possibly shared or cyclic, whose values have the same kinds and nesting and whose
  keys fall in the same classes have the same summary, fingerprint included. A summary is
  marked complete exactly when no unknown value, cycle or exceeded limit was counted, and the
  traversal never goes deeper than one level below the limit.
\<close>

theorem args_summary_hides_values:
  assumes "\<forall>a. outline (key_class iter) (h a) = outline (key_class iter) (h' a)"
  shows "from_mapping sha iter h v = from_mapping sha iter h' v \<and>
    (\<forall>s. from_mapping sha iter h v = Some s \<longrightarrow>
       (ta_complete s \<longleftrightarrow> ta_unknown_value_count s = 0) \<and> ta_max_depth s \<le> MAX_ARGUMENT_DEPTH + 1)"
proof -
  have visit: "visit (key_class iter) h [] 0 v counters_init = visit (key_class iter) h' [] 0 v counters_init"
    using assms by (intro visit_same) auto
  have "from_mapping sha iter h v = from_mapping sha iter h' v"
  proof (cases v)
    case (VRef a)
    show ?thesis
    proof (cases "h a")
      case (OMap es)
      then obtain es' where es': "h' a = OMap es'"
        "map (\<lambda>(k, v). (key_class iter k, erase v)) es = map (\<lambda>(k, v). (key_class iter k, erase v)) es'"
        using assms [rule_format, of a] by (cases "h' a") auto
      have "length es = length es'" using es'(2) by (metis length_map)
      then show ?thesis using visit by (simp add: from_mapping_def VRef OMap es'(1))
    next
      case (OSeq vs)
      then obtain vs' where "h' a = OSeq vs'" using assms [rule_format, of a] by (cases "h' a") auto
      then show ?thesis by (simp add: from_mapping_def VRef OSeq)
    qed
  qed (simp_all add: from_mapping_def)
  moreover have "counters_ok (snd (visit (key_class iter) h [] 0 v counters_init))"
    by (rule visit_counters) (simp_all add: counters_ok_def counters_init_def)
  then have "(ta_complete s \<longleftrightarrow> ta_unknown_value_count s = 0) \<and> ta_max_depth s \<le> MAX_ARGUMENT_DEPTH + 1"
    if "from_mapping sha iter h v = Some s" for s
    using that
    by (auto simp: from_mapping_def unavailable_def ToolArgsSummary_def counters_ok_def MAX_ARGUMENT_DEPTH_def
        split: pyvalue.splits pyobj.splits prod.splits if_splits)
  ultimately show ?thesis by blast
qed

theorem args_summary_hides_values_witness:
  "from_mapping fx_sha sorted_list_of_fset (fx_args ''select 1'' 7) (VRef 0) =
     from_mapping fx_sha sorted_list_of_fset (fx_args ''drop table t'' 8) (VRef 0)"
proof -
  have "\<forall>a. outline (key_class sorted_list_of_fset) (fx_args ''select 1'' 7 a) =
      outline (key_class sorted_list_of_fset) (fx_args ''drop table t'' 8 a)"
    by (simp add: fx_args_def)
  from args_summary_hides_values [OF this] show ?thesis by blast
qed

end
