(* ===== verification/Providers.thy ===== *)
theory Providers
  imports Rate_Limits
begin

text \<open>
  Failures of external services: the codes, contexts, policies, errors and the classification of
  \<^verbatim>\<open>src/backend/providers/core.py\<close>; the executor is in Provider_Executor. Seconds are
  rationals, so float arithmetic is exact here except that a power outside the range of a double
  overflows as in the source. An exception is an object of a heap with the attributes that the
  classification reads; a float attribute is finite. \<open>py_lib\<close> holds what is used of the parser of
  float literals, of the parser of HTTP dates (with the current time subtracted) and of \<open>str()\<close>.
\<close>

section \<open>Codes\<close>

datatype provider_code =
    P_EMBEDDING_UNAVAILABLE
  | P_VECTOR_STORE_UNAVAILABLE
  | P_RERANK_TIMEOUT
  | P_RERANK_RATE_LIMITED
  | P_RERANK_UNAVAILABLE
  | P_RERANK_INVALID_RESPONSE
  | P_RERANK_CIRCUIT_OPEN
  | P_MODEL_TIMEOUT
  | P_MODEL_RATE_LIMITED
  | P_MODEL_UNAVAILABLE
  | P_TOOL_TIMEOUT
  | P_TOOL_UNAVAILABLE
  | P_PROVIDER_AUTHENTICATION_FAILED
  | P_PROVIDER_REQUEST_INVALID
  | P_PROVIDER_TIMEOUT
  | P_POLICY_DENIED

fun provider_code_value :: "provider_code \<Rightarrow> string" where
  "provider_code_value P_EMBEDDING_UNAVAILABLE = ''EMBEDDING_UNAVAILABLE''"
| "provider_code_value P_VECTOR_STORE_UNAVAILABLE = ''VECTOR_STORE_UNAVAILABLE''"
| "provider_code_value P_RERANK_TIMEOUT = ''RERANK_TIMEOUT''"
| "provider_code_value P_RERANK_RATE_LIMITED = ''RERANK_RATE_LIMITED''"
| "provider_code_value P_RERANK_UNAVAILABLE = ''RERANK_UNAVAILABLE''"
| "provider_code_value P_RERANK_INVALID_RESPONSE = ''RERANK_INVALID_RESPONSE''"
| "provider_code_value P_RERANK_CIRCUIT_OPEN = ''RERANK_CIRCUIT_OPEN''"
| "provider_code_value P_MODEL_TIMEOUT = ''MODEL_TIMEOUT''"
| "provider_code_value P_MODEL_RATE_LIMITED = ''MODEL_RATE_LIMITED''"
| "provider_code_value P_MODEL_UNAVAILABLE = ''MODEL_UNAVAILABLE''"
| "provider_code_value P_TOOL_TIMEOUT = ''TOOL_TIMEOUT''"
| "provider_code_value P_TOOL_UNAVAILABLE = ''TOOL_UNAVAILABLE''"
| "provider_code_value P_PROVIDER_AUTHENTICATION_FAILED = ''PROVIDER_AUTHENTICATION_FAILED''"
| "provider_code_value P_PROVIDER_REQUEST_INVALID = ''PROVIDER_REQUEST_INVALID''"
| "provider_code_value P_PROVIDER_TIMEOUT = ''PROVIDER_TIMEOUT''"
| "provider_code_value P_POLICY_DENIED = ''POLICY_DENIED''"

datatype provider_operation = EMBEDDING | VECTOR_SEARCH | RERANK | MODEL | TOOL

fun operation_value :: "provider_operation \<Rightarrow> string" where
  "operation_value EMBEDDING = ''embedding''"
| "operation_value VECTOR_SEARCH = ''vector_search''"
| "operation_value RERANK = ''rerank''"
| "operation_value MODEL = ''model''"
| "operation_value TOOL = ''tool''"

record provider_code_spec =
  cs_message :: string
  cs_status_code :: int
  cs_retryable :: bool

fun code_spec :: "provider_code \<Rightarrow> provider_code_spec" where
  "code_spec P_EMBEDDING_UNAVAILABLE =
     \<lparr> cs_message = utf8 [229, 181, 140, 229, 133, 165, 230, 156, 141, 229, 138, 161, 230, 154, 130, 230, 151,
       182, 228, 184, 141, 229, 143, 175, 231, 148, 168, 239, 188, 140, 232, 175, 183, 231, 168,
       141, 229, 144, 142, 233, 135, 141, 232, 175, 149],
       cs_status_code = 503, cs_retryable = True \<rparr>"
| "code_spec P_VECTOR_STORE_UNAVAILABLE =
     \<lparr> cs_message = utf8 [229, 144, 145, 233, 135, 143, 230, 163, 128, 231, 180, 162, 230, 156, 141, 229, 138,
       161, 230, 154, 130, 230, 151, 182, 228, 184, 141, 229, 143, 175, 231, 148, 168, 239, 188,
       140, 232, 175, 183, 231, 168, 141, 229, 144, 142, 233, 135, 141, 232, 175, 149],
       cs_status_code = 503, cs_retryable = True \<rparr>"
| "code_spec P_RERANK_TIMEOUT =
     \<lparr> cs_message = utf8 [231, 178, 190, 230, 142, 146, 230, 156, 141, 229, 138, 161, 229, 147, 141, 229, 186,
       148, 232, 182, 133, 230, 151, 182, 239, 188, 140, 232, 175, 183, 231, 168, 141, 229, 144,
       142, 233, 135, 141, 232, 175, 149],
       cs_status_code = 504, cs_retryable = True \<rparr>"
| "code_spec P_RERANK_RATE_LIMITED =
     \<lparr> cs_message = utf8 [231, 178, 190, 230, 142, 146, 230, 156, 141, 229, 138, 161, 229, 189, 147, 229, 137,
       141, 231, 185, 129, 229, 191, 153, 239, 188, 140, 232, 175, 183, 231, 168, 141, 229, 144,
       142, 233, 135, 141, 232, 175, 149],
       cs_status_code = 429, cs_retryable = True \<rparr>"
| "code_spec P_RERANK_UNAVAILABLE =
     \<lparr> cs_message = utf8 [231, 178, 190, 230, 142, 146, 230, 156, 141, 229, 138, 161, 230, 154, 130, 230, 151,
       182, 228, 184, 141, 229, 143, 175, 231, 148, 168, 239, 188, 140, 232, 175, 183, 231, 168,
       141, 229, 144, 142, 233, 135, 141, 232, 175, 149],
       cs_status_code = 503, cs_retryable = True \<rparr>"
| "code_spec P_RERANK_INVALID_RESPONSE =
     \<lparr> cs_message = utf8 [231, 178, 190, 230, 142, 146, 230, 156, 141, 229, 138, 161, 232, 191, 148, 229, 155,
       158, 228, 186, 134, 230, 151, 160, 230, 149, 136, 231, 187, 147, 230, 158, 156, 239, 188,
       140, 232, 175, 183, 232, 129, 148, 231, 179, 187, 231, 174, 161, 231, 144, 134, 229, 145,
       152],
       cs_status_code = 502, cs_retryable = False \<rparr>"
| "code_spec P_RERANK_CIRCUIT_OPEN =
     \<lparr> cs_message = utf8 [231, 178, 190, 230, 142, 146, 230, 156, 141, 229, 138, 161, 230, 154, 130, 230, 151,
       182, 228, 184, 141, 229, 143, 175, 231, 148, 168, 239, 188, 140, 229, 183, 178, 229, 144,
       175, 231, 148, 168, 229, 143, 172, 229, 155, 158, 230, 142, 146, 229, 186, 143, 233, 153,
       141, 231, 186, 167],
       cs_status_code = 503, cs_retryable = True \<rparr>"
| "code_spec P_MODEL_TIMEOUT =
     \<lparr> cs_message = utf8 [230, 168, 161, 229, 158, 139, 230, 156, 141, 229, 138, 161, 229, 147, 141, 229, 186,
       148, 232, 182, 133, 230, 151, 182, 239, 188, 140, 232, 175, 183, 231, 168, 141, 229, 144,
       142, 233, 135, 141, 232, 175, 149],
       cs_status_code = 504, cs_retryable = True \<rparr>"
| "code_spec P_MODEL_RATE_LIMITED =
     \<lparr> cs_message = utf8 [228, 184, 138, 230, 184, 184, 230, 168, 161, 229, 158, 139, 230, 156, 141, 229, 138,
       161, 229, 189, 147, 229, 137, 141, 231, 185, 129, 229, 191, 153, 239, 188, 140, 232, 175,
       183, 231, 168, 141, 229, 144, 142, 233, 135, 141, 232, 175, 149],
       cs_status_code = 429, cs_retryable = True \<rparr>"
| "code_spec P_MODEL_UNAVAILABLE =
     \<lparr> cs_message = utf8 [230, 168, 161, 229, 158, 139, 230, 156, 141, 229, 138, 161, 230, 154, 130, 230, 151,
       182, 228, 184, 141, 229, 143, 175, 231, 148, 168, 239, 188, 140, 232, 175, 183, 231, 168,
       141, 229, 144, 142, 233, 135, 141, 232, 175, 149],
       cs_status_code = 503, cs_retryable = True \<rparr>"
| "code_spec P_TOOL_TIMEOUT =
     \<lparr> cs_message = utf8 [229, 183, 165, 229, 133, 183, 230, 137, 167, 232, 161, 140, 232, 182, 133, 230, 151,
       182, 239, 188, 140, 232, 175, 183, 231, 168, 141, 229, 144, 142, 233, 135, 141, 232, 175,
       149],
       cs_status_code = 504, cs_retryable = True \<rparr>"
| "code_spec P_TOOL_UNAVAILABLE =
     \<lparr> cs_message = utf8 [229, 183, 165, 229, 133, 183, 230, 156, 141, 229, 138, 161, 230, 154, 130, 230, 151,
       182, 228, 184, 141, 229, 143, 175, 231, 148, 168, 239, 188, 140, 232, 175, 183, 231, 168,
       141, 229, 144, 142, 233, 135, 141, 232, 175, 149],
       cs_status_code = 503, cs_retryable = True \<rparr>"
| "code_spec P_PROVIDER_AUTHENTICATION_FAILED =
     \<lparr> cs_message = utf8 [228, 184, 138, 230, 184, 184, 230, 156, 141, 229, 138, 161, 233, 133, 141, 231, 189,
       174, 228, 184, 141, 229, 143, 175, 231, 148, 168, 239, 188, 140, 232, 175, 183, 232, 129,
       148, 231, 179, 187, 231, 174, 161, 231, 144, 134, 229, 145, 152],
       cs_status_code = 503, cs_retryable = False \<rparr>"
| "code_spec P_PROVIDER_REQUEST_INVALID =
     \<lparr> cs_message = utf8 [228, 184, 138, 230, 184, 184, 230, 156, 141, 229, 138, 161, 230, 139, 146, 231, 187,
       157, 228, 186, 134, 229, 189, 147, 229, 137, 141, 232, 175, 183, 230, 177, 130, 239, 188,
       140, 232, 175, 183, 232, 129, 148, 231, 179, 187, 231, 174, 161, 231, 144, 134, 229, 145,
       152],
       cs_status_code = 502, cs_retryable = False \<rparr>"
| "code_spec P_PROVIDER_TIMEOUT =
     \<lparr> cs_message = utf8 [232, 191, 144, 232, 161, 140, 230, 136, 170, 230, 173, 162, 230, 151, 182, 233, 151,
       180, 229, 183, 178, 229, 136, 176, 239, 188, 140, 229, 183, 178, 229, 129, 156, 230, 173,
       162, 231, 173, 137, 229, 190, 133, 228, 184, 138, 230, 184, 184, 230, 156, 141, 229, 138,
       161],
       cs_status_code = 504, cs_retryable = False \<rparr>"
| "code_spec P_POLICY_DENIED =
     \<lparr> cs_message = utf8 [229, 189, 147, 229, 137, 141, 230, 147, 141, 228, 189, 156, 228, 184, 141, 232, 162,
       171, 229, 174, 137, 229, 133, 168, 231, 173, 150, 231, 149, 165, 229, 133, 129, 232, 174,
       184],
       cs_status_code = 403, cs_retryable = False \<rparr>"

record operation_profile =
  pf_timeout :: provider_code
  pf_rate_limited :: provider_code
  pf_unavailable :: provider_code

fun operation_profiles :: "provider_operation \<Rightarrow> operation_profile" where
  "operation_profiles EMBEDDING = \<lparr> pf_timeout = P_EMBEDDING_UNAVAILABLE,
     pf_rate_limited = P_EMBEDDING_UNAVAILABLE, pf_unavailable = P_EMBEDDING_UNAVAILABLE \<rparr>"
| "operation_profiles VECTOR_SEARCH = \<lparr> pf_timeout = P_VECTOR_STORE_UNAVAILABLE,
     pf_rate_limited = P_VECTOR_STORE_UNAVAILABLE, pf_unavailable = P_VECTOR_STORE_UNAVAILABLE \<rparr>"
| "operation_profiles RERANK = \<lparr> pf_timeout = P_RERANK_TIMEOUT,
     pf_rate_limited = P_RERANK_RATE_LIMITED, pf_unavailable = P_RERANK_UNAVAILABLE \<rparr>"
| "operation_profiles MODEL = \<lparr> pf_timeout = P_MODEL_TIMEOUT,
     pf_rate_limited = P_MODEL_RATE_LIMITED, pf_unavailable = P_MODEL_UNAVAILABLE \<rparr>"
| "operation_profiles TOOL = \<lparr> pf_timeout = P_TOOL_TIMEOUT,
     pf_rate_limited = P_TOOL_UNAVAILABLE, pf_unavailable = P_TOOL_UNAVAILABLE \<rparr>"

definition safe_identifier :: "string \<Rightarrow> string \<Rightarrow> string" where
  "safe_identifier v fallback =
     (let compact = py_strip v
      in if fullmatch_ident is_alnum (\<lambda>c. is_alnum c \<or> c \<in> {CHR ''.'', CHR ''_'', CHR ''-''}) 63 compact
         then compact else fallback)"

datatype attr = AInt int | AStr string | ABytes string | AFloat rat | AOther

record py_lib =
  pl_float :: "string \<Rightarrow> rat option"
  pl_http_date :: "string \<Rightarrow> rat option"
  pl_str :: "json \<Rightarrow> string"

text \<open>A value of at least this size does not round to a double.\<close>

definition float_overflow :: "rat \<Rightarrow> bool" where
  "float_overflow q \<longleftrightarrow> 2 ^ 1024 - 2 ^ 970 \<le> \<bar>q\<bar>"

lemma float_overflow_code [code]:
  "float_overflow q \<longleftrightarrow> 179769313486231580793728971405303415079934132710037826936173778980444968292764750946649017977587207096330286416692887910946555547851940402630657488671505820681908902000708383676273854845817711531764475730270069855571366959622842914819860834936475292719074168444365510704342711559699508093042880177904174497792 \<le> \<bar>q\<bar>"
  unfolding float_overflow_def by simp

definition py_float :: "py_lib \<Rightarrow> attr \<Rightarrow> rat option" where
  "py_float lib a =
     (case a of
        AInt i \<Rightarrow> if float_overflow (of_int i) then None else Some (of_int i)
      | AStr s \<Rightarrow> pl_float lib s
      | ABytes s \<Rightarrow> pl_float lib s
      | AFloat q \<Rightarrow> Some q
      | AOther \<Rightarrow> None)"

definition finite_non_negative :: "py_lib \<Rightarrow> attr option \<Rightarrow> rat option" where
  "finite_non_negative lib v =
     (case Option.bind v (py_float lib) of
        None \<Rightarrow> None | Some parsed \<Rightarrow> if parsed < 0 then None else Some parsed)"

section \<open>Contexts, policies and errors\<close>

record call_context =
  cc_provider :: string
  cc_operation :: provider_operation
  cc_deadline :: "rat option"
  cc_cancellable :: bool

record provider_policy =
  pp_max_attempts :: int
  pp_initial_backoff :: rat
  pp_max_backoff :: rat
  pp_max_retry_after :: rat
  pp_multiplier :: rat
  pp_poll :: rat

definition ProviderPolicy :: "provider_policy \<Rightarrow> provider_policy option" where
  "ProviderPolicy p =
     (if 1 \<le> pp_max_attempts p \<and> pp_max_attempts p \<le> 100 \<and>
         0 \<le> pp_initial_backoff p \<and> 0 \<le> pp_max_backoff p \<and> 0 \<le> pp_max_retry_after p \<and>
         pp_initial_backoff p \<le> pp_max_backoff p \<and> 1 \<le> pp_multiplier p \<and> 0 < pp_poll p
      then Some p else None)"

definition default_provider_policy :: provider_policy where
  "default_provider_policy =
     \<lparr> pp_max_attempts = 3, pp_initial_backoff = 1 / 10, pp_max_backoff = 2, pp_max_retry_after = 30,
       pp_multiplier = 2, pp_poll = 1 / 20 \<rparr>"

definition retry_delay :: "provider_policy \<Rightarrow> int \<Rightarrow> rat option \<Rightarrow> rat" where
  "retry_delay p failed_attempt retry_after =
     (let power = pp_multiplier p ^ nat (max (failed_attempt - 1) 0);
          exponential = (if float_overflow power then pp_max_backoff p else pp_initial_backoff p * power);
          delay = min exponential (pp_max_backoff p)
      in case retry_after of None \<Rightarrow> delay | Some r \<Rightarrow> max delay r)"

record provider_error =
  er_code :: provider_code
  er_provider :: string
  er_operation :: provider_operation
  er_retry_after :: "rat option"
  er_attempts :: int
  er_max_attempts :: int

definition ProviderError ::
    "provider_code \<Rightarrow> call_context \<Rightarrow> rat option \<Rightarrow> int \<Rightarrow> int \<Rightarrow> provider_error" where
  "ProviderError code ctx retry_after attempts max_attempts =
     \<lparr> er_code = code, er_provider = safe_identifier (cc_provider ctx) ''unknown-provider'',
       er_operation = cc_operation ctx, er_retry_after = (case retry_after of None \<Rightarrow> None | Some q \<Rightarrow> if q < 0 then None else Some q),
       er_attempts = max attempts 1, er_max_attempts = max max_attempts 1 \<rparr>"

definition error_retryable :: "provider_error \<Rightarrow> bool" where
  "error_retryable e = cs_retryable (code_spec (er_code e))"

definition plain_context :: "string \<Rightarrow> provider_operation \<Rightarrow> call_context" where
  "plain_context provider operation =
     \<lparr> cc_provider = provider, cc_operation = operation, cc_deadline = None, cc_cancellable = False \<rparr>"

definition with_attempts :: "provider_error \<Rightarrow> int \<Rightarrow> int \<Rightarrow> provider_error" where
  "with_attempts e attempts max_attempts =
     ProviderError (er_code e) (plain_context (er_provider e) (er_operation e)) (er_retry_after e)
       attempts max_attempts"

definition from_code ::
    "provider_code \<Rightarrow> string \<Rightarrow> provider_operation \<Rightarrow> rat option \<Rightarrow> int \<Rightarrow> int \<Rightarrow> provider_error" where
  "from_code code provider operation retry_after attempts max_attempts =
     ProviderError code (plain_context provider operation) retry_after attempts max_attempts"

definition deadline_exceeded :: "call_context \<Rightarrow> int \<Rightarrow> int \<Rightarrow> provider_error" where
  "deadline_exceeded ctx attempts max_attempts = ProviderError P_PROVIDER_TIMEOUT ctx None attempts max_attempts"

definition to_snapshot :: "provider_error \<Rightarrow> (string \<times> json) list" where
  "to_snapshot e =
     [(''code'', JStr (provider_code_value (er_code e))), (''provider'', JStr (er_provider e)),
      (''operation'', JStr (operation_value (er_operation e))),
      (''retry_after_seconds'', jopt JNum (er_retry_after e)),
      (''attempts'', JInt (er_attempts e)), (''max_attempts'', JInt (er_max_attempts e))]"

definition all_provider_codes :: "provider_code list" where
  "all_provider_codes = [P_EMBEDDING_UNAVAILABLE, P_VECTOR_STORE_UNAVAILABLE, P_RERANK_TIMEOUT, P_RERANK_RATE_LIMITED, P_RERANK_UNAVAILABLE, P_RERANK_INVALID_RESPONSE, P_RERANK_CIRCUIT_OPEN, P_MODEL_TIMEOUT, P_MODEL_RATE_LIMITED, P_MODEL_UNAVAILABLE, P_TOOL_TIMEOUT, P_TOOL_UNAVAILABLE, P_PROVIDER_AUTHENTICATION_FAILED, P_PROVIDER_REQUEST_INVALID, P_PROVIDER_TIMEOUT, P_POLICY_DENIED]"

definition all_provider_operations :: "provider_operation list" where
  "all_provider_operations = [EMBEDDING, VECTOR_SEARCH, RERANK, MODEL, TOOL]"

fun json_attr :: "json \<Rightarrow> attr" where
  "json_attr (JInt i) = AInt i"
| "json_attr (JStr s) = AStr s"
| "json_attr (JNum q) = AFloat q"
| "json_attr (JBool b) = AInt (if b then 1 else 0)"
| "json_attr _ = AOther"

definition attr_int :: "attr \<Rightarrow> int option" where
  "attr_int a =
     (case a of
        AInt i \<Rightarrow> Some i
      | AStr s \<Rightarrow> py_int s
      | ABytes s \<Rightarrow> py_int s
      | AFloat q \<Rightarrow> Some (if q < 0 then - \<lfloor>- q\<rfloor> else \<lfloor>q\<rfloor>)
      | AOther \<Rightarrow> None)"

text \<open>\<open>int(payload.get(k) or 1)\<close>.\<close>

definition snapshot_count :: "json option \<Rightarrow> int option" where
  "snapshot_count v =
     (case v of None \<Rightarrow> Some 1 | Some j \<Rightarrow> if truthy j then attr_int (json_attr j) else Some 1)"

text \<open>\<open>str(payload.get("provider") or "unknown-provider")\<close>.\<close>

definition snapshot_provider :: "py_lib \<Rightarrow> json option \<Rightarrow> string" where
  "snapshot_provider lib v =
     (case v of
        None \<Rightarrow> ''unknown-provider''
      | Some j \<Rightarrow> if \<not> truthy j then ''unknown-provider''
                  else (case j of JStr s \<Rightarrow> s | _ \<Rightarrow> pl_str lib j))"

definition parse_code :: "json option \<Rightarrow> provider_code option" where
  "parse_code v =
     (case v of
        Some (JStr s) \<Rightarrow> find (\<lambda>c. provider_code_value c = s) all_provider_codes
      | _ \<Rightarrow> None)"

definition parse_operation :: "json option \<Rightarrow> provider_operation option" where
  "parse_operation v =
     (case v of
        Some (JStr s) \<Rightarrow> find (\<lambda>op. operation_value op = s) all_provider_operations
      | _ \<Rightarrow> None)"

text \<open>\<open>None\<close> when a key is missing or a conversion raises.\<close>

definition from_snapshot :: "py_lib \<Rightarrow> (string \<times> json) list \<Rightarrow> provider_error option" where
  "from_snapshot lib payload =
     (case (parse_code (map_of payload ''code''), parse_operation (map_of payload ''operation''),
            snapshot_count (map_of payload ''attempts''), snapshot_count (map_of payload ''max_attempts'')) of
        (Some code, Some operation, Some attempts, Some max_attempts) \<Rightarrow>
          Some (from_code code (snapshot_provider lib (map_of payload ''provider'')) operation
            (finite_non_negative lib (map_option json_attr (map_of payload ''retry_after_seconds'')))
            attempts max_attempts)
      | _ \<Rightarrow> None)"

definition policy_denied :: "call_context \<Rightarrow> provider_error" where
  "policy_denied ctx = ProviderError P_POLICY_DENIED ctx None 1 1"

section \<open>Classification of exceptions\<close>

record headers_obj =
  ho_retry_after :: "attr option"
  ho_retry_after_lower :: "attr option"

record exc_obj =
  xo_cause :: "nat option"
  xo_context :: "nat option"
  xo_status_code :: "attr option"
  xo_status :: "attr option"
  xo_response_status_code :: "attr option"
  xo_response_status :: "attr option"
  xo_headers :: "headers_obj option"
  xo_response_headers :: "headers_obj option"
  xo_retry_after_seconds :: "attr option"
  xo_retry_after :: "attr option"
  xo_is_timeout_error :: bool
  xo_mro_names :: "string list"

type_synonym exc_heap = "nat \<Rightarrow> exc_obj"

function exception_chain :: "exc_heap \<Rightarrow> nat list \<Rightarrow> nat option \<Rightarrow> nat list" where
  "exception_chain h seen current =
     (case current of
        None \<Rightarrow> []
      | Some x \<Rightarrow>
          if x \<in> set seen \<or> 16 \<le> length seen then []
          else x # exception_chain h (x # seen)
                     (case xo_cause (h x) of Some y \<Rightarrow> Some y | None \<Rightarrow> xo_context (h x)))"
  by pat_completeness auto
termination
  by (relation "measure (\<lambda>(h, seen, current). 16 - length seen)") auto

declare exception_chain.simps [simp del]

definition http_status :: "attr option \<Rightarrow> int option" where
  "http_status a =
     (case Option.bind a attr_int of
        None \<Rightarrow> None | Some i \<Rightarrow> if 100 \<le> i \<and> i \<le> 599 then Some i else None)"

definition first_some :: "'a option list \<Rightarrow> 'a option" where
  "first_some xs = (case find (\<lambda>x. x \<noteq> None) xs of None \<Rightarrow> None | Some x \<Rightarrow> x)"

definition exc_status_code :: "exc_heap \<Rightarrow> nat \<Rightarrow> int option" where
  "exc_status_code h x =
     first_some (concat (map (\<lambda>i. [http_status (xo_status_code (h i)), http_status (xo_status (h i)),
         http_status (xo_response_status_code (h i)), http_status (xo_response_status (h i))])
       (exception_chain h [] (Some x))))"

definition exc_headers :: "exc_heap \<Rightarrow> nat \<Rightarrow> headers_obj option" where
  "exc_headers h x =
     first_some (concat (map (\<lambda>i. [xo_headers (h i), xo_response_headers (h i)])
       (exception_chain h [] (Some x))))"

definition header_value :: "headers_obj option \<Rightarrow> attr option" where
  "header_value hs =
     (case hs of
        None \<Rightarrow> None
      | Some ho \<Rightarrow> (case ho_retry_after ho of None \<Rightarrow> ho_retry_after_lower ho | Some v \<Rightarrow> Some v))"

definition parse_retry_after :: "py_lib \<Rightarrow> attr option \<Rightarrow> rat option" where
  "parse_retry_after lib v =
     (case v of
        None \<Rightarrow> None
      | Some a \<Rightarrow>
          (case finite_non_negative lib (Some a) of
             Some q \<Rightarrow> Some q
           | None \<Rightarrow>
               (case a of
                  AStr s \<Rightarrow> (case pl_http_date lib s of None \<Rightarrow> None | Some q \<Rightarrow> Some (max q 0))
                | _ \<Rightarrow> None)))"

definition exc_retry_after :: "py_lib \<Rightarrow> exc_heap \<Rightarrow> nat \<Rightarrow> rat option" where
  "exc_retry_after lib h x =
     first_some (concat (map (\<lambda>i. [parse_retry_after lib (xo_retry_after_seconds (h i)),
         parse_retry_after lib (xo_retry_after (h i)),
         parse_retry_after lib (header_value (exc_headers h i))])
       (exception_chain h [] (Some x))))"

definition TIMEOUT_TYPE_NAMES :: "string list" where
  "TIMEOUT_TYPE_NAMES = [''APITimeoutError'', ''TimeoutException'', ''Timeout'', ''TimeoutError'', ''ConnectTimeout'', ''ConnectTimeoutError'', ''ReadTimeout'', ''ReadTimeoutError'', ''ServerTimeoutError'', ''SocketTimeout'', ''WriteTimeout'', ''PoolTimeout'']"

definition is_timeout :: "exc_heap \<Rightarrow> nat \<Rightarrow> int option \<Rightarrow> bool" where
  "is_timeout h x status \<longleftrightarrow> status = Some 408 \<or> status = Some 504 \<or>
     list_ex (\<lambda>i. xo_is_timeout_error (h i) \<or>
         list_ex (\<lambda>n. n \<in> set TIMEOUT_TYPE_NAMES) (xo_mro_names (h i)))
       (exception_chain h [] (Some x))"

text \<open>
  What a provider call may raise: a cancellation, another exception that is not an \<open>Exception\<close>, an
  error of this module, an \<open>AppError\<close> with its code, or any other exception object.
\<close>

datatype raised = CancelledError | RaisedBase | RaisedProvider provider_error | RaisedApp string nat | RaisedOther nat

definition is_policy_error :: "string \<Rightarrow> bool" where
  "is_policy_error code \<longleftrightarrow> code \<in> {''POLICY_DENIED'', ''PERMISSION_DENIED''}"

definition classify_object ::
    "py_lib \<Rightarrow> exc_heap \<Rightarrow> nat \<Rightarrow> call_context \<Rightarrow> int \<Rightarrow> int \<Rightarrow> provider_error" where
  "classify_object lib h x ctx attempts max_attempts =
     (let profile = operation_profiles (cc_operation ctx);
          status = exc_status_code h x;
          code = (if status = Some 429 then pf_rate_limited profile
                  else if status = Some 401 \<or> status = Some 403 then P_PROVIDER_AUTHENTICATION_FAILED
                  else if (case status of None \<Rightarrow> False | Some s \<Rightarrow> 400 \<le> s \<and> s < 500 \<and> s \<noteq> 408)
                  then P_PROVIDER_REQUEST_INVALID
                  else if is_timeout h x status then pf_timeout profile
                  else pf_unavailable profile)
      in ProviderError code ctx (exc_retry_after lib h x) attempts max_attempts)"

text \<open>\<open>None\<close> when the exception is raised again.\<close>

definition classify_provider_exception ::
    "py_lib \<Rightarrow> exc_heap \<Rightarrow> raised \<Rightarrow> call_context \<Rightarrow> int \<Rightarrow> int \<Rightarrow> provider_error option" where
  "classify_provider_exception lib h exc ctx attempts max_attempts =
     (case exc of
        CancelledError \<Rightarrow> None
      | RaisedBase \<Rightarrow> None
      | RaisedProvider e \<Rightarrow> Some (with_attempts e attempts max_attempts)
      | RaisedApp code x \<Rightarrow>
          if is_policy_error code
          then Some (ProviderError P_POLICY_DENIED ctx None attempts max_attempts)
          else Some (classify_object lib h x ctx attempts max_attempts)
      | RaisedOther x \<Rightarrow> Some (classify_object lib h x ctx attempts max_attempts))"

end
