(* ===== verification/Provider_Executor.thy ===== *)
theory Provider_Executor
  imports Providers
begin

text \<open>
  \<^verbatim>\<open>ProviderExecutor\<close> of \<^verbatim>\<open>src/backend/providers/core.py\<close>: the retry loops \<open>call\<close> and \<open>acall\<close>. The
  clock, the sleepers, the cancellation probe and the called function are injected in the source.
  Here every interaction with them is an event of a log, newest first, and the environment answers
  by arbitrary functions of the log so far. At a checkpoint the probe returns normally. The sleeping loop ends
  because a policy's poll interval is positive; without that it is cut off.
\<close>

section \<open>The environment\<close>

datatype 'a call_ended = Finished 'a | Threw raised

datatype 'a event =
    EvCancelled bool
  | EvClock rat
  | EvCall "'a call_ended"
  | EvSleep rat
  | EvAsleep rat

text \<open>
  What waiting for the task and the watcher gives: the task ends first, the watcher sees a
  cancellation or fails, or the waiting itself is cancelled, by the timeout scope or from outside.
\<close>

datatype 'a waited = TaskDone "'a call_ended" | WatcherDone "raised option" | WaitCancelled

record 'a await_answer =
  aw_waited :: "'a waited"
  aw_expired :: bool
  aw_cancelled_outside :: bool

record 'a provider_env =
  en_cancellation :: "'a event list \<Rightarrow> bool"
  en_clock :: "'a event list \<Rightarrow> rat"
  en_fn :: "'a event list \<Rightarrow> 'a call_ended"
  en_await :: "'a event list \<Rightarrow> 'a await_answer"
  en_lib :: py_lib
  en_heap :: exc_heap

datatype stop = StopCancelled | StopError provider_error

datatype 'a result =
    Returned 'a
  | RaisedError provider_error
  | RaisedCancelled
  | RaisedBaseException
  | RaisedAssertion

fun stopped :: "stop \<Rightarrow> 'a result" where
  "stopped StopCancelled = RaisedCancelled"
| "stopped (StopError e) = RaisedError e"

section \<open>Checkpoints and sleeping\<close>

definition is_cancelled :: "'a provider_env \<Rightarrow> call_context \<Rightarrow> 'a event list \<Rightarrow> bool \<times> 'a event list" where
  "is_cancelled en ctx l =
     (if cc_cancellable ctx
      then let b = en_cancellation en l in (b, EvCancelled b # l)
      else (False, l))"

definition remaining_time :: "'a provider_env \<Rightarrow> call_context \<Rightarrow> 'a event list \<Rightarrow> rat option \<times> 'a event list" where
  "remaining_time en ctx l =
     (case cc_deadline ctx of
        None \<Rightarrow> (None, l)
      | Some d \<Rightarrow> let t = en_clock en l in (Some (max (d - t) 0), EvClock t # l))"

definition provider_checkpoint ::
    "'a provider_env \<Rightarrow> call_context \<Rightarrow> int \<Rightarrow> int \<Rightarrow> 'a event list \<Rightarrow> stop option \<times> 'a event list" where
  "provider_checkpoint en ctx attempts max_attempts l =
     (case is_cancelled en ctx l of
        (True, l1) \<Rightarrow> (Some StopCancelled, l1)
      | (False, l1) \<Rightarrow>
          (case remaining_time en ctx l1 of
             (Some r, l2) \<Rightarrow>
               (if r \<le> 0 then Some (StopError (deadline_exceeded ctx attempts max_attempts)) else None, l2)
           | (None, l2) \<Rightarrow> (None, l2)))"

definition ensure_retry_fits_deadline ::
    "'a provider_env \<Rightarrow> call_context \<Rightarrow> rat \<Rightarrow> int \<Rightarrow> int \<Rightarrow> 'a event list \<Rightarrow> stop option \<times> 'a event list" where
  "ensure_retry_fits_deadline en ctx delay attempts max_attempts l =
     (case remaining_time en ctx l of
        (Some r, l1) \<Rightarrow>
          (if r \<le> delay then Some (StopError (deadline_exceeded ctx attempts max_attempts)) else None, l1)
      | (None, l1) \<Rightarrow> (None, l1))"

lemma sleep_loop_decreases:
  fixes r q :: rat
  assumes "0 < r" "0 < q"
  shows "nat \<lceil>(r - min r q) / q\<rceil> < nat \<lceil>r / q\<rceil>"
proof (cases "r \<le> q")
  case True
  then show ?thesis using assms by (simp add: min_def)
next
  case False
  have "(r - q) / q = r / q - 1" using assms(2) by (simp add: field_simps)
  moreover have "0 < \<lceil>r / q\<rceil>" using assms by simp
  ultimately show ?thesis using False by (simp add: min_def)
qed

function sleep_loop ::
    "(rat \<Rightarrow> 'a event) \<Rightarrow> 'a provider_env \<Rightarrow> call_context \<Rightarrow> provider_policy \<Rightarrow> int \<Rightarrow> rat \<Rightarrow> 'a event list
      \<Rightarrow> stop option \<times> 'a event list" where
  "sleep_loop sleeper en ctx p attempts remaining l =
     (if 0 < remaining \<and> 0 < pp_poll p
      then case provider_checkpoint en ctx attempts (pp_max_attempts p) l of
             (Some s, l1) \<Rightarrow> (Some s, l1)
           | (None, l1) \<Rightarrow>
               let interval = min remaining (pp_poll p)
               in sleep_loop sleeper en ctx p attempts (remaining - interval) (sleeper interval # l1)
      else provider_checkpoint en ctx attempts (pp_max_attempts p) l)"
  by pat_completeness auto
termination
  by (relation "measure (\<lambda>(sleeper, en, ctx, p, attempts, remaining, l). nat \<lceil>remaining / pp_poll p\<rceil>)")
     (simp_all only: wf_measure in_measure prod.case, metis sleep_loop_decreases)

declare sleep_loop.simps [simp del]

definition sleep_with_cancellation ::
    "'a provider_env \<Rightarrow> rat \<Rightarrow> call_context \<Rightarrow> provider_policy \<Rightarrow> int \<Rightarrow> 'a event list \<Rightarrow> stop option \<times> 'a event list" where
  "sleep_with_cancellation en delay ctx p attempts l =
     (if delay \<le> 0 then provider_checkpoint en ctx attempts (pp_max_attempts p) l
      else if \<not> cc_cancellable ctx then (None, EvSleep delay # l)
      else sleep_loop EvSleep en ctx p attempts delay l)"

definition asleep_with_cancellation ::
    "'a provider_env \<Rightarrow> rat \<Rightarrow> call_context \<Rightarrow> provider_policy \<Rightarrow> int \<Rightarrow> 'a event list \<Rightarrow> stop option \<times> 'a event list" where
  "asleep_with_cancellation en delay ctx p attempts l =
     (if delay \<le> 0 then provider_checkpoint en ctx attempts (pp_max_attempts p) l
      else if \<not> cc_cancellable ctx then (None, EvAsleep delay # l)
      else sleep_loop EvAsleep en ctx p attempts delay l)"

section \<open>One attempt\<close>

text \<open>
  The outcome of the \<open>try\<close> block: a result, an exception that leaves the loop, or a classified error.
\<close>

datatype 'a tried = Got 'a | Leaves "'a result" | Failed provider_error

fun caught :: "'a provider_env \<Rightarrow> call_context \<Rightarrow> int \<Rightarrow> int \<Rightarrow> 'a call_ended \<Rightarrow> 'a tried" where
  "caught en ctx attempt max_attempts (Finished v) = Got v"
| "caught en ctx attempt max_attempts (Threw exc) =
     (case classify_provider_exception (en_lib en) (en_heap en) exc ctx attempt max_attempts of
        Some e \<Rightarrow> Failed e
      | None \<Rightarrow> Leaves (if exc = CancelledError then RaisedCancelled else RaisedBaseException))"

definition try_call ::
    "'a provider_env \<Rightarrow> call_context \<Rightarrow> provider_policy \<Rightarrow> int \<Rightarrow> 'a event list \<Rightarrow> 'a tried \<times> 'a event list" where
  "try_call en ctx p attempt l =
     (let r = en_fn en l in (caught en ctx attempt (pp_max_attempts p) r, EvCall r # l))"

fun await_with_cancellation :: "call_context \<Rightarrow> 'a waited \<Rightarrow> 'a call_ended" where
  "await_with_cancellation ctx (TaskDone r) = r"
| "await_with_cancellation ctx (WatcherDone (Some exc)) =
     (if cc_cancellable ctx then Threw exc else Threw CancelledError)"
| "await_with_cancellation ctx (WatcherDone None) = Threw CancelledError"
| "await_with_cancellation ctx WaitCancelled = Threw CancelledError"

text \<open>
  Leaving \<open>asyncio.timeout\<close> turns the cancellation that the scope itself requested into a
  \<open>TimeoutError\<close>, and \<open>expired()\<close> then makes the error a missed deadline. A cancellation requested
  from outside stays one.
\<close>

definition try_acall ::
    "'a provider_env \<Rightarrow> call_context \<Rightarrow> provider_policy \<Rightarrow> int \<Rightarrow> 'a event list \<Rightarrow> 'a tried \<times> 'a event list" where
  "try_acall en ctx p attempt l =
     (case remaining_time en ctx l of (remaining, l1) \<Rightarrow>
        let answer = en_await en l1;
            r = await_with_cancellation ctx (aw_waited answer);
            expired = (remaining \<noteq> None \<and> aw_expired answer);
            late = Failed (deadline_exceeded ctx attempt (pp_max_attempts p))
        in (case r of
              Threw exc \<Rightarrow>
                if expired \<and> (exc = CancelledError \<and> \<not> aw_cancelled_outside answer \<or>
                               exc \<noteq> CancelledError \<and> exc \<noteq> RaisedBase)
                then late else caught en ctx attempt (pp_max_attempts p) r
            | Finished v \<Rightarrow> Got v,
            EvCall r # l1))"

section \<open>The retry loops\<close>

text \<open>
  The two loops differ in the \<open>try\<close> block and in the sleeper only. \<open>after_failure\<close> is the handler:
  it raises the error or sleeps before the next attempt.
\<close>

definition after_failure ::
    "('a provider_env \<Rightarrow> rat \<Rightarrow> call_context \<Rightarrow> provider_policy \<Rightarrow> int \<Rightarrow> 'a event list \<Rightarrow> stop option \<times> 'a event list)
      \<Rightarrow> 'a provider_env \<Rightarrow> call_context \<Rightarrow> provider_policy \<Rightarrow> int \<Rightarrow> provider_error \<Rightarrow> 'a event list
      \<Rightarrow> stop option \<times> 'a event list" where
  "after_failure snooze en ctx p attempt e l =
     (if \<not> error_retryable e \<or> pp_max_attempts p \<le> attempt then (Some (StopError e), l)
      else if (case er_retry_after e of None \<Rightarrow> False | Some r \<Rightarrow> pp_max_retry_after p < r)
      then (Some (StopError e), l)
      else let delay = retry_delay p attempt (er_retry_after e)
           in case ensure_retry_fits_deadline en ctx delay attempt (pp_max_attempts p) l of
                (Some s, l1) \<Rightarrow> (Some s, l1)
              | (None, l1) \<Rightarrow> snooze en delay ctx p attempt l1)"

function retry_from ::
    "('a provider_env \<Rightarrow> call_context \<Rightarrow> provider_policy \<Rightarrow> int \<Rightarrow> 'a event list \<Rightarrow> 'a tried \<times> 'a event list)
      \<Rightarrow> ('a provider_env \<Rightarrow> rat \<Rightarrow> call_context \<Rightarrow> provider_policy \<Rightarrow> int \<Rightarrow> 'a event list \<Rightarrow> stop option \<times> 'a event list)
      \<Rightarrow> 'a provider_env \<Rightarrow> call_context \<Rightarrow> provider_policy \<Rightarrow> int \<Rightarrow> 'a event list \<Rightarrow> 'a result \<times> 'a event list" where
  "retry_from attempt_once snooze en ctx p attempt l =
     (if pp_max_attempts p < attempt then (RaisedAssertion, l)
      else case provider_checkpoint en ctx attempt (pp_max_attempts p) l of
        (Some s, l1) \<Rightarrow> (stopped s, l1)
      | (None, l1) \<Rightarrow>
          (case attempt_once en ctx p attempt l1 of
             (Leaves r, l2) \<Rightarrow> (r, l2)
           | (Failed e, l2) \<Rightarrow>
               (case after_failure snooze en ctx p attempt e l2 of
                  (Some s, l3) \<Rightarrow> (stopped s, l3)
                | (None, l3) \<Rightarrow> retry_from attempt_once snooze en ctx p (attempt + 1) l3)
           | (Got v, l2) \<Rightarrow>
               (case provider_checkpoint en ctx attempt (pp_max_attempts p) l2 of
                  (Some s, l3) \<Rightarrow> (stopped s, l3)
                | (None, l3) \<Rightarrow> (Returned v, l3))))"
  by pat_completeness auto
termination
  by (relation "measure (\<lambda>(f, g, en, ctx, p, attempt, l). nat (pp_max_attempts p + 1 - attempt))") auto

declare retry_from.simps [simp del]

definition call :: "'a provider_env \<Rightarrow> call_context \<Rightarrow> provider_policy \<Rightarrow> 'a result \<times> 'a event list" where
  "call en ctx p = retry_from try_call sleep_with_cancellation en ctx p 1 []"

definition acall :: "'a provider_env \<Rightarrow> call_context \<Rightarrow> provider_policy \<Rightarrow> 'a result \<times> 'a event list" where
  "acall en ctx p = retry_from try_acall asleep_with_cancellation en ctx p 1 []"

end
