(* ===== verification/Provider_Safety.thy ===== *)
theory Provider_Safety
  imports Provider_Executor
begin

text \<open>
  The bounds of a provider call: how often the function is called, how long the executor sleeps,
  that no attempt starts after the deadline and that only retryable failures are retried. The laws
  a \<open>try\<close> block and a sleeper owe to the loop are the locale \<open>retry_parts\<close>; the blocks of \<open>call\<close>
  and \<open>acall\<close> are its two interpretations. The second part is the round trip of error snapshots.
\<close>

section \<open>Readings of a log\<close>

fun calls :: "'a event list \<Rightarrow> 'a call_ended list" where
  "calls [] = []"
| "calls (EvCall r # l) = r # calls l"
| "calls (_ # l) = calls l"

fun slept :: "'a event list \<Rightarrow> rat" where
  "slept [] = 0"
| "slept (EvSleep d # l) = d + slept l"
| "slept (EvAsleep d # l) = d + slept l"
| "slept (_ # l) = slept l"

text \<open>Since the last call or sleep the clock was read before the deadline.\<close>

fun fresh :: "rat \<Rightarrow> 'a event list \<Rightarrow> bool" where
  "fresh d (EvClock t # l) \<longleftrightarrow> t < d \<or> fresh d l"
| "fresh d (EvCancelled b # l) \<longleftrightarrow> fresh d l"
| "fresh d _ \<longleftrightarrow> False"

fun in_time :: "rat \<Rightarrow> 'a event list \<Rightarrow> bool" where
  "in_time d [] \<longleftrightarrow> True"
| "in_time d (EvCall r # l) \<longleftrightarrow> fresh d l \<and> in_time d l"
| "in_time d (_ # l) \<longleftrightarrow> in_time d l"

definition punctual :: "call_context \<Rightarrow> 'a event list \<Rightarrow> bool" where
  "punctual ctx l \<longleftrightarrow> (case cc_deadline ctx of None \<Rightarrow> True | Some d \<Rightarrow> in_time d l)"

definition ready :: "call_context \<Rightarrow> 'a event list \<Rightarrow> bool" where
  "ready ctx l \<longleftrightarrow> (case cc_deadline ctx of None \<Rightarrow> True | Some d \<Rightarrow> fresh d l)"

definition may_retry :: "'a provider_env \<Rightarrow> call_context \<Rightarrow> provider_policy \<Rightarrow> 'a call_ended \<Rightarrow> bool" where
  "may_retry en ctx p r =
     (case caught en ctx 1 (pp_max_attempts p) r of
        Failed e \<Rightarrow> error_retryable e \<and>
          (case er_retry_after e of None \<Rightarrow> True | Some q \<Rightarrow> q \<le> pp_max_retry_after p)
      | _ \<Rightarrow> False)"

definition longest_delay :: "provider_policy \<Rightarrow> rat" where
  "longest_delay p = max (pp_max_backoff p) (pp_max_retry_after p)"

section \<open>Checkpoints and sleeping\<close>

definition stop_ok :: "int \<Rightarrow> int \<Rightarrow> stop option \<Rightarrow> bool" where
  "stop_ok k m s \<longleftrightarrow> (case s of Some (StopError e) \<Rightarrow> er_attempts e = max k 1 \<and> er_max_attempts e = max m 1
     | _ \<Rightarrow> True)"

lemmas probe_defs = is_cancelled_def remaining_time_def Let_def

lemma deadline_error_ok [simp]: "stop_ok k m (Some (StopError (deadline_exceeded ctx k m)))"
  by (simp add: stop_ok_def deadline_exceeded_def ProviderError_def)

lemma stop_ok_simps [simp]: "stop_ok k m None" "stop_ok k m (Some StopCancelled)"
  by (simp_all add: stop_ok_def)

lemma checkpoint_quiet:
  assumes "provider_checkpoint en ctx k m l = (s, l')"
  shows "calls l' = calls l" "slept l' = slept l" "punctual ctx l' = punctual ctx l" "stop_ok k m s"
    "s = None \<Longrightarrow> ready ctx l'"
  using assms
  by (auto simp: provider_checkpoint_def probe_defs punctual_def ready_def split: if_splits option.splits bool.splits)

lemma ensure_quiet:
  assumes "ensure_retry_fits_deadline en ctx d k m l = (s, l')"
  shows "calls l' = calls l" "slept l' = slept l" "punctual ctx l' = punctual ctx l" "stop_ok k m s"
  using assms
  by (auto simp: ensure_retry_fits_deadline_def probe_defs punctual_def split: if_splits option.splits)

definition snoozed :: "call_context \<Rightarrow> 'a event list \<Rightarrow> 'a event list \<Rightarrow> rat \<Rightarrow> int \<Rightarrow> int \<Rightarrow> stop option \<Rightarrow> bool" where
  "snoozed ctx l l' d k m s \<longleftrightarrow> calls l' = calls l \<and> slept l' \<le> slept l + d \<and>
     punctual ctx l' = punctual ctx l \<and> stop_ok k m s"

lemma checkpoint_snoozed:
  assumes "provider_checkpoint en ctx k m l = (s, l')" "0 \<le> d"
  shows "snoozed ctx l l' d k m s"
  using checkpoint_quiet [OF assms(1)] assms(2) by (simp add: snoozed_def)

definition is_sleeper :: "(rat \<Rightarrow> 'a event) \<Rightarrow> bool" where
  "is_sleeper f \<longleftrightarrow> (\<forall>d l. calls (f d # l) = calls l \<and> slept (f d # l) = d + slept l \<and>
     (\<forall>t. in_time t (f d # l) = in_time t l))"

lemma is_sleeper [simp]: "is_sleeper EvSleep" "is_sleeper EvAsleep"
  by (simp_all add: is_sleeper_def)

lemma sleep_loop_snoozed:
  "is_sleeper f \<Longrightarrow> sleep_loop f en ctx p k d l = (s, l') \<Longrightarrow> 0 \<le> d \<Longrightarrow>
     snoozed ctx l l' d k (pp_max_attempts p) s"
proof (induction f en ctx p k d l arbitrary: s l' rule: sleep_loop.induct)
  case (1 f en ctx p k d l)
  show ?case
  proof (cases "0 < d \<and> 0 < pp_poll p")
    case False
    then show ?thesis
      using 1(3,4) checkpoint_snoozed by (subst (asm) sleep_loop.simps) (simp only: if_False)
  next
    case True
    obtain c l1 where c: "provider_checkpoint en ctx k (pp_max_attempts p) l = (c, l1)" by fastforce
    note q = checkpoint_quiet [OF c]
    show ?thesis
    proof (cases c)
      case None
      let ?i = "min d (pp_poll p)"
      have "sleep_loop f en ctx p k (d - ?i) (f ?i # l1) = (s, l')"
        using 1(3) True c None by (subst (asm) sleep_loop.simps) (simp add: Let_def)
      then have "snoozed ctx (f ?i # l1) l' (d - ?i) k (pp_max_attempts p) s"
        using 1(1) [OF True c [symmetric, unfolded None] refl refl 1(2)] by simp
      then show ?thesis
        using 1(2) q by (auto simp: snoozed_def is_sleeper_def punctual_def split: option.splits)
    next
      case (Some s')
      then show ?thesis
        using 1(3,4) True c checkpoint_snoozed [OF c 1(4)] by (subst (asm) sleep_loop.simps) auto
    qed
  qed
qed

section \<open>The laws of an attempt\<close>

lemma classify_attempts:
  "classify_provider_exception lib h exc ctx k m = Some e \<Longrightarrow> er_attempts e = max k 1 \<and> er_max_attempts e = max m 1"
  by (auto simp: classify_provider_exception_def classify_object_def with_attempts_def ProviderError_def
      Let_def split: raised.splits if_splits)

lemma classify_same_kind:
  "classify_provider_exception lib h exc ctx k m = Some e \<Longrightarrow>
     \<exists>e'. classify_provider_exception lib h exc ctx k' m = Some e' \<and> er_code e' = er_code e \<and>
          er_retry_after e' = er_retry_after e"
  by (auto simp: classify_provider_exception_def classify_object_def with_attempts_def ProviderError_def
      Let_def split: raised.splits if_splits)

lemma caught_Failed:
  assumes "caught en ctx k m r = Failed e"
  shows "er_attempts e = max k 1" "er_max_attempts e = max m 1"
    "\<exists>e'. caught en ctx 1 m r = Failed e' \<and> er_code e' = er_code e \<and> er_retry_after e' = er_retry_after e"
proof -
  obtain exc where r: "r = Threw exc" using assms by (cases r) auto
  then have c: "classify_provider_exception (en_lib en) (en_heap en) exc ctx k m = Some e"
    using assms by (auto split: option.splits)
  show "er_attempts e = max k 1" "er_max_attempts e = max m 1" using classify_attempts [OF c] by auto
  show "\<exists>e'. caught en ctx 1 m r = Failed e' \<and> er_code e' = er_code e \<and> er_retry_after e' = er_retry_after e"
    using classify_same_kind [OF c, of 1] r by auto
qed

definition escapes :: "'a result \<Rightarrow> bool" where
  "escapes r \<longleftrightarrow> r = RaisedCancelled \<or> r = RaisedBaseException"

lemma caught_Got: "caught en ctx k m r = Got v \<Longrightarrow> r = Finished v"
  by (cases r) (auto split: option.splits)

lemma caught_Leaves: "caught en ctx k m r = Leaves x \<Longrightarrow> escapes x"
  by (cases r) (auto simp: escapes_def split: option.splits if_splits)

lemma late_not_retryable [simp]: "\<not> error_retryable (deadline_exceeded ctx k m)"
  by (simp add: error_retryable_def deadline_exceeded_def ProviderError_def)

text \<open>
  What the loop needs of its parts: an attempt adds one call, possibly after reading the clock, and
  reports how it ended; a sleeper makes no call and sleeps at most as long as it is told.
\<close>

locale retry_parts =
  fixes once :: "'a provider_env \<Rightarrow> call_context \<Rightarrow> provider_policy \<Rightarrow> int \<Rightarrow> 'a event list \<Rightarrow> 'a tried \<times> 'a event list"
    and snooze :: "'a provider_env \<Rightarrow> rat \<Rightarrow> call_context \<Rightarrow> provider_policy \<Rightarrow> int \<Rightarrow> 'a event list
      \<Rightarrow> stop option \<times> 'a event list"
  assumes once_call: "once en ctx p k l = (t, l') \<Longrightarrow>
      \<exists>r l1. l' = EvCall r # l1 \<and> (l1 = l \<or> (\<exists>c. l1 = EvClock c # l)) \<and>
        (\<forall>v. t = Got v \<longrightarrow> r = Finished v) \<and>
        (\<forall>e. t = Failed e \<and> error_retryable e \<longrightarrow> caught en ctx k (pp_max_attempts p) r = Failed e)"
    and once_error: "once en ctx p k l = (Failed e, l') \<Longrightarrow>
      er_attempts e = max k 1 \<and> er_max_attempts e = max (pp_max_attempts p) 1"
    and once_leaves: "once en ctx p k l = (Leaves x, l') \<Longrightarrow> escapes x"
    and snooze_ok: "snooze en d ctx p k l = (s, l') \<Longrightarrow> 0 \<le> d \<Longrightarrow>
      snoozed ctx l l' d k (pp_max_attempts p) s"

interpretation sync: retry_parts try_call sleep_with_cancellation
proof (unfold_locales, goal_cases)
  case (1 en ctx p k l t l')
  then show ?case by (auto simp: try_call_def Let_def dest: caught_Got)
next
  case (2 en ctx p k l e l')
  then show ?case by (auto simp: try_call_def Let_def dest: caught_Failed)
next
  case (3 en ctx p k l x l')
  then show ?case by (auto simp: try_call_def Let_def dest: caught_Leaves)
next
  case (4 en d ctx p k l s l')
  then show ?case
    by (auto simp: sleep_with_cancellation_def snoozed_def punctual_def
        dest: checkpoint_quiet sleep_loop_snoozed [OF is_sleeper(1)] split: if_splits option.splits)
qed

lemma remaining_time_log:
  "remaining_time en ctx l = (r, l1) \<Longrightarrow> l1 = l \<or> (\<exists>c. l1 = EvClock c # l)"
  by (auto simp: remaining_time_def Let_def split: option.splits)

lemma try_acall_cases:
  assumes "try_acall en ctx p k l = (t, l')"
  obtains r l1 where "l' = EvCall r # l1" "l1 = l \<or> (\<exists>c. l1 = EvClock c # l)"
    "t = caught en ctx k (pp_max_attempts p) r \<or> t = Failed (deadline_exceeded ctx k (pp_max_attempts p))"
proof -
  obtain rem l1 where m: "remaining_time en ctx l = (rem, l1)" by fastforce
  let ?r = "await_with_cancellation ctx (aw_waited (en_await en l1))"
  have l': "l' = EvCall ?r # l1" using assms m by (simp add: try_acall_def Let_def)
  have t: "t = caught en ctx k (pp_max_attempts p) ?r \<or> t = Failed (deadline_exceeded ctx k (pp_max_attempts p))"
    using assms m by (cases ?r) (auto simp: try_acall_def Let_def split: if_splits)
  show thesis by (rule that [OF l' remaining_time_log [OF m] t])
qed

lemma deadline_exceeded_attempts [simp]:
  "er_attempts (deadline_exceeded ctx k m) = max k 1" "er_max_attempts (deadline_exceeded ctx k m) = max m 1"
  by (simp_all add: deadline_exceeded_def ProviderError_def)

interpretation async: retry_parts try_acall asleep_with_cancellation
proof (unfold_locales, goal_cases)
  case (1 en ctx p k l t l')
  then show ?case by (rule try_acall_cases) (auto dest: caught_Got)
next
  case (2 en ctx p k l e l')
  then show ?case by (rule try_acall_cases) (auto dest: caught_Failed(1,2) [OF sym])
next
  case (3 en ctx p k l x l')
  then show ?case by (rule try_acall_cases) (auto dest: caught_Leaves [OF sym])
next
  case (4 en d ctx p k l s l')
  then show ?case
    by (auto simp: asleep_with_cancellation_def snoozed_def punctual_def
        dest: checkpoint_quiet sleep_loop_snoozed [OF is_sleeper(2)] split: if_splits option.splits)
qed

section \<open>The loop\<close>

lemma valid_policy:
  assumes "ProviderPolicy q = Some p"
  shows "1 \<le> pp_max_attempts p" "0 \<le> pp_initial_backoff p" "0 \<le> pp_max_backoff p"
    "0 \<le> pp_max_retry_after p" "1 \<le> pp_multiplier p" "0 \<le> longest_delay p"
  using assms by (auto simp: ProviderPolicy_def longest_delay_def split: if_splits)

lemma retry_delay_bounds:
  assumes "ProviderPolicy q = Some p" "\<And>r. ra = Some r \<Longrightarrow> r \<le> pp_max_retry_after p"
  shows "0 \<le> retry_delay p k ra" "retry_delay p k ra \<le> longest_delay p"
proof -
  note v = valid_policy [OF assms(1)]
  have "0 \<le> pp_initial_backoff p * pp_multiplier p ^ n" for n using v by simp
  then show "0 \<le> retry_delay p k ra"
    using v by (auto simp: retry_delay_def Let_def le_max_iff_disj split: option.splits)
  show "retry_delay p k ra \<le> longest_delay p"
    using assms(2) v by (auto simp: retry_delay_def longest_delay_def Let_def min_le_iff_disj
        le_max_iff_disj split: option.splits)
qed

definition result_ok :: "provider_policy \<Rightarrow> 'a call_ended list \<Rightarrow> 'a result \<Rightarrow> bool" where
  "result_ok p new r =
     (case r of
        Returned v \<Rightarrow> new \<noteq> [] \<and> hd new = Finished v
      | RaisedError e \<Rightarrow> 1 \<le> er_attempts e \<and> er_attempts e \<le> pp_max_attempts p \<and>
          er_max_attempts e = pp_max_attempts p
      | RaisedAssertion \<Rightarrow> False
      | _ \<Rightarrow> True)"

definition provider_run_ok ::
    "'a provider_env \<Rightarrow> call_context \<Rightarrow> provider_policy \<Rightarrow> int \<Rightarrow> 'a event list \<Rightarrow> 'a result \<Rightarrow> 'a event list \<Rightarrow> bool" where
  "provider_run_ok en ctx p k l r l' \<longleftrightarrow>
     (\<exists>new. calls l' = new @ calls l \<and> int (length new) \<le> pp_max_attempts p + 1 - k \<and>
        list_all (may_retry en ctx p) (tl new) \<and> result_ok p new r) \<and>
     slept l' \<le> slept l + of_int (pp_max_attempts p - k) * longest_delay p \<and>
     (punctual ctx l \<longrightarrow> punctual ctx l')"

lemma run_ok_later:
  assumes "provider_run_ok en ctx p (k + 1) l1 r l'" "calls l1 = c # calls l" "may_retry en ctx p c"
    "slept l1 \<le> slept l + longest_delay p" "punctual ctx l \<Longrightarrow> punctual ctx l1"
  shows "provider_run_ok en ctx p k l r l'"
proof -
  obtain new where n: "calls l' = new @ calls l1" "int (length new) \<le> pp_max_attempts p - k"
    "list_all (may_retry en ctx p) (tl new)" "result_ok p new r"
    using assms(1) by (auto simp: provider_run_ok_def)
  have t: "list_all (may_retry en ctx p) (tl (new @ [c]))"
    using n(3) assms(3) by (cases new) auto
  have r: "result_ok p (new @ [c]) r" using n(4) by (auto simp: result_ok_def split: result.splits)
  have "slept l' \<le> slept l1 + of_int (pp_max_attempts p - (k + 1)) * longest_delay p"
    using assms(1) by (simp add: provider_run_ok_def)
  then have "slept l' \<le> slept l + of_int (pp_max_attempts p - k) * longest_delay p"
    using assms(4) by (simp add: algebra_simps)
  moreover have "punctual ctx l \<longrightarrow> punctual ctx l'" using assms(1,5) by (simp add: provider_run_ok_def)
  ultimately show ?thesis
    unfolding provider_run_ok_def using n(1,2) t r assms(2) by (intro conjI exI [of _ "new @ [c]"]) auto
qed

lemma run_ok_now:
  assumes "calls l' = new @ calls l" "length new \<le> 1" "k \<le> pp_max_attempts p"
    "slept l' \<le> slept l + of_int (pp_max_attempts p - k) * longest_delay p"
    "punctual ctx l \<Longrightarrow> punctual ctx l'" "result_ok p new r"
  shows "provider_run_ok en ctx p k l r l'"
proof -
  have "tl new = []" using assms(2) by (cases new) auto
  then show ?thesis
    unfolding provider_run_ok_def using assms by (intro conjI exI [of _ new]) auto
qed

lemma punctual_call:
  assumes "ready ctx l" "punctual ctx l" "l1 = l \<or> (\<exists>c. l1 = EvClock c # l)"
  shows "punctual ctx (EvCall r # l1)"
  using assms by (auto simp: ready_def punctual_def split: option.splits)

lemma stopped_ok:
  assumes "stop_ok k (pp_max_attempts p) (Some s)" "1 \<le> k" "k \<le> pp_max_attempts p"
  shows "result_ok p new (stopped s)"
  using assms by (cases s) (auto simp: stop_ok_def result_ok_def)

lemma escapes_ok: "escapes r \<Longrightarrow> result_ok p new r"
  by (auto simp: escapes_def result_ok_def)

lemma no_sleep_ok:
  assumes "k \<le> pp_max_attempts p" "0 \<le> longest_delay p" "x \<le> (y :: rat)"
  shows "x \<le> y + of_int (pp_max_attempts p - k) * longest_delay p"
proof -
  have "0 \<le> of_int (pp_max_attempts p - k) * longest_delay p"
    using assms(1,2) by (intro mult_nonneg_nonneg) auto
  then show ?thesis using assms(3) by simp
qed

lemma one_sleep_ok:
  assumes "k < pp_max_attempts p" "0 \<le> longest_delay p" "x \<le> (y :: rat) + longest_delay p"
  shows "x \<le> y + of_int (pp_max_attempts p - k) * longest_delay p"
proof -
  have "1 * longest_delay p \<le> of_int (pp_max_attempts p - k) * longest_delay p"
    using assms(1,2) by (intro mult_right_mono) auto
  then show ?thesis using assms(3) by simp
qed

context retry_parts
begin

lemma after_failure_ok:
  assumes v: "ProviderPolicy q = Some p" and k: "k \<le> pp_max_attempts p"
    and a: "after_failure snooze en ctx p k e l = (s, l')"
    and e: "stop_ok k (pp_max_attempts p) (Some (StopError e))"
  shows "calls l' = calls l" "punctual ctx l' = punctual ctx l" "stop_ok k (pp_max_attempts p) s"
    "slept l' \<le> slept l + of_int (pp_max_attempts p - k) * longest_delay p"
    "s = None \<Longrightarrow> k < pp_max_attempts p \<and> error_retryable e \<and> slept l' \<le> slept l + longest_delay p \<and>
       (case er_retry_after e of None \<Rightarrow> True | Some r \<Rightarrow> r \<le> pp_max_retry_after p)"
proof -
  let ?d = "retry_delay p k (er_retry_after e)" and ?m = "pp_max_attempts p"
  let ?ok = "calls l' = calls l \<and> punctual ctx l' = punctual ctx l \<and> stop_ok k ?m s \<and>
    slept l' \<le> slept l + of_int (?m - k) * longest_delay p \<and>
    (s = None \<longrightarrow> k < ?m \<and> error_retryable e \<and> slept l' \<le> slept l + longest_delay p \<and>
       (case er_retry_after e of None \<Rightarrow> True | Some r \<Rightarrow> r \<le> pp_max_retry_after p))"
  note L = valid_policy(6) [OF v]
  have ?ok
  proof (cases "\<not> error_retryable e \<or> ?m \<le> k \<or>
      (case er_retry_after e of None \<Rightarrow> False | Some r \<Rightarrow> pp_max_retry_after p < r)")
    case True
    then have "s = Some (StopError e)" "l' = l" using a by (auto simp: after_failure_def split: if_splits)
    then show ?thesis using e no_sleep_ok [OF k L order_refl] by simp
  next
    case False
    then have r: "error_retryable e" "k < ?m"
      "\<And>r. er_retry_after e = Some r \<Longrightarrow> r \<le> pp_max_retry_after p" by auto
    have d: "0 \<le> ?d" "?d \<le> longest_delay p" using retry_delay_bounds [OF v, of "er_retry_after e" k] r(3) by auto
    obtain c l1 where c: "ensure_retry_fits_deadline en ctx ?d k ?m l = (c, l1)" by fastforce
    note q = ensure_quiet [OF c]
    have "snoozed ctx l l' ?d k ?m s"
    proof (cases c)
      case None
      then have "snooze en ?d ctx p k l1 = (s, l')" using a False c by (simp add: after_failure_def Let_def)
      from snooze_ok [OF this] d(1) show ?thesis using q by (simp add: snoozed_def)
    next
      case (Some x)
      then show ?thesis using a False c q d(1) by (simp add: after_failure_def Let_def snoozed_def)
    qed
    then have z: "calls l' = calls l" "punctual ctx l' = punctual ctx l" "stop_ok k ?m s"
      "slept l' \<le> slept l + longest_delay p" using d(2) by (auto simp: snoozed_def)
    show ?thesis using z r one_sleep_ok [OF r(2) L z(4)] by (auto split: option.splits)
  qed
  then show "calls l' = calls l" "punctual ctx l' = punctual ctx l" "stop_ok k ?m s"
    "slept l' \<le> slept l + of_int (?m - k) * longest_delay p"
    "s = None \<Longrightarrow> k < ?m \<and> error_retryable e \<and> slept l' \<le> slept l + longest_delay p \<and>
       (case er_retry_after e of None \<Rightarrow> True | Some r \<Rightarrow> r \<le> pp_max_retry_after p)"
    by blast+
qed

text \<open>The branch of a failed attempt: it stops, or sleeps and goes on with the next attempt.\<close>

lemma failed_attempt_ok:
  assumes v: "ProviderPolicy q = Some p" and k: "1 \<le> k" "k \<le> pp_max_attempts p"
    and t: "once en ctx p k l1 = (Failed e, l2)"
    and d: "after_failure snooze en ctx p k e l2 = (d, l3)"
    and seen: "calls l2 = x # calls l" "slept l2 = slept l" "punctual ctx l \<Longrightarrow> punctual ctx l2"
    and retry: "error_retryable e \<Longrightarrow> caught en ctx k (pp_max_attempts p) x = Failed e"
    and stop: "\<And>s. d = Some s \<Longrightarrow> r = stopped s \<and> l' = l3"
    and go_on: "d = None \<Longrightarrow> k < pp_max_attempts p \<Longrightarrow> provider_run_ok en ctx p (k + 1) l3 r l'"
  shows "provider_run_ok en ctx p k l r l'"
proof -
  have e: "stop_ok k (pp_max_attempts p) (Some (StopError e))" using once_error [OF t] by (simp add: stop_ok_def)
  note d' = after_failure_ok [OF v k(2) d e]
  show ?thesis
  proof (cases d)
    case (Some s)
    note e = stop [OF Some]
    show ?thesis unfolding conjunct1 [OF e] conjunct2 [OF e]
      by (rule run_ok_now [where new = "[x]"]) (use d' seen k Some stopped_ok [OF _ k] in auto)
  next
    case None
    note n = d'(5) [OF None]
    obtain e' where "caught en ctx 1 (pp_max_attempts p) x = Failed e'" "er_code e' = er_code e"
      "er_retry_after e' = er_retry_after e" using caught_Failed(3) [OF retry] n by blast
    then have m: "may_retry en ctx p x" using n by (simp add: may_retry_def error_retryable_def)
    have "provider_run_ok en ctx p (k + 1) l3 r l'" using go_on None n by blast
    then show ?thesis by (rule run_ok_later) (use m d' n seen in auto)
  qed
qed

lemma retry_from_ok:
  "ProviderPolicy q = Some p \<Longrightarrow> 1 \<le> k \<Longrightarrow> k \<le> pp_max_attempts p \<Longrightarrow>
     retry_from once snooze en ctx p k l = (r, l') \<Longrightarrow> provider_run_ok en ctx p k l r l'"
proof (induction "nat (pp_max_attempts p - k)" arbitrary: k l rule: less_induct)
  case less
  let ?m = "pp_max_attempts p"
  note L = valid_policy(6) [OF less(2)] and k = less(3,4)
  note quiet = no_sleep_ok [OF k(2) L order_refl]
  obtain c l1 where c: "provider_checkpoint en ctx k ?m l = (c, l1)" by fastforce
  note c' = checkpoint_quiet [OF c]
  obtain t l2 where t: "once en ctx p k l1 = (t, l2)" by fastforce
  obtain x l1' where l2: "l2 = EvCall x # l1'" "l1' = l1 \<or> (\<exists>c. l1' = EvClock c # l1)"
    and got: "\<And>v. t = Got v \<Longrightarrow> x = Finished v"
    and retry: "\<And>e. t = Failed e \<Longrightarrow> error_retryable e \<Longrightarrow> caught en ctx k ?m x = Failed e"
    using once_call [OF t] by auto
  have seen: "calls l2 = x # calls l" "slept l2 = slept l" using l2 c'(1,2) by auto
  have tidy: "punctual ctx l2" if "c = None" "punctual ctx l"
    using punctual_call [of ctx l1 l1' x] l2 c' that by simp
  note step = less(5) [unfolded retry_from.simps [of once snooze en ctx p k l]]
  show ?case
  proof (cases c)
    case (Some s)
    then have e: "r = stopped s" "l' = l1" using step c k by auto
    show ?thesis unfolding e
      by (rule run_ok_now [where new = "[]"]) (use c' Some stopped_ok [OF _ k] quiet k in auto)
  next
    case None
    show ?thesis
    proof (cases t)
      case (Got v)
      obtain d l3 where d: "provider_checkpoint en ctx k ?m l2 = (d, l3)" by fastforce
      note d' = checkpoint_quiet [OF d]
      have e: "l' = l3" "r = (case d of Some s \<Rightarrow> stopped s | None \<Rightarrow> Returned v)"
        using step c None t Got d k by (auto split: option.splits)
      have ok: "result_ok p [x] (case d of Some s \<Rightarrow> stopped s | None \<Rightarrow> Returned v)"
        using got [OF Got] d'(4) stopped_ok [OF _ k] by (auto simp: result_ok_def [of _ _ "Returned v"] split: option.splits)
      show ?thesis unfolding e
        by (rule run_ok_now [where new = "[x]"]) (use d' seen quiet k tidy None ok in auto)
    next
      case (Leaves y)
      then have e: "l' = l2" "r = y" using step c None t k by auto
      show ?thesis unfolding e
        by (rule run_ok_now [where new = "[x]"])
           (use seen quiet k tidy None escapes_ok [OF once_leaves] t Leaves in auto)
    next
      case (Failed e)
      obtain d l3 where d: "after_failure snooze en ctx p k e l2 = (d, l3)" by fastforce
      show ?thesis
      proof (rule failed_attempt_ok [OF less(2) k t [unfolded Failed] d seen])
        show "punctual ctx l2" if "punctual ctx l" using tidy None that by blast
        show "caught en ctx k ?m x = Failed e" if "error_retryable e" using retry Failed that by blast
        show "r = stopped s \<and> l' = l3" if "d = Some s" for s using step c None t Failed d k that by simp
        show "provider_run_ok en ctx p (k + 1) l3 r l'" if "d = None" "k < ?m"
          using step c None t Failed d k that less(1) [of "k + 1"] less(2) by simp
      qed
    qed
  qed
qed

lemma run_bounds:
  assumes "ProviderPolicy q = Some p" "retry_from once snooze en ctx p 1 [] = (r, l)"
  shows "int (length (calls l)) \<le> pp_max_attempts p \<and> list_all (may_retry en ctx p) (tl (calls l)) \<and>
    slept l \<le> of_int (pp_max_attempts p - 1) * longest_delay p \<and> punctual ctx l \<and> result_ok p (calls l) r"
proof -
  have "provider_run_ok en ctx p 1 [] r l"
    using retry_from_ok [OF assms(1) _ _ assms(2)] valid_policy(1) [OF assms(1)] by simp
  then show ?thesis by (auto simp: provider_run_ok_def punctual_def split: option.splits)
qed

end

lemmas call_bounds = sync.run_bounds [folded call_def]

lemmas acall_bounds = async.run_bounds [folded acall_def]

text \<open>
  C28. A provider call under an accepted policy, synchronous or asynchronous, always ends, and whatever
  the clock, the probe and the provider answer: the function is called at most \<open>max_attempts\<close> times;
  every call but the last ended in a retryable failure whose Retry-After is within the policy; the
  sleeps together are at most \<open>max_attempts - 1\<close> times the larger of the two delay limits; with a
  deadline, no call starts without the clock having been read before the deadline since the previous
  call or sleep; a returned value is the one of the last call; an error counts between 1 and
  \<open>max_attempts\<close> attempts; and the assertion after the loop never fails.
\<close>

theorem provider_call_bounded:
  assumes "ProviderPolicy q = Some p" "call en ctx p = (r, l) \<or> acall en ctx p = (r, l)"
  shows "int (length (calls l)) \<le> pp_max_attempts p \<and>
    list_all (may_retry en ctx p) (tl (calls l)) \<and>
    slept l \<le> of_int (pp_max_attempts p - 1) * max (pp_max_backoff p) (pp_max_retry_after p) \<and>
    (\<forall>d. cc_deadline ctx = Some d \<longrightarrow> in_time d l) \<and>
    (\<forall>v. r = Returned v \<longrightarrow> calls l \<noteq> [] \<and> hd (calls l) = Finished v) \<and>
    (\<forall>e. r = RaisedError e \<longrightarrow> 1 \<le> er_attempts e \<and> er_attempts e \<le> pp_max_attempts p) \<and>
    r \<noteq> RaisedAssertion"
proof -
  have b: "int (length (calls l)) \<le> pp_max_attempts p" "list_all (may_retry en ctx p) (tl (calls l))"
    "slept l \<le> of_int (pp_max_attempts p - 1) * longest_delay p" "punctual ctx l" "result_ok p (calls l) r"
    using call_bounds [OF assms(1)] acall_bounds [OF assms(1)] assms(2) by blast+
  show ?thesis
    using b(1-3) b(4) [unfolded punctual_def] b(5) [unfolded result_ok_def]
    unfolding longest_delay_def by (intro conjI) (auto split: result.splits)
qed

section \<open>An example\<close>

text \<open>
  A reranking service that answers 429 with a Retry-After of one second, then times out, then
  answers; the clock advances by a quarter of a second with every event.
\<close>

definition ex_lib :: py_lib where
  "ex_lib = \<lparr> pl_float = (\<lambda>s. map_option of_int (py_int s)), pl_http_date = (\<lambda>s. None), pl_str = (\<lambda>j. []) \<rparr>"

definition ex_exc :: exc_obj where
  "ex_exc = \<lparr> xo_cause = None, xo_context = None, xo_status_code = None, xo_status = None,
     xo_response_status_code = None, xo_response_status = None, xo_headers = None,
     xo_response_headers = None, xo_retry_after_seconds = None, xo_retry_after = None,
     xo_is_timeout_error = False, xo_mro_names = [''Exception''] \<rparr>"

definition ex_heap :: exc_heap where
  "ex_heap i = (if i = 0 then ex_exc\<lparr>xo_response_status_code := Some (AInt 429),
       xo_response_headers := Some \<lparr> ho_retry_after = None, ho_retry_after_lower = Some (AStr ''1'') \<rparr>\<rparr>
     else if i = 1 then ex_exc\<lparr>xo_cause := Some 2\<rparr>
     else ex_exc\<lparr>xo_cause := Some 1, xo_mro_names := [''ReadTimeout'', ''Exception'']\<rparr>)"

definition ex_fn :: "nat event list \<Rightarrow> nat call_ended" where
  "ex_fn l = (if length (calls l) < 2 then Threw (RaisedOther (length (calls l))) else Finished 7)"

definition ex_env :: "nat provider_env" where
  "ex_env = \<lparr> en_cancellation = (\<lambda>l. False), en_clock = (\<lambda>l. of_nat (length l) / 4), en_fn = ex_fn,
     en_await = (\<lambda>l. \<lparr> aw_waited = TaskDone (ex_fn l), aw_expired = False, aw_cancelled_outside = False \<rparr>),
     en_lib = ex_lib, en_heap = ex_heap \<rparr>"

definition ex_ctx :: call_context where
  "ex_ctx = \<lparr> cc_provider = ''rerank-1'', cc_operation = RERANK, cc_deadline = Some 60, cc_cancellable = True \<rparr>"

definition ex_policy :: provider_policy where
  "ex_policy = default_provider_policy\<lparr>pp_poll := 1 / 2\<rparr>"

lemma ex_policy_valid: "ProviderPolicy ex_policy = Some ex_policy"
  by code_simp

definition ex_summary :: "nat result \<times> nat event list \<Rightarrow> nat result \<times> nat \<times> rat" where
  "ex_summary x = (case x of (r, l) \<Rightarrow> (r, length (calls l), slept l))"

lemma ex_call: "ex_summary (call ex_env ex_ctx ex_policy) = (Returned 7, 3, 6 / 5)"
  by code_simp

theorem provider_call_bounded_witness:
  "ex_summary (call ex_env ex_ctx ex_policy) = (Returned 7, 3, 6 / 5) \<and>
   in_time 60 (snd (call ex_env ex_ctx ex_policy))"
proof -
  have "call ex_env ex_ctx ex_policy = (fst (call ex_env ex_ctx ex_policy), snd (call ex_env ex_ctx ex_policy))"
    by simp
  from provider_call_bounded [OF ex_policy_valid disjI1 [OF this]]
  have "\<forall>d. cc_deadline ex_ctx = Some d \<longrightarrow> in_time d (snd (call ex_env ex_ctx ex_policy))" by blast
  moreover have "cc_deadline ex_ctx = Some 60" by (simp add: ex_ctx_def)
  ultimately show ?thesis using ex_call by blast
qed

section \<open>Snapshots\<close>

lemma parse_code_value: "parse_code (Some (JStr (provider_code_value c))) = Some c"
  by (cases c) (simp_all add: parse_code_def all_provider_codes_def)

lemma parse_operation_value: "parse_operation (Some (JStr (operation_value c))) = Some c"
  by (cases c) (simp_all add: parse_operation_def all_provider_operations_def)

lemma unknown_provider_stripped: "py_strip ''unknown-provider'' = ''unknown-provider''"
  by code_simp

lemma safe_identifier_idem: "safe_identifier (safe_identifier v ''unknown-provider'') ''unknown-provider'' =
    safe_identifier v ''unknown-provider''"
  by (auto simp: safe_identifier_def Let_def unknown_provider_stripped)

lemma safe_identifier_nonempty: "safe_identifier v ''unknown-provider'' \<noteq> []"
  by (auto simp: safe_identifier_def Let_def)

lemma to_snapshot_fields:
  "map_of (to_snapshot e) ''code'' = Some (JStr (provider_code_value (er_code e)))"
  "map_of (to_snapshot e) ''operation'' = Some (JStr (operation_value (er_operation e)))"
  "map_of (to_snapshot e) ''provider'' = Some (JStr (er_provider e))"
  "map_of (to_snapshot e) ''retry_after_seconds'' = Some (jopt JNum (er_retry_after e))"
  "map_of (to_snapshot e) ''attempts'' = Some (JInt (er_attempts e))"
  "map_of (to_snapshot e) ''max_attempts'' = Some (JInt (er_max_attempts e))"
  by (simp_all add: to_snapshot_def)

lemma snapshot_count_positive: "1 \<le> i \<Longrightarrow> snapshot_count (Some (JInt i)) = Some i"
  by (simp add: snapshot_count_def attr_int_def)

lemma snapshot_retry_after:
  "(\<And>q. r = Some q \<Longrightarrow> 0 \<le> q) \<Longrightarrow> finite_non_negative lib (Some (json_attr (jopt JNum r))) = r"
  by (cases r) (auto simp: finite_non_negative_def py_float_def not_less)

text \<open>
  C29. Reading back a snapshot gives the error again: every provider error, of any code, context,
  Retry-After and attempt counts, survives \<open>to_snapshot\<close> and \<open>from_snapshot\<close> unchanged.
\<close>

theorem provider_snapshot_roundtrip:
  "from_snapshot lib (to_snapshot (ProviderError code ctx retry_after attempts max_attempts)) =
     Some (ProviderError code ctx retry_after attempts max_attempts)"
proof -
  let ?e = "ProviderError code ctx retry_after attempts max_attempts"
  have p: "er_provider ?e = safe_identifier (cc_provider ctx) ''unknown-provider''"
    by (simp add: ProviderError_def)
  have r: "finite_non_negative lib (Some (json_attr (jopt JNum (er_retry_after ?e)))) = er_retry_after ?e"
    by (rule snapshot_retry_after) (auto simp: ProviderError_def split: option.splits if_splits)
  have q: "snapshot_provider lib (Some (JStr (er_provider ?e))) = er_provider ?e"
    unfolding p snapshot_provider_def by (simp add: safe_identifier_nonempty)
  have n: "snapshot_count (Some (JInt (er_attempts ?e))) = Some (er_attempts ?e)"
    "snapshot_count (Some (JInt (er_max_attempts ?e))) = Some (er_max_attempts ?e)"
    by (simp_all add: snapshot_count_positive ProviderError_def)
  have "from_snapshot lib (to_snapshot ?e) =
      Some (from_code (er_code ?e) (er_provider ?e) (er_operation ?e) (er_retry_after ?e)
        (er_attempts ?e) (er_max_attempts ?e))"
    unfolding from_snapshot_def to_snapshot_fields parse_code_value parse_operation_value n option.map r q
    by simp
  also have "\<dots> = Some ?e"
    by (simp add: from_code_def plain_context_def ProviderError_def safe_identifier_idem
        split: option.split)
  finally show ?thesis .
qed

end
