(* ===== verification/Rerank.thy ===== *)
theory Rerank
  imports Provider_Executor "HOL-Library.AList"
begin

text \<open>
  Reranking: the circuit breaker and the response check of \<^verbatim>\<open>HttpxRerankerAdapter\<close> in
  \<^verbatim>\<open>src/backend/providers/rerank.py\<close> and \<^verbatim>\<open>RerankStage\<close> of \<^verbatim>\<open>src/backend/rag/reranking.py\<close>. Every
  access to the breaker is under its lock, so an operation is one step; a call holds its permit from
  its admission to the transition that its outcome schedules. The HTTP client is not part of the
  source: its outcome is the result of \<open>acall\<close>, and a body is a JSON value, whose numbers are finite.
\<close>

section \<open>The circuit breaker\<close>

record rerank_item =
  ri_index :: int
  ri_score :: rat

record circuit_permit =
  pm_generation :: int
  pm_half_open :: bool

record circuit =
  cb_failures :: int
  cb_open_until :: "rat option"
  cb_half_open :: bool
  cb_generation :: int

record circuit_config =
  cg_threshold :: int
  cg_reset :: rat
  cg_timeout :: rat

definition positive_config :: "circuit_config \<Rightarrow> bool" where
  "positive_config g \<longleftrightarrow> 0 < cg_threshold g \<and> 0 < cg_reset g \<and> 0 < cg_timeout g"

definition circuit_init :: circuit where
  "circuit_init = \<lparr> cb_failures = 0, cb_open_until = None, cb_half_open = False, cb_generation = 0 \<rparr>"

text \<open>\<open>cancelled\<close> is what the probe answers, if there is one, and \<open>now\<close> what the clock shows.\<close>

definition checkpoint_context :: "call_context \<Rightarrow> bool \<Rightarrow> rat \<Rightarrow> stop option" where
  "checkpoint_context ctx cancelled now =
     (if cc_cancellable ctx \<and> cancelled then Some StopCancelled
      else case cc_deadline ctx of
        None \<Rightarrow> None
      | Some d \<Rightarrow> if d \<le> now then Some (StopError (deadline_exceeded ctx 1 1)) else None)"

definition circuit_refusal :: "call_context \<Rightarrow> stop" where
  "circuit_refusal ctx = StopError (ProviderError P_RERANK_CIRCUIT_OPEN ctx None 1 1)"

definition before_circuit_call ::
    "call_context \<Rightarrow> bool \<Rightarrow> rat \<Rightarrow> rat \<Rightarrow> circuit \<Rightarrow> stop + circuit_permit \<times> circuit" where
  "before_circuit_call ctx cancelled t now c =
     (case checkpoint_context ctx cancelled t of
        Some s \<Rightarrow> Inl s
      | None \<Rightarrow>
          if cb_half_open c then Inl (circuit_refusal ctx)
          else case cb_open_until c of
            None \<Rightarrow> Inr (\<lparr> pm_generation = cb_generation c, pm_half_open = False \<rparr>, c)
          | Some u \<Rightarrow>
              if now < u then Inl (circuit_refusal ctx)
              else Inr (\<lparr> pm_generation = cb_generation c + 1, pm_half_open = True \<rparr>,
                        c\<lparr>cb_half_open := True, cb_open_until := None,
                          cb_generation := cb_generation c + 1\<rparr>))"

definition record_circuit_success :: "circuit_permit \<Rightarrow> circuit \<Rightarrow> circuit" where
  "record_circuit_success pm c =
     (if pm_generation pm \<noteq> cb_generation c then c
      else c\<lparr>cb_failures := 0, cb_open_until := None, cb_half_open := False,
             cb_generation := (if pm_half_open pm then cb_generation c + 1 else cb_generation c)\<rparr>)"

definition record_circuit_failure ::
    "circuit_config \<Rightarrow> provider_error \<Rightarrow> rat \<Rightarrow> circuit_permit \<Rightarrow> circuit \<Rightarrow> circuit" where
  "record_circuit_failure g e now pm c =
     (if pm_generation pm \<noteq> cb_generation c then c
      else let c = c\<lparr>cb_half_open := False\<rparr>
           in if error_retryable e \<and> er_code e \<noteq> P_RERANK_CIRCUIT_OPEN
              then let c = c\<lparr>cb_failures := cb_failures c + 1\<rparr>
                   in if cg_threshold g \<le> cb_failures c
                      then c\<lparr>cb_open_until := Some (now + cg_reset g),
                             cb_generation := cb_generation c + 1\<rparr>
                      else c
              else c\<lparr>cb_failures := 0, cb_open_until := None,
                     cb_generation := (if pm_half_open pm then cb_generation c + 1 else cb_generation c)\<rparr>)"

definition abort_circuit_trial :: "rat \<Rightarrow> circuit_permit \<Rightarrow> circuit \<Rightarrow> circuit" where
  "abort_circuit_trial now pm c =
     (if \<not> pm_half_open pm then c
      else if pm_generation pm \<noteq> cb_generation c then c
      else c\<lparr>cb_half_open := False, cb_open_until := Some now, cb_generation := cb_generation c + 1\<rparr>)"

text \<open>
  The call: \<open>rerank_begin\<close> is everything before the executor is entered, where \<open>shut\<close> says that the
  adapter is closed or closing and the probe and the clock are read at most four times; \<open>rerank_end\<close> the handling
  of its outcome. An empty list of documents needs no permit.
\<close>

definition stage_deadline :: "circuit_config \<Rightarrow> rat \<Rightarrow> rat option \<Rightarrow> rat" where
  "stage_deadline g now deadline =
     (let configured = now + cg_timeout g
      in case deadline of None \<Rightarrow> configured | Some d \<Rightarrow> min d configured)"

datatype begun = BadTopN | BeginStopped stop | NoDocuments | Admitted circuit_permit circuit call_context

definition rerank_begin ::
    "circuit_config \<Rightarrow> string \<Rightarrow> bool \<Rightarrow> string list \<Rightarrow> int \<Rightarrow> rat option \<Rightarrow> bool \<Rightarrow> (nat \<Rightarrow> bool) \<Rightarrow> (nat \<Rightarrow> rat)
      \<Rightarrow> circuit \<Rightarrow> begun" where
  "rerank_begin g model shut documents top_n deadline cancellable probe clock c =
     (if top_n \<le> 0 then BadTopN
      else if cancellable \<and> probe 0 then BeginStopped StopCancelled
      else if documents = [] then NoDocuments
      else let ctx = \<lparr> cc_provider = model, cc_operation = RERANK,
                       cc_deadline = Some (stage_deadline g (clock 0) deadline), cc_cancellable = cancellable \<rparr>
           in case checkpoint_context ctx (probe 1) (clock 1) of
                Some s \<Rightarrow> BeginStopped s
              | None \<Rightarrow>
                  if shut then BeginStopped (StopError (ProviderError P_RERANK_UNAVAILABLE ctx None 1 1))
                  else case before_circuit_call ctx (probe 2) (clock 2) (clock 3) c of
                    Inl s \<Rightarrow> BeginStopped s
                  | Inr (pm, c') \<Rightarrow> Admitted pm c' ctx)"

fun rerank_end :: "circuit_config \<Rightarrow> rat \<Rightarrow> circuit_permit \<Rightarrow> 'a result \<Rightarrow> circuit \<Rightarrow> circuit" where
  "rerank_end g now pm (Returned v) c = record_circuit_success pm c"
| "rerank_end g now pm (RaisedError e) c = record_circuit_failure g e now pm c"
| "rerank_end g now pm RaisedCancelled c = abort_circuit_trial now pm c"
| "rerank_end g now pm RaisedBaseException c = abort_circuit_trial now pm c"
| "rerank_end g now pm RaisedAssertion c = abort_circuit_trial now pm c"

section \<open>The response\<close>

text \<open>\<open>ParseOverflow\<close> is the \<open>OverflowError\<close> of \<open>float(score)\<close>, which the executor classifies.\<close>

datatype parsed = Parsed "rerank_item list" | ParseInvalid | ParseOverflow

fun parse_items :: "int \<Rightarrow> int list \<Rightarrow> json list \<Rightarrow> parsed" where
  "parse_items n seen [] = Parsed []"
| "parse_items n seen (item # rest) =
     (case item of
        JObj kvs \<Rightarrow>
          (case map_of kvs ''index'' of
             Some (JInt index) \<Rightarrow>
               if \<not> (0 \<le> index \<and> index < n) \<or> index \<in> set seen then ParseInvalid
               else (case map_of kvs ''relevance_score'' of
                   Some (JInt s) \<Rightarrow>
                     if float_overflow (of_int s) then ParseOverflow
                     else (case parse_items n (index # seen) rest of
                         Parsed items \<Rightarrow> Parsed (\<lparr> ri_index = index, ri_score = of_int s \<rparr> # items)
                       | x \<Rightarrow> x)
                 | Some (JNum q) \<Rightarrow>
                     (case parse_items n (index # seen) rest of
                         Parsed items \<Rightarrow> Parsed (\<lparr> ri_index = index, ri_score = q \<rparr> # items)
                       | x \<Rightarrow> x)
                 | _ \<Rightarrow> ParseInvalid)
           | _ \<Rightarrow> ParseInvalid)
      | _ \<Rightarrow> ParseInvalid)"

definition parse_response :: "json option \<Rightarrow> int \<Rightarrow> int \<Rightarrow> parsed" where
  "parse_response body document_count top_n =
     (case body of
        Some (JObj kvs) \<Rightarrow>
          (case map_of kvs ''results'' of
             Some (JList results) \<Rightarrow>
               if results = [] \<or> top_n < int (length results) then ParseInvalid
               else parse_items document_count [] results
           | _ \<Rightarrow> ParseInvalid)
      | _ \<Rightarrow> ParseInvalid)"

section \<open>The rerank stage\<close>

type_synonym document = "(string \<times> json) list"

record stage_config =
  sg_candidate_limit :: int
  sg_max_document :: int
  sg_max_total :: int
  sg_min_score :: rat
  sg_enabled :: bool
  sg_model :: string
  sg_timeout :: rat

definition RerankStage :: "stage_config \<Rightarrow> stage_config option" where
  "RerankStage g =
     (if 0 < sg_candidate_limit g \<and> 0 < sg_max_document g \<and> 0 < sg_max_total g then Some g else None)"

fun with_recall_rank_from :: "int \<Rightarrow> document list \<Rightarrow> document list" where
  "with_recall_rank_from i [] = []"
| "with_recall_rank_from i (d # ds) = AList.update ''rrf_rank'' (JInt i) d # with_recall_rank_from (i + 1) ds"

definition with_recall_rank :: "document list \<Rightarrow> document list" where
  "with_recall_rank ds = with_recall_rank_from 1 ds"

definition document_text :: "py_lib \<Rightarrow> document \<Rightarrow> string" where
  "document_text lib d =
     (case map_of d ''text'' of
        None \<Rightarrow> [] | Some JNull \<Rightarrow> [] | Some (JStr s) \<Rightarrow> s | Some j \<Rightarrow> pl_str lib j)"

record bounds =
  bd_candidates :: "document list"
  bd_payload :: "string list"
  bd_total :: int
  bd_truncated :: int

fun bounded_loop :: "py_lib \<Rightarrow> stage_config \<Rightarrow> document list \<Rightarrow> bounds \<Rightarrow> bounds" where
  "bounded_loop lib g [] b = b"
| "bounded_loop lib g (d # ds) b =
     (if sg_max_total g \<le> bd_total b then b
      else let text = document_text lib d;
               bounded = py_take (nat (sg_max_document g)) text;
               remaining = sg_max_total g - bd_total b;
               bounded = py_take (nat remaining) bounded
           in bounded_loop lib g ds
                \<lparr> bd_candidates = bd_candidates b @ [d], bd_payload = bd_payload b @ [bounded],
                  bd_total = bd_total b + int (py_len bounded),
                  bd_truncated = bd_truncated b + (if bounded \<noteq> text then 1 else 0) \<rparr>)"

definition bounded_candidates :: "py_lib \<Rightarrow> stage_config \<Rightarrow> document list \<Rightarrow> bounds" where
  "bounded_candidates lib g ds =
     bounded_loop lib g (take (nat (sg_candidate_limit g)) ds)
       \<lparr> bd_candidates = [], bd_payload = [], bd_total = 0, bd_truncated = 0 \<rparr>"

definition bounds_meta :: "stage_config \<Rightarrow> document list \<Rightarrow> bounds \<Rightarrow> (string \<times> json) list" where
  "bounds_meta g ds b =
     [(''rerank_candidate_count'', JInt (int (length (bd_candidates b)))),
      (''rerank_candidate_limit'', JInt (sg_candidate_limit g)),
      (''rerank_candidate_limit_applied'', JBool (length (bd_candidates b) < length ds)),
      (''rerank_payload_characters'', JInt (bd_total b)),
      (''rerank_document_character_limit'', JInt (sg_max_document g)),
      (''rerank_total_character_limit'', JInt (sg_max_total g)),
      (''rerank_truncated_document_count'', JInt (bd_truncated b))]"

definition base_meta :: "stage_config \<Rightarrow> int \<Rightarrow> (string \<times> json) list" where
  "base_meta g candidate_count =
     [(''rerank_enabled'', JBool (sg_enabled g)), (''rerank_applied'', JBool False),
      (''rerank_model'', if sg_model g = [] then JNull else JStr (sg_model g)),
      (''rerank_error_code'', JNull), (''rerank_retryable'', JNull), (''rerank_attempts'', JInt 0),
      (''rerank_fallback_applied'', JBool False), (''rerank_timeout_seconds'', JNum (sg_timeout g)),
      (''rerank_min_score'', JNum (sg_min_score g)), (''rerank_threshold_applied'', JBool False),
      (''rerank_skip_reason'', JNull), (''candidate_count'', JInt candidate_count)]"

text \<open>\<open>meta.update\<close>.\<close>

definition meta_update :: "(string \<times> json) list \<Rightarrow> (string \<times> json) list \<Rightarrow> (string \<times> json) list" where
  "meta_update new meta = fold (\<lambda>(k, v). AList.update k v) new meta"

record rerank_result =
  rr_items :: "rerank_item list"
  rr_attempts :: int

definition invalid_result :: "stage_config \<Rightarrow> rat option \<Rightarrow> bool \<Rightarrow> int \<Rightarrow> provider_error" where
  "invalid_result g deadline cancellable attempts =
     ProviderError P_RERANK_INVALID_RESPONSE
       \<lparr> cc_provider = (if sg_model g = [] then ''reranker'' else sg_model g), cc_operation = RERANK,
         cc_deadline = deadline, cc_cancellable = cancellable \<rparr> None (max attempts 1) (max attempts 1)"

fun materialize_items :: "document list \<Rightarrow> int list \<Rightarrow> rerank_item list \<Rightarrow> document list option" where
  "materialize_items candidates seen [] = Some []"
| "materialize_items candidates seen (item # items) =
     (if \<not> (0 \<le> ri_index item \<and> ri_index item < int (length candidates)) \<or> ri_index item \<in> set seen
      then None
      else map_option
        (\<lambda>rest. AList.update ''rerank_score'' (JNum (ri_score item)) (candidates ! nat (ri_index item)) # rest)
        (materialize_items candidates (ri_index item # seen) items))"

definition materialize_result ::
    "stage_config \<Rightarrow> rat option \<Rightarrow> bool \<Rightarrow> rerank_result \<Rightarrow> document list \<Rightarrow> provider_error + document list" where
  "materialize_result g deadline cancellable r candidates =
     (let invalid = Inl (invalid_result g deadline cancellable (rr_attempts r))
      in if rr_items r = [] then invalid
         else case materialize_items candidates [] (rr_items r) of None \<Rightarrow> invalid | Some ds \<Rightarrow> Inr ds)"

definition passes_threshold :: "stage_config \<Rightarrow> document \<Rightarrow> bool" where
  "passes_threshold g d = (case map_of d ''rerank_score'' of Some (JNum q) \<Rightarrow> sg_min_score g \<le> q | _ \<Rightarrow> False)"

text \<open>
  What \<open>run_async\<close> ends with. \<open>provider\<close> is the injected reranker: given the query, the payload and
  \<open>top_n\<close> it answers, raises a provider error, or raises something that the stage does not catch.
\<close>

datatype provider_answer = Answered rerank_result | AnswerError provider_error | AnswerEscapes

datatype stage_outcome = StageCancelled | StageValueError | StageEscapes | StageOut "document list" "(string \<times> json) list"

definition fallback_counts :: "document list \<Rightarrow> (string \<times> json) list" where
  "fallback_counts ds =
     [(''post_rerank_count'', JInt (int (length ds))), (''post_threshold_count'', JInt (int (length ds)))]"

definition error_meta :: "provider_error \<Rightarrow> document list \<Rightarrow> (string \<times> json) list" where
  "error_meta e fallback =
     [(''rerank_error_code'', JStr (provider_code_value (er_code e))),
      (''rerank_retryable'', JBool (error_retryable e)), (''rerank_attempts'', JInt (er_attempts e)),
      (''rerank_fallback_applied'', JBool True)] @ fallback_counts fallback"

definition applied_meta :: "rerank_result \<Rightarrow> document list \<Rightarrow> document list \<Rightarrow> (string \<times> json) list" where
  "applied_meta r reranked thresholded =
     [(''rerank_applied'', JBool True), (''rerank_attempts'', JInt (rr_attempts r)),
      (''rerank_threshold_applied'', JBool True),
      (''post_rerank_count'', JInt (int (length reranked))),
      (''post_threshold_count'', JInt (int (length thresholded)))]"

definition run_provider ::
    "py_lib \<Rightarrow> stage_config \<Rightarrow> (string \<Rightarrow> string list \<Rightarrow> int \<Rightarrow> provider_answer) \<Rightarrow> string \<Rightarrow> document list \<Rightarrow> int
      \<Rightarrow> rat option \<Rightarrow> bool \<Rightarrow> (string \<times> json) list \<Rightarrow> stage_outcome" where
  "run_provider lib g provider query ranked top_k deadline cancellable meta =
     (let b = bounded_candidates lib g ranked;
          meta = meta_update (bounds_meta g ranked b) meta;
          provider_top_n = min top_k (int (length (bd_candidates b)));
          fallback = take (nat top_k) ranked;
          failed = (\<lambda>e. StageOut fallback (meta_update (error_meta e fallback) meta))
      in case provider query (bd_payload b) provider_top_n of
           AnswerEscapes \<Rightarrow> StageEscapes
         | AnswerError e \<Rightarrow> failed e
         | Answered r \<Rightarrow>
             (case materialize_result g deadline cancellable r (bd_candidates b) of
                Inl e \<Rightarrow> failed e
              | Inr reranked \<Rightarrow>
                  let thresholded = filter (passes_threshold g) reranked
                  in StageOut thresholded (meta_update (applied_meta r reranked thresholded) meta)))"

definition run_async ::
    "py_lib \<Rightarrow> stage_config \<Rightarrow> (string \<Rightarrow> string list \<Rightarrow> int \<Rightarrow> provider_answer) \<Rightarrow> string \<Rightarrow> document list \<Rightarrow> int
      \<Rightarrow> rat option \<Rightarrow> bool \<Rightarrow> bool \<Rightarrow> stage_outcome" where
  "run_async lib g provider query documents top_k deadline cancellable cancelled =
     (if cancellable \<and> cancelled then StageCancelled
      else if top_k \<le> 0 then StageValueError
      else let ranked = with_recall_rank documents;
               meta = base_meta g (int (length ranked))
           in if ranked = []
              then StageOut [] (meta_update ((''rerank_skip_reason'', JStr ''no_candidates'') # fallback_counts []) meta)
              else if \<not> sg_enabled g
              then let fallback = take (nat top_k) ranked
                   in StageOut fallback
                        (meta_update ((''rerank_skip_reason'', JStr ''disabled'') # fallback_counts fallback) meta)
              else run_provider lib g provider query ranked top_k deadline cancellable meta)"

end
