(* ===== verification/Rerank_Safety.thy ===== *)
theory Rerank_Safety
  imports Rerank
begin

text \<open>
  The circuit breaker as a step relation over the breaker and the permits of the calls in flight,
  with its invariant, and what the rerank stage returns.
\<close>

section \<open>Interleavings of rerank calls\<close>

type_synonym breaker = "circuit \<times> circuit_permit list"

inductive circuit_step :: "circuit_config \<Rightarrow> breaker \<Rightarrow> breaker \<Rightarrow> bool" for g where
  begin_call: "rerank_begin g model shut documents top_n deadline cancellable probe clock c = Admitted pm c' ctx \<Longrightarrow>
     circuit_step g (c, fl) (c', pm # fl)"
| end_call: "pm \<in> set fl \<Longrightarrow> circuit_step g (c, fl) (rerank_end g now pm (r :: rerank_item list result) c, remove1 pm fl)"

definition current :: "circuit \<Rightarrow> circuit_permit \<Rightarrow> bool" where
  "current c pm \<longleftrightarrow> pm_generation pm = cb_generation c"

definition probes :: "circuit \<Rightarrow> circuit_permit list \<Rightarrow> circuit_permit list" where
  "probes c fl = filter (\<lambda>pm. current c pm \<and> pm_half_open pm) fl"

definition breaker_inv :: "circuit_config \<Rightarrow> circuit \<Rightarrow> circuit_permit list \<Rightarrow> bool" where
  "breaker_inv g c fl \<longleftrightarrow>
     (\<forall>pm \<in> set fl. pm_generation pm \<le> cb_generation c) \<and>
     (if cb_half_open c then cb_open_until c = None \<and> length (probes c fl) = 1 \<and>
           (\<forall>pm \<in> set fl. current c pm \<longrightarrow> pm_half_open pm)
      else probes c fl = []) \<and>
     (cb_open_until c \<noteq> None \<longrightarrow> (\<forall>pm \<in> set fl. \<not> current c pm)) \<and>
     (cg_threshold g \<le> cb_failures c \<longleftrightarrow> cb_half_open c \<or> cb_open_until c \<noteq> None)"

lemma breaker_init: "positive_config g \<Longrightarrow> breaker_inv g circuit_init []"
  by (simp add: breaker_inv_def circuit_init_def positive_config_def probes_def)

lemma older_not_current:
  assumes "\<forall>pm \<in> set fl. pm_generation pm \<le> cb_generation c" "cb_generation c < cb_generation c'"
  shows "probes c' fl = []" "\<forall>pm \<in> set fl. \<not> current c' pm" "\<forall>pm \<in> set fl. pm_generation pm \<le> cb_generation c'"
  using assms by (auto simp: probes_def current_def filter_empty_conv)

lemma admit_inv:
  assumes "breaker_inv g c fl" "before_circuit_call ctx b t now c = Inr (pm, c')"
  shows "breaker_inv g c' (pm # fl)"
proof (cases "cb_open_until c")
  case None
  then have "pm = \<lparr> pm_generation = cb_generation c, pm_half_open = False \<rparr>" "c' = c" "\<not> cb_half_open c"
    using assms(2) by (auto simp: before_circuit_call_def split: option.splits if_splits)
  then show ?thesis using assms(1) None by (auto simp: breaker_inv_def probes_def)
next
  case (Some u)
  then have e: "pm = \<lparr> pm_generation = cb_generation c + 1, pm_half_open = True \<rparr>"
      "c' = c\<lparr>cb_half_open := True, cb_open_until := None, cb_generation := cb_generation c + 1\<rparr>"
    using assms(2) by (auto simp: before_circuit_call_def split: option.splits if_splits)
  have le: "\<forall>pm \<in> set fl. pm_generation pm \<le> cb_generation c"
    and th: "cg_threshold g \<le> cb_failures c" using assms(1) Some by (auto simp: breaker_inv_def)
  have lt: "cb_generation c < cb_generation c'" by (simp add: e)
  note o = older_not_current [OF le lt]
  have "probes c' (pm # fl) = [pm]" using o(1) by (auto simp: probes_def current_def e)
  then show ?thesis using o th by (auto simp: breaker_inv_def e current_def)
qed

lemma probes_remove1:
  assumes "pm \<in> set fl"
  shows "length (probes c (remove1 pm fl)) =
    (if current c pm \<and> pm_half_open pm then length (probes c fl) - 1 else length (probes c fl))"
  using assms by (auto simp: probes_def filter_remove1 length_remove1 remove1_idem)

text \<open>A permit of an older generation, and an aborted call that is no probe, leave the breaker alone.\<close>

lemma stale_end: "\<not> current c pm \<Longrightarrow> rerank_end g now pm r c = c"
  by (cases r) (auto simp: current_def record_circuit_success_def record_circuit_failure_def abort_circuit_trial_def)

lemma inv_drop:
  assumes "breaker_inv g c fl" "pm \<in> set fl" "\<not> (current c pm \<and> pm_half_open pm)"
  shows "breaker_inv g c (remove1 pm fl)"
proof -
  have "length (probes c (remove1 pm fl)) = length (probes c fl)"
    using probes_remove1 [OF assms(2)] assms(3) by auto
  then show ?thesis
    using assms(1) by (auto simp: breaker_inv_def dest: notin_set_remove1 [rotated] in_set_remove1 split: if_splits)
qed

text \<open>
  A step that starts a new generation leaves no current permit behind, so only the counters matter.
\<close>

lemma inv_fresh:
  assumes "breaker_inv g c fl" "cb_generation c < cb_generation c'" "\<not> cb_half_open c'"
    "cg_threshold g \<le> cb_failures c' \<longleftrightarrow> cb_open_until c' \<noteq> None"
  shows "breaker_inv g c' (remove1 pm fl)"
proof -
  have le: "\<forall>p \<in> set (remove1 pm fl). pm_generation p \<le> cb_generation c"
    using assms(1) set_remove1_subset [of pm fl] by (auto simp: breaker_inv_def)
  note o = older_not_current [OF le assms(2)]
  show ?thesis using o assms(3,4) by (simp add: breaker_inv_def)
qed

lemmas transition_defs = record_circuit_success_def record_circuit_failure_def abort_circuit_trial_def Let_def

lemma probe_end:
  assumes "positive_config g" "breaker_inv g c fl" "pm \<in> set fl" "current c pm" "pm_half_open pm"
  shows "cb_generation (rerank_end g now pm r c) = cb_generation c + 1"
    and "\<not> cb_half_open (rerank_end g now pm r c)"
    and "cg_threshold g \<le> cb_failures (rerank_end g now pm r c) \<longleftrightarrow> cb_open_until (rerank_end g now pm r c) \<noteq> None"
    and "cb_half_open c"
proof -
  have "probes c fl \<noteq> []" using assms(3-5) by (auto simp: probes_def filter_empty_conv)
  then have h: "cb_half_open c" "cg_threshold g \<le> cb_failures c"
    using assms(2) by (auto simp: breaker_inv_def split: if_splits)
  show "cb_half_open c" by (rule h)
  show "cb_generation (rerank_end g now pm r c) = cb_generation c + 1" "\<not> cb_half_open (rerank_end g now pm r c)"
    "cg_threshold g \<le> cb_failures (rerank_end g now pm r c) \<longleftrightarrow> cb_open_until (rerank_end g now pm r c) \<noteq> None"
    using assms(1,4,5) h by (cases r; auto simp: transition_defs current_def positive_config_def)+
qed

lemma plain_end:
  assumes "positive_config g" "breaker_inv g c fl" "pm \<in> set fl" "current c pm" "\<not> pm_half_open pm"
  shows "(cb_generation (rerank_end g now pm r c) = cb_generation c \<and> cb_open_until (rerank_end g now pm r c) = None
          \<or> cb_generation c < cb_generation (rerank_end g now pm r c))"
    and "\<not> cb_half_open (rerank_end g now pm r c)" "\<not> cb_half_open c"
    and "cg_threshold g \<le> cb_failures (rerank_end g now pm r c) \<longleftrightarrow> cb_open_until (rerank_end g now pm r c) \<noteq> None"
proof -
  have h: "\<not> cb_half_open c" "cb_open_until c = None" "cb_failures c < cg_threshold g"
    using assms(2-5) by (auto simp: breaker_inv_def split: if_splits)
  show "\<not> cb_half_open c" by (rule h)
  show "(cb_generation (rerank_end g now pm r c) = cb_generation c \<and> cb_open_until (rerank_end g now pm r c) = None
          \<or> cb_generation c < cb_generation (rerank_end g now pm r c))"
    "\<not> cb_half_open (rerank_end g now pm r c)"
    "cg_threshold g \<le> cb_failures (rerank_end g now pm r c) \<longleftrightarrow> cb_open_until (rerank_end g now pm r c) \<noteq> None"
    using assms(1,4,5) h by (cases r; auto simp: transition_defs current_def positive_config_def)+
qed

lemma end_inv:
  assumes "positive_config g" "breaker_inv g c fl" "pm \<in> set fl"
  shows "breaker_inv g (rerank_end g now pm r c) (remove1 pm fl)"
proof (cases "current c pm")
  case False
  then show ?thesis using inv_drop [OF assms(2,3)] by (simp add: stale_end)
next
  case cur: True
  let ?c = "rerank_end g now pm r c"
  show ?thesis
  proof (cases "pm_half_open pm")
    case True
    note e = probe_end(1-3) [OF assms cur True, of now r]
    show ?thesis by (rule inv_fresh [OF assms(2)]) (use e in auto)
  next
    case False
    note e = plain_end(1,2,4) [OF assms cur False, of now r]
    show ?thesis
    proof (cases "cb_generation c < cb_generation ?c")
      case True
      then show ?thesis by (rule inv_fresh [OF assms(2)]) (use e in auto)
    next
      case same: False
      have p: "probes ?c (remove1 pm fl) = probes c (remove1 pm fl)" if "cb_generation ?c = cb_generation c"
        using that by (simp add: probes_def current_def)
      have "breaker_inv g c (remove1 pm fl)" using inv_drop [OF assms(2,3)] False by simp
      then show ?thesis using e same p plain_end(3) [OF assms cur False] by (auto simp: breaker_inv_def)
    qed
  qed
qed

lemma begin_admitted:
  "rerank_begin g model shut documents top_n deadline cancellable probe clock c = Admitted pm c' ctx \<Longrightarrow>
     \<exists>b t now. before_circuit_call ctx b t now c = Inr (pm, c')"
  by (auto simp: rerank_begin_def Let_def split: if_splits option.splits sum.splits)

lemma step_inv:
  assumes "positive_config g" "circuit_step g s s'" "breaker_inv g (fst s) (snd s)"
  shows "breaker_inv g (fst s') (snd s')"
  using assms(2,3) by cases (auto dest: begin_admitted admit_inv intro: end_inv [OF assms(1)])

lemma steps_inv:
  assumes "positive_config g" "(circuit_step g)\<^sup>*\<^sup>* (circuit_init, []) s"
  shows "breaker_inv g (fst s) (snd s)"
  using assms(2)
proof (induction rule: rtranclp_induct)
  case base
  then show ?case using breaker_init [OF assms(1)] by simp
next
  case (step s s')
  then show ?case using step_inv [OF assms(1)] by blast
qed

text \<open>
  C30. However rerank calls interleave, at most one probe is in flight: the breaker is half open exactly
  while one call in flight holds the current half-open permit. The failure count has reached the
  threshold exactly while the breaker is open or half open. Whatever the probe's outcome, its end
  leaves the half-open state, after a retryable failure with the breaker open for the reset time, and
  a call whose permit is of an older generation changes nothing. While the breaker is half open, or
  open and its time is not over, no call is admitted.
\<close>

theorem circuit_single_probe:
  assumes "positive_config g" "(circuit_step g)\<^sup>*\<^sup>* (circuit_init, []) (c, fl)"
  shows "length (probes c fl) = (if cb_half_open c then 1 else 0) \<and>
    (cg_threshold g \<le> cb_failures c \<longleftrightarrow> cb_half_open c \<or> cb_open_until c \<noteq> None) \<and>
    (\<forall>pm \<in> set (probes c fl). \<forall>now r. \<not> cb_half_open (rerank_end g now pm (r :: rerank_item list result) c)) \<and>
    (\<forall>pm \<in> set (probes c fl). \<forall>now e. error_retryable e \<and> er_code e \<noteq> P_RERANK_CIRCUIT_OPEN \<longrightarrow>
       cb_open_until (rerank_end g now pm (RaisedError e :: rerank_item list result) c) = Some (now + cg_reset g)) \<and>
    (\<forall>pm \<in> set fl. \<not> current c pm \<longrightarrow> (\<forall>now r. rerank_end g now pm (r :: rerank_item list result) c = c)) \<and>
    (\<forall>ctx b t now. cb_half_open c \<or> (\<exists>u. cb_open_until c = Some u \<and> now < u) \<longrightarrow>
       (\<exists>s. before_circuit_call ctx b t now c = Inl s))"
proof -
  have inv: "breaker_inv g c fl" using steps_inv [OF assms] by simp
  have pr: "pm \<in> set fl \<and> current c pm \<and> pm_half_open pm" if "pm \<in> set (probes c fl)" for pm
    using that by (simp add: probes_def)
  have reopen: "cb_open_until (rerank_end g now pm (RaisedError e :: rerank_item list result) c) = Some (now + cg_reset g)"
    if "pm \<in> set (probes c fl)" "error_retryable e" "er_code e \<noteq> P_RERANK_CIRCUIT_OPEN" for pm now e
  proof -
    have "cb_half_open c" using probe_end(4) [OF assms(1) inv] pr [OF that(1)] by blast
    then have "cg_threshold g \<le> cb_failures c" using inv by (simp add: breaker_inv_def)
    then show ?thesis using pr [OF that(1)] that(2,3) by (simp add: transition_defs current_def)
  qed
  show ?thesis
  proof (intro conjI ballI allI impI)
    show "length (probes c fl) = (if cb_half_open c then 1 else 0)"
      "cg_threshold g \<le> cb_failures c \<longleftrightarrow> cb_half_open c \<or> cb_open_until c \<noteq> None"
      using inv by (auto simp: breaker_inv_def)
  next
    fix pm now and r :: "rerank_item list result" assume "pm \<in> set (probes c fl)"
    then show "\<not> cb_half_open (rerank_end g now pm r c)" using pr probe_end(2) [OF assms(1) inv] by blast
  next
    fix ctx b t now assume "cb_half_open c \<or> (\<exists>u. cb_open_until c = Some u \<and> now < u)"
    then show "\<exists>s. before_circuit_call ctx b t now c = Inl s"
      by (auto simp: before_circuit_call_def split: option.splits)
  qed (use reopen stale_end in auto)
qed

definition ex_circuit_config :: circuit_config where
  "ex_circuit_config = \<lparr> cg_threshold = 1, cg_reset = 30, cg_timeout = 5 \<rparr>"

definition ex_timeout :: provider_error where
  "ex_timeout = from_code P_RERANK_TIMEOUT ''m'' RERANK None 2 2"

definition ex_permit :: "int \<Rightarrow> bool \<Rightarrow> circuit_permit" where
  "ex_permit n b = \<lparr> pm_generation = n, pm_half_open = b \<rparr>"

definition ex_half_open :: circuit where
  "ex_half_open = \<lparr> cb_failures = 1, cb_open_until = None, cb_half_open = True, cb_generation = 2 \<rparr>"

definition ex_open :: circuit where
  "ex_open = \<lparr> cb_failures = 1, cb_open_until = Some 40, cb_half_open = False, cb_generation = 1 \<rparr>"

definition ex_begin :: "rat \<Rightarrow> circuit \<Rightarrow> begun" where
  "ex_begin t c = rerank_begin ex_circuit_config ''m'' False [''d''] 1 None False (\<lambda>_. False) (\<lambda>_. t) c"

definition ex_rerank_ctx :: "rat \<Rightarrow> call_context" where
  "ex_rerank_ctx t = \<lparr> cc_provider = ''m'', cc_operation = RERANK, cc_deadline = Some (t + 5), cc_cancellable = False \<rparr>"

lemmas ex_circuit_defs = ex_begin_def rerank_begin_def checkpoint_context_def before_circuit_call_def
  stage_deadline_def ex_circuit_config_def ex_rerank_ctx_def ex_permit_def circuit_init_def ex_open_def
  ex_half_open_def Let_def

text \<open>Two calls in flight, one of them fails and opens the breaker, and a third one is its probe.\<close>

lemma ex_circuit_reachable:
  "(circuit_step ex_circuit_config)\<^sup>*\<^sup>* (circuit_init, []) (ex_half_open, [ex_permit 2 True, ex_permit 0 False])"
proof -
  let ?G = ex_circuit_config and ?p = "ex_permit 0 False"
  have a: "ex_begin 9 circuit_init = Admitted ?p circuit_init (ex_rerank_ctx 9)"
    by (simp add: ex_circuit_defs)
  have b: "ex_begin 50 ex_open = Admitted (ex_permit 2 True) ex_half_open (ex_rerank_ctx 50)"
    by (simp add: ex_circuit_defs)
  have e: "rerank_end ?G 10 ?p (RaisedError ex_timeout :: rerank_item list result) circuit_init = ex_open"
    by code_simp
  note run = circuit_step.begin_call [where g = ?G, OF a [unfolded ex_begin_def]]
  have "circuit_step ?G (circuit_init, [?p, ?p])
      (rerank_end ?G 10 ?p (RaisedError ex_timeout :: rerank_item list result) circuit_init, remove1 ?p [?p, ?p])"
    by (rule circuit_step.end_call) simp
  then have "circuit_step ?G (circuit_init, [?p, ?p]) (ex_open, [?p])" by (simp add: e del: rerank_end.simps)
  with run [of "[]"] run [of "[?p]"] circuit_step.begin_call [where g = ?G, OF b [unfolded ex_begin_def], of "[?p]"]
  show ?thesis by (meson rtranclp.rtrancl_refl rtranclp.rtrancl_into_rtrancl)
qed

theorem circuit_single_probe_witness:
  "probes ex_half_open [ex_permit 2 True, ex_permit 0 False] = [ex_permit 2 True] \<and> cb_half_open ex_half_open \<and>
   \<not> cb_half_open (rerank_end ex_circuit_config 60 (ex_permit 2 True) (RaisedCancelled :: rerank_item list result) ex_half_open)"
proof -
  have p: "probes ex_half_open [ex_permit 2 True, ex_permit 0 False] = [ex_permit 2 True]"
    by (simp add: probes_def current_def ex_half_open_def ex_permit_def)
  have "positive_config ex_circuit_config" by code_simp
  from circuit_single_probe [OF this ex_circuit_reachable]
  have "\<forall>pm \<in> set (probes ex_half_open [ex_permit 2 True, ex_permit 0 False]). \<forall>now r.
      \<not> cb_half_open (rerank_end ex_circuit_config now pm (r :: rerank_item list result) ex_half_open)" by blast
  then have "\<not> cb_half_open (rerank_end ex_circuit_config 60 (ex_permit 2 True)
      (RaisedCancelled :: rerank_item list result) ex_half_open)"
    unfolding p by (simp del: rerank_end.simps)
  then show ?thesis using p by (simp add: ex_half_open_def)
qed

section \<open>The stage\<close>

lemma py_len_Cons:
  "py_len (c # cs) = (if 128 \<le> byte c \<and> byte c < 192 then py_len cs else Suc (py_len cs))"
  by (simp add: py_len_def)

lemma py_len_Nil [simp]: "py_len [] = 0"
  by (simp add: py_len_def)

lemma py_len_take: "py_len (py_take n s) \<le> n" "py_len (py_take n s) \<le> py_len s"
  by (induction n s rule: py_take.induct) (auto simp: py_len_Cons split: nat.splits)

definition bounds_ok :: "stage_config \<Rightarrow> bounds \<Rightarrow> bool" where
  "bounds_ok g b \<longleftrightarrow> length (bd_payload b) = length (bd_candidates b) \<and>
     list_all (\<lambda>s. int (py_len s) \<le> sg_max_document g) (bd_payload b) \<and>
     bd_total b = sum_list (map (int \<circ> py_len) (bd_payload b)) \<and> bd_total b \<le> sg_max_total g"

lemma bounded_loop_ok:
  "bounds_ok g b \<Longrightarrow> 0 < sg_max_document g \<Longrightarrow> bounds_ok g (bounded_loop lib g ds b) \<and>
     (\<exists>k \<le> length ds. bd_candidates (bounded_loop lib g ds b) = bd_candidates b @ take k ds)"
proof (induction ds arbitrary: b)
  case Nil
  then show ?case by simp
next
  case (Cons d ds)
  show ?case
  proof (cases "sg_max_total g \<le> bd_total b")
    case True
    then show ?thesis using Cons.prems(1) by (auto intro: exI [of _ 0])
  next
    case False
    define u where "u = py_take (nat (sg_max_document g)) (document_text lib d)"
    define v where "v = py_take (nat (sg_max_total g - bd_total b)) u"
    define b' where "b' = \<lparr> bd_candidates = bd_candidates b @ [d], bd_payload = bd_payload b @ [v],
      bd_total = bd_total b + int (py_len v),
      bd_truncated = bd_truncated b + (if v \<noteq> document_text lib d then 1 else 0) \<rparr>"
    have loop: "bounded_loop lib g (d # ds) b = bounded_loop lib g ds b'"
      using False by (simp add: b'_def u_def v_def Let_def)
    have "py_len v \<le> nat (sg_max_document g)" "py_len v \<le> nat (sg_max_total g - bd_total b)"
      using py_len_take [of "nat (sg_max_total g - bd_total b)" u]
        py_len_take(1) [of "nat (sg_max_document g)" "document_text lib d"] by (auto simp: v_def u_def)
    then have "bounds_ok g b'" using Cons.prems False by (auto simp: bounds_ok_def b'_def)
    from Cons.IH [OF this Cons.prems(2)] obtain k where "bounds_ok g (bounded_loop lib g ds b')" "k \<le> length ds"
      "bd_candidates (bounded_loop lib g ds b') = bd_candidates b' @ take k ds" by blast
    then show ?thesis unfolding loop by (intro conjI exI [of _ "Suc k"]) (auto simp: b'_def)
  qed
qed

lemma bounded_candidates_ok:
  assumes "RerankStage g = Some g"
  shows "bounds_ok g (bounded_candidates lib g ds)"
    "\<exists>k. k \<le> nat (sg_candidate_limit g) \<and> k \<le> length ds \<and> bd_candidates (bounded_candidates lib g ds) = take k ds"
proof -
  have pos: "0 < sg_max_document g" "0 < sg_max_total g" using assms by (auto simp: RerankStage_def split: if_splits)
  let ?b = "\<lparr> bd_candidates = [], bd_payload = [], bd_total = 0, bd_truncated = 0 \<rparr>"
  have "bounds_ok g ?b" using pos by (simp add: bounds_ok_def)
  from bounded_loop_ok [OF this pos(1), of lib "take (nat (sg_candidate_limit g)) ds"]
  obtain k where k: "bounds_ok g (bounded_candidates lib g ds)" "k \<le> length (take (nat (sg_candidate_limit g)) ds)"
    "bd_candidates (bounded_candidates lib g ds) = take k (take (nat (sg_candidate_limit g)) ds)"
    by (auto simp: bounded_candidates_def)
  then show "bounds_ok g (bounded_candidates lib g ds)" by blast
  show "\<exists>k. k \<le> nat (sg_candidate_limit g) \<and> k \<le> length ds \<and> bd_candidates (bounded_candidates lib g ds) = take k ds"
    using k(2,3) by (intro exI [of _ k]) (auto simp: min_def split: if_splits)
qed

lemma parse_items_length: "parse_items n seen xs = Parsed items \<Longrightarrow> length items = length xs"
  by (induction xs arbitrary: seen items)
     (auto split: json.splits option.splits if_splits parsed.splits)

lemma parse_response_length: "parse_response body n k = Parsed items \<Longrightarrow> int (length items) \<le> k"
  by (auto simp: parse_response_def dest: parse_items_length split: option.splits json.splits if_splits)

text \<open>\<open>picked ranked out\<close>: the documents of \<open>out\<close> are, up to their scores, documents of \<open>ranked\<close> at
  different positions.\<close>

definition same_document :: "document \<Rightarrow> document \<Rightarrow> bool" where
  "same_document d d' \<longleftrightarrow> AList.delete ''rerank_score'' d = AList.delete ''rerank_score'' d'"

definition picked :: "document list \<Rightarrow> document list \<Rightarrow> bool" where
  "picked ranked out \<longleftrightarrow> (\<exists>idx. distinct idx \<and> set idx \<subseteq> {..<length ranked} \<and>
     list_all2 (\<lambda>d i. same_document d (ranked ! i)) out idx)"

lemma picked_take: "picked ranked (take k ranked)"
  unfolding picked_def
  by (intro exI [of _ "[0..<min k (length ranked)]"])
     (auto simp: list_all2_conv_all_nth same_document_def min_def)

lemma delete_score: "AList.delete k (AList.update k v d) = AList.delete k d"
  by (induction d) (auto simp: AList.delete_eq)

lemma materialize_items_ok:
  "materialize_items cs seen items = Some ds \<Longrightarrow>
     \<exists>idx. distinct idx \<and> set idx \<subseteq> {..<length cs} \<and> (\<forall>i \<in> set idx. int i \<notin> set seen) \<and>
       list_all2 (\<lambda>d i. same_document d (cs ! i)) ds idx"
proof (induction items arbitrary: seen ds)
  case Nil
  then show ?case by (intro exI [of _ "[]"]) simp
next
  case (Cons x items)
  let ?i = "ri_index x"
  obtain rest where r: "materialize_items cs (?i # seen) items = Some rest" "0 \<le> ?i" "?i < int (length cs)"
      "?i \<notin> set seen" "ds = AList.update ''rerank_score'' (JNum (ri_score x)) (cs ! nat ?i) # rest"
    using Cons.prems by (auto split: if_splits)
  from Cons.IH [OF r(1)] obtain idx where i: "distinct idx" "set idx \<subseteq> {..<length cs}"
    "\<forall>i \<in> set idx. int i \<notin> set (?i # seen)" "list_all2 (\<lambda>d i. same_document d (cs ! i)) rest idx" by blast
  have "nat ?i \<notin> set idx" using i(3) r(2) by auto
  then show ?case
    using i r by (intro exI [of _ "nat ?i # idx"]) (auto simp: same_document_def delete_score)
qed

lemma materialize_items_length: "materialize_items cs seen items = Some ds \<Longrightarrow> length ds = length items"
  by (induction items arbitrary: seen ds) (auto split: if_splits)

lemma list_all2_filter:
  "list_all2 P xs ys \<Longrightarrow> distinct ys \<Longrightarrow> \<exists>zs. distinct zs \<and> set zs \<subseteq> set ys \<and> list_all2 P (filter Q xs) zs"
proof (induction rule: list_all2_induct)
  case Nil
  then show ?case by (intro exI [of _ "[]"]) simp
next
  case (Cons x xs y ys)
  then obtain zs where z: "distinct zs" "set zs \<subseteq> set ys" "list_all2 P (filter Q xs) zs" by auto
  show ?case
  proof (cases "Q x")
    case True
    then show ?thesis using z Cons by (intro exI [of _ "y # zs"]) auto
  next
    case False
    then show ?thesis using z by (intro exI [of _ zs]) auto
  qed
qed

lemma picked_filter:
  assumes "picked ranked out"
  shows "picked ranked (filter Q out)"
proof -
  obtain idx where i: "distinct idx" "set idx \<subseteq> {..<length ranked}"
    "list_all2 (\<lambda>d i. same_document d (ranked ! i)) out idx" using assms by (auto simp: picked_def)
  from list_all2_filter [OF i(3,1), of Q] i(2) show ?thesis unfolding picked_def by blast
qed

lemma picked_prefix:
  assumes "picked (take k ranked) out"
  shows "picked ranked out"
proof -
  obtain idx where i: "distinct idx" "set idx \<subseteq> {..<length (take k ranked)}"
    "list_all2 (\<lambda>d i. same_document d (take k ranked ! i)) out idx" using assms by (auto simp: picked_def)
  have "list_all2 (\<lambda>d i. same_document d (ranked ! i)) out idx"
    using i(2,3) by (auto simp: list_all2_conv_all_nth subset_iff)
  then show ?thesis unfolding picked_def using i by (intro exI [of _ idx]) auto
qed

lemma map_of_AList_update: "map_of (AList.update k v al) = (map_of al)(k \<mapsto> v)"
  by (simp add: update_conv')

lemma meta_last: "map_of (meta_update (xs @ [(k, v)]) meta) k = Some v"
  by (simp add: meta_update_def map_of_AList_update)

lemma fallback_meta:
  "map_of (meta_update (xs @ fallback_counts ds) meta) ''post_threshold_count'' = Some (JInt (int (length ds)))"
  using meta_last [of "xs @ [(''post_rerank_count'', JInt (int (length ds)))]"] by (simp add: fallback_counts_def)

lemma error_meta_count:
  "map_of (meta_update (error_meta e ds) meta) ''post_threshold_count'' = Some (JInt (int (length ds)))"
  unfolding error_meta_def by (rule fallback_meta)

lemma applied_meta_count:
  "map_of (meta_update (applied_meta r ds out) meta) ''post_threshold_count'' = Some (JInt (int (length out)))"
  using meta_last [of "butlast (applied_meta r ds out)"] by (simp add: applied_meta_def)

lemma skip_meta_count:
  "map_of (meta_update (x # fallback_counts ds) meta) ''post_threshold_count'' = Some (JInt (int (length ds)))"
  using fallback_meta [of "[x]"] by simp

lemma length_with_recall_rank [simp]: "length (with_recall_rank ds) = length ds"
proof -
  have "length (with_recall_rank_from i ds) = length ds" for i by (induction ds arbitrary: i) auto
  then show ?thesis by (simp add: with_recall_rank_def)
qed

definition scored :: "rat \<Rightarrow> document \<Rightarrow> bool" where
  "scored m d \<longleftrightarrow> (\<exists>q \<ge> m. map_of d ''rerank_score'' = Some (JNum q))"

lemma passes_scored: "passes_threshold g d \<Longrightarrow> scored (sg_min_score g) d"
  by (auto simp: passes_threshold_def scored_def split: option.splits json.splits)

text \<open>
  What holds of the documents and the trace that the stage returns: at most \<open>top_k\<close> documents, all
  picked from the recalled ones, the number recorded in the trace, and either the first recalled
  documents in recall order or documents with scores that reach the threshold.
\<close>

definition stage_ok :: "stage_config \<Rightarrow> document list \<Rightarrow> int \<Rightarrow> document list \<Rightarrow> (string \<times> json) list \<Rightarrow> bool" where
  "stage_ok g ranked top_k out meta \<longleftrightarrow> int (length out) \<le> top_k \<and> picked ranked out \<and>
     map_of meta ''post_threshold_count'' = Some (JInt (int (length out))) \<and>
     (out = take (nat top_k) ranked \<or> list_all (scored (sg_min_score g)) out)"

lemma stage_ok_fallback:
  assumes "0 < top_k" "map_of meta ''post_threshold_count'' = Some (JInt (int (length (take (nat top_k) ranked))))"
  shows "stage_ok g ranked top_k (take (nat top_k) ranked) meta"
  using assms picked_take [of ranked "nat top_k"] by (auto simp: stage_ok_def min_def)

definition adapter_answers :: "(string \<Rightarrow> string list \<Rightarrow> int \<Rightarrow> provider_answer) \<Rightarrow> bool" where
  "adapter_answers provider \<longleftrightarrow> (\<forall>q ds n r. provider q ds n = Answered r \<longrightarrow>
     (\<exists>body. parse_response body (int (length ds)) n = Parsed (rr_items r)))"

lemma run_provider_ok:
  assumes g: "RerankStage g = Some g" and a: "adapter_answers provider" and k: "0 < top_k"
    and run: "run_provider lib g provider query ranked top_k deadline cancellable meta0 = StageOut out meta"
  shows "stage_ok g ranked top_k out meta"
proof -
  define b where "b = bounded_candidates lib g ranked"
  define n where "n = min top_k (int (length (bd_candidates b)))"
  note run' = run [unfolded run_provider_def Let_def, folded b_def, folded n_def]
  have fallback: ?thesis if "out = take (nat top_k) ranked"
      "map_of meta ''post_threshold_count'' = Some (JInt (int (length (take (nat top_k) ranked))))"
    unfolding that(1) by (rule stage_ok_fallback [OF k that(2)])
  show ?thesis
  proof (cases "provider query (bd_payload b) n")
    case AnswerEscapes
    then show ?thesis using run' by simp
  next
    case (AnswerError e)
    then show ?thesis using run' by (intro fallback) (auto simp: error_meta_count)
  next
    case (Answered r)
    show ?thesis
    proof (cases "materialize_result g deadline cancellable r (bd_candidates b)")
      case (Inl e)
      then show ?thesis using run' Answered Inl by (intro fallback) (auto simp: error_meta_count)
    next
      case (Inr ds)
      have m: "materialize_items (bd_candidates b) [] (rr_items r) = Some ds"
        using Inr by (auto simp: materialize_result_def Let_def split: if_splits option.splits)
      have out: "out = filter (passes_threshold g) ds"
        and meta: "map_of meta ''post_threshold_count'' = Some (JInt (int (length out)))"
        using run' Answered Inr by (auto simp: applied_meta_count)
      obtain j where j: "bd_candidates b = take j ranked" using bounded_candidates_ok(2) [OF g] b_def by blast
      have "picked (bd_candidates b) ds" using materialize_items_ok [OF m] by (auto simp: picked_def)
      then have "picked ranked ds" unfolding j by (rule picked_prefix)
      then have "picked ranked out" unfolding out by (rule picked_filter)
      moreover have "int (length (rr_items r)) \<le> n"
        using a Answered parse_response_length unfolding adapter_answers_def by blast
      then have "int (length ds) \<le> top_k" using materialize_items_length [OF m] by (simp add: n_def)
      then have "int (length out) \<le> top_k" unfolding out using length_filter_le [of "passes_threshold g" ds] by linarith
      moreover have "list_all (scored (sg_min_score g)) out" using passes_scored by (auto simp: out list_all_iff)
      ultimately show ?thesis using meta by (simp add: stage_ok_def)
    qed
  qed
qed


definition ex_stage :: stage_config where
  "ex_stage = \<lparr> sg_candidate_limit = 2, sg_max_document = 3, sg_max_total = 5, sg_min_score = 1 / 2,
     sg_enabled = True, sg_model = ''m'', sg_timeout = 5 \<rparr>"

definition ex_body :: json where
  "ex_body = JObj [(''results'', JList
     [JObj [(''index'', JInt 1), (''relevance_score'', JNum (9 / 10))],
      JObj [(''index'', JInt 0), (''relevance_score'', JNum (1 / 10))]])]"

definition ex_provider :: "string \<Rightarrow> string list \<Rightarrow> int \<Rightarrow> provider_answer" where
  "ex_provider q ds n =
     (case parse_response (Some ex_body) (int (length ds)) n of
        Parsed items \<Rightarrow> Answered \<lparr> rr_items = items, rr_attempts = 1 \<rparr>
      | _ \<Rightarrow> AnswerError (from_code P_RERANK_INVALID_RESPONSE ''m'' RERANK None 1 1))"

definition ex_plain_lib :: py_lib where
  "ex_plain_lib = \<lparr> pl_float = (\<lambda>s. None), pl_http_date = (\<lambda>s. None), pl_str = (\<lambda>j. []) \<rparr>"

definition ex_documents :: "document list" where
  "ex_documents = [[(''text'', JStr ''abcd'')], [(''text'', JStr ''efgh'')], [(''text'', JStr ''ij'')]]"

definition ex_best :: document where
  "ex_best = [(''text'', JStr ''efgh''), (''rrf_rank'', JInt 2), (''rerank_score'', JNum (9 / 10))]"

definition stage_documents :: "stage_outcome \<Rightarrow> document list option" where
  "stage_documents x = (case x of StageOut ds m \<Rightarrow> Some ds | _ \<Rightarrow> None)"

lemma ex_adapter: "adapter_answers ex_provider"
  by (auto simp: adapter_answers_def ex_provider_def split: parsed.splits)

lemma ex_stage_run:
  "stage_documents (run_async ex_plain_lib ex_stage ex_provider ''q'' ex_documents 2 None False False) = Some [ex_best]"
  by code_simp


end
