(* ===== verification/Url_Policy.thy ===== *)
theory Url_Policy
  imports Run_Request
begin

text \<open>
  The URL policy against server-side request forgery,
  \<^verbatim>\<open>src/backend/web_research/url_policy.py\<close>. Text is UTF-8; percent-encoding a character byte by byte
  is the same on it. What is used of \<open>urlsplit\<close>, \<open>urljoin\<close>, \<open>ipaddress\<close> and the IDNA codec is the
  record \<open>net_lib\<close>, with the results of their attributes; the resolver is the injected one.
\<close>

section \<open>Libraries and codes\<close>

datatype url_code =
    URL_TOO_LONG | INVALID_URL | SCHEME_DENIED | USERINFO_DENIED | HOST_DENIED | PORT_DENIED
  | DNS_RESOLUTION_FAILED | ADDRESS_DENIED | DNS_PIN_MISMATCH | REDIRECT_DENIED

datatype url_error = UrlPolicyError url_code | UrlValueError | UrlCancelled

record url_parts =
  up_scheme :: string
  up_netloc :: string
  up_path :: string
  up_query :: string
  up_username :: "string option"
  up_password :: "string option"
  up_port :: "int option option"
  up_hostname :: "string option"

record ip_attrs =
  ia_text :: string
  ia_key :: string
  ia_private :: bool
  ia_loopback :: bool
  ia_link_local :: bool
  ia_multicast :: bool
  ia_reserved :: bool
  ia_unspecified :: bool
  ia_site_local :: bool
  ia_global :: bool

text \<open>An address as parsed: \<open>ip_v6\<close> holds the attributes that only IPv6 addresses have.\<close>

record ip_v6_attrs =
  iv_mapped :: "ip_attrs option"
  iv_sixtofour :: bool
  iv_teredo :: bool
  iv_nat64 :: bool

record ip_parsed =
  ip_attrs :: ip_attrs
  ip_v6 :: "ip_v6_attrs option"

text \<open>\<open>None\<close> stands for the \<open>ValueError\<close> or \<open>UnicodeError\<close> that the function raises.\<close>

record net_lib =
  nl_urlsplit :: "string \<Rightarrow> url_parts option"
  nl_urljoin :: "string \<Rightarrow> string \<Rightarrow> string option"
  nl_ip_address :: "string \<Rightarrow> ip_parsed option"
  nl_idna_encode :: "string \<Rightarrow> string option"
  nl_idna_decode :: "string \<Rightarrow> string option"

definition default_port :: "string \<Rightarrow> int option" where
  "default_port scheme = (if scheme = ''http'' then Some 80 else if scheme = ''https'' then Some 443 else None)"

definition is_unreserved :: "char \<Rightarrow> bool" where
  "is_unreserved c \<longleftrightarrow> is_alnum c \<or> c \<in> set ''-._~''"

definition path_safe :: "char \<Rightarrow> bool" where
  "path_safe c \<longleftrightarrow> is_unreserved c \<or> c \<in> set ''/!$&()*+,;=:@'' \<or> c = CHR 0x27"

definition query_safe :: "char \<Rightarrow> bool" where
  "query_safe c \<longleftrightarrow> path_safe c \<or> c = CHR ''?''"

definition SPECIAL_USE_SUFFIXES :: "string list" where
  "SPECIAL_USE_SUFFIXES = [''alt'', ''arpa'', ''corp'', ''home'', ''internal'', ''invalid'', ''lan'', ''local'',
     ''localdomain'', ''localhost'', ''onion'', ''private'', ''test'', ''example'', ''example.com'',
     ''example.net'', ''example.org'']"

section \<open>Canonical text\<close>

definition validate_raw_url_text :: "int \<Rightarrow> string \<Rightarrow> url_code option" where
  "validate_raw_url_text max_bytes v =
     (if max_bytes < int (length v) then Some URL_TOO_LONG
      else if v = [] \<or> v \<noteq> py_strip v then Some INVALID_URL
      else if CHR 0x5C \<in> set v \<or> CHR 0x00 \<in> set v then Some INVALID_URL
      else if list_ex (\<lambda>c. byte c < 32 \<or> byte c = 127) v then Some INVALID_URL
      else None)"

definition is_hex :: "char \<Rightarrow> bool" where
  "is_hex c \<longleftrightarrow> is_digit c \<or> c \<in> set ''ABCDEFabcdef''"

definition hex_number :: "char \<Rightarrow> nat" where
  "hex_number c = (if is_digit c then byte c - 48 else if is_upper c then byte c - 55 else byte c - 87)"

definition upper_hex :: "nat \<Rightarrow> char" where
  "upper_hex n = ''0123456789ABCDEF'' ! n"

definition percent_byte :: "nat \<Rightarrow> string" where
  "percent_byte n = [CHR ''%'', upper_hex (n div 16), upper_hex (n mod 16)]"

fun canonicalize_url_component :: "(char \<Rightarrow> bool) \<Rightarrow> string \<Rightarrow> string option" where
  "canonicalize_url_component safe [] = Some []"
| "canonicalize_url_component safe (c # cs) =
     (if c = CHR ''%''
      then (case cs of
          a # b # rest \<Rightarrow>
            if is_hex a \<and> is_hex b
            then (let decoded = char_of (16 * hex_number a + hex_number b);
                      out = (if is_unreserved decoded then [decoded] else [CHR ''%'', ascii_upper a, ascii_upper b])
                  in map_option (\<lambda>r. out @ r) (canonicalize_url_component safe rest))
            else None
        | _ \<Rightarrow> None)
      else map_option (\<lambda>r. (if safe c then [c] else percent_byte (byte c)) @ r)
             (canonicalize_url_component safe cs))"

text \<open>\<open>output.rpartition("/")[0]\<close>.\<close>

definition rpartition_head :: "string \<Rightarrow> string" where
  "rpartition_head s = rev (drop 1 (dropWhile (\<lambda>c. c \<noteq> CHR ''/'') (rev s)))"

text \<open>\<open>remaining[:separator]\<close>: up to the next slash after the first character.\<close>

definition first_segment :: "string \<Rightarrow> string" where
  "first_segment s =
     (case s of
        [] \<Rightarrow> []
      | c # cs \<Rightarrow> c # takeWhile (\<lambda>c. c \<noteq> CHR ''/'') cs)"

definition starts_with :: "string \<Rightarrow> string \<Rightarrow> bool" where
  "starts_with p s \<longleftrightarrow> take (length p) s = p"

definition ends_with :: "string \<Rightarrow> string \<Rightarrow> bool" where
  "ends_with p s \<longleftrightarrow> starts_with (rev p) (rev s)"

lemma first_segment_shorter: "s \<noteq> [] \<Longrightarrow> length s - length (first_segment s) < length s"
  by (cases s) (auto simp: first_segment_def)

lemma starts_with_length: "starts_with p s \<Longrightarrow> length p \<le> length s"
  by (metis starts_with_def length_take min.cobounded1)

function remove_dots_loop :: "string \<Rightarrow> string \<Rightarrow> string" where
  "remove_dots_loop remaining out =
     (if remaining = [] then out
      else if starts_with ''../'' remaining then remove_dots_loop (drop 3 remaining) out
      else if starts_with ''./'' remaining then remove_dots_loop (drop 2 remaining) out
      else if starts_with ''/./'' remaining then remove_dots_loop (CHR ''/'' # drop 3 remaining) out
      else if remaining = ''/.'' then remove_dots_loop ''/'' out
      else if starts_with ''/../'' remaining
      then remove_dots_loop (CHR ''/'' # drop 4 remaining) (rpartition_head out)
      else if remaining = ''/..'' then remove_dots_loop ''/'' (rpartition_head out)
      else if remaining = ''.'' \<or> remaining = ''..'' then remove_dots_loop [] out
      else remove_dots_loop (drop (length (first_segment remaining)) remaining) (out @ first_segment remaining))"
  by pat_completeness auto
termination
  by (relation "measure (\<lambda>(remaining, out). length remaining)")
     (auto dest: starts_with_length intro!: first_segment_shorter)

declare remove_dots_loop.simps [simp del]

definition remove_dot_segments :: "string \<Rightarrow> string" where
  "remove_dot_segments path = (let out = remove_dots_loop path [] in if out = [] then ''/'' else out)"

section \<open>Hosts and addresses\<close>

definition is_special_domain :: "string \<Rightarrow> bool" where
  "is_special_domain host \<longleftrightarrow>
     list_ex (\<lambda>suffix. host = suffix \<or> ends_with (CHR ''.'' # suffix) host) SPECIAL_USE_SUFFIXES"

fun split_char :: "char \<Rightarrow> string \<Rightarrow> string list" where
  "split_char x [] = [[]]"
| "split_char x (c # cs) =
     (if c = x then [] # split_char x cs
      else (case split_char x cs of [] \<Rightarrow> [[c]] | w # ws \<Rightarrow> (c # w) # ws))"

definition label_re :: "string \<Rightarrow> bool" where
  "label_re s \<longleftrightarrow> s \<noteq> [] \<and> length s \<le> 63 \<and> list_all (\<lambda>c. is_lower c \<or> is_digit c \<or> c = CHR ''-'') s \<and>
     hd s \<noteq> CHR ''-'' \<and> last s \<noteq> CHR ''-''"

definition drop_root_dot :: "string \<Rightarrow> string" where
  "drop_root_dot host = (if host \<noteq> [] \<and> last host = CHR ''.'' then butlast host else host)"

definition idna_ascii :: "net_lib \<Rightarrow> string \<Rightarrow> string option" where
  "idna_ascii N s = map_option (map ascii_lower) (nl_idna_encode N s)"

definition label_ok :: "net_lib \<Rightarrow> string \<Rightarrow> bool" where
  "label_ok N label \<longleftrightarrow> label_re label \<and>
     (starts_with ''xn--'' label \<longrightarrow>
        Option.bind (nl_idna_decode N label) (idna_ascii N) = Some label)"

definition canonical_domain :: "net_lib \<Rightarrow> string \<Rightarrow> string option" where
  "canonical_domain N host =
     (let candidate = drop_root_dot host
      in if candidate = [] \<or> CHR ''%'' \<in> set candidate \<or> CHR '':'' \<in> set candidate then None
         else case idna_ascii N candidate of
           None \<Rightarrow> None
         | Some ascii_host \<Rightarrow>
             (let labels = split_char (CHR ''.'') ascii_host
              in if length labels < 2 \<or> [] \<in> set labels then None
                 else if 253 < length ascii_host then None
                 else if list_all (list_all is_digit) labels then None
                 else if \<not> list_all (label_ok N) labels then None
                 else if is_special_domain ascii_host then None
                 else Some ascii_host))"

datatype ip_error = InvalidAddress | UnsafeAddress

definition ip_denied :: "ip_attrs \<Rightarrow> bool" where
  "ip_denied i \<longleftrightarrow> ia_private i \<or> ia_loopback i \<or> ia_link_local i \<or> ia_multicast i \<or> ia_reserved i \<or>
     ia_unspecified i \<or> ia_site_local i \<or> \<not> ia_global i"

definition reject_transition_address :: "ip_v6_attrs \<Rightarrow> bool" where
  "reject_transition_address v \<longleftrightarrow> iv_sixtofour v \<or> iv_teredo v \<or> iv_nat64 v"

definition effective_ip :: "ip_parsed \<Rightarrow> ip_error + ip_attrs" where
  "effective_ip p =
     (case ip_v6 p of
        None \<Rightarrow> Inr (ip_attrs p)
      | Some v \<Rightarrow>
          (case iv_mapped v of
             Some i \<Rightarrow> Inr i
           | None \<Rightarrow> if reject_transition_address v then Inl UnsafeAddress else Inr (ip_attrs p)))"

definition canonical_global_ip :: "net_lib \<Rightarrow> string \<Rightarrow> ip_error + string" where
  "canonical_global_ip N v =
     (if v = [] \<or> CHR ''%'' \<in> set v then Inl InvalidAddress
      else case nl_ip_address N v of
        None \<Rightarrow> Inl InvalidAddress
      | Some p \<Rightarrow>
          (case effective_ip p of
             Inl ex \<Rightarrow> Inl ex
           | Inr i \<Rightarrow> if ip_denied i then Inl UnsafeAddress else Inr (ia_text i)))"

definition canonical_host :: "net_lib \<Rightarrow> string \<Rightarrow> url_code + string \<times> bool" where
  "canonical_host N host =
     (if host = [] then Inl HOST_DENIED
      else case canonical_global_ip N (drop_root_dot host) of
        Inr ip \<Rightarrow> Inr (ip, True)
      | Inl UnsafeAddress \<Rightarrow> Inl ADDRESS_DENIED
      | Inl InvalidAddress \<Rightarrow>
          (case canonical_domain N host of None \<Rightarrow> Inl HOST_DENIED | Some h \<Rightarrow> Inr (h, False)))"

text \<open>\<open>sorted(set, key=_address_sort_key)\<close>; the text of an address parses again.\<close>

definition address_sort_key :: "net_lib \<Rightarrow> string \<Rightarrow> string" where
  "address_sort_key N v = (case nl_ip_address N v of None \<Rightarrow> [] | Some p \<Rightarrow> ia_key (ip_attrs p))"

definition sorted_addresses :: "net_lib \<Rightarrow> string list \<Rightarrow> string list" where
  "sorted_addresses N xs = sort_key (address_sort_key N) (remdups xs)"

section \<open>Pins and resolved URLs\<close>

definition MAX_RESOLVED_ADDRESSES :: nat where
  "MAX_RESOLVED_ADDRESSES = 32"

record dns_pin =
  dp_host :: string
  dp_port :: int
  dp_addresses :: "string list"

fun all_global :: "net_lib \<Rightarrow> string list \<Rightarrow> ip_error + string list" where
  "all_global N [] = Inr []"
| "all_global N (v # vs) =
     (case canonical_global_ip N v of
        Inl ex \<Rightarrow> Inl ex
      | Inr a \<Rightarrow> (case all_global N vs of Inl ex \<Rightarrow> Inl ex | Inr as \<Rightarrow> Inr (a # as)))"

definition DnsPinSnapshot :: "net_lib \<Rightarrow> string \<Rightarrow> int \<Rightarrow> string list \<Rightarrow> dns_pin option" where
  "DnsPinSnapshot N host port addresses =
     (if host = [] \<or> list_ex (\<lambda>c. 128 \<le> byte c) host then None
      else if host \<noteq> map ascii_lower host \<or> last host = CHR ''.'' then None
      else case canonical_host N host of
        Inl _ \<Rightarrow> None
      | Inr (h, _) \<Rightarrow>
          if h \<noteq> host \<or> \<not> (1 \<le> port \<and> port \<le> 65535) then None
          else if addresses = [] \<or> MAX_RESOLVED_ADDRESSES < length addresses then None
          else (case all_global N addresses of
              Inl _ \<Rightarrow> None
            | Inr as \<Rightarrow> Some \<lparr> dp_host = host, dp_port = port, dp_addresses = sorted_addresses N as \<rparr>))"

definition pin_contains :: "net_lib \<Rightarrow> dns_pin \<Rightarrow> string \<Rightarrow> bool" where
  "pin_contains N pin peer =
     (case canonical_global_ip N peer of Inl _ \<Rightarrow> False | Inr a \<Rightarrow> a \<in> set (dp_addresses pin))"

record resolved_url =
  ru_canonical_url :: string
  ru_scheme :: string
  ru_host :: string
  ru_port :: int
  ru_authority :: string
  ru_request_target :: string
  ru_pin :: dns_pin

definition url_authority :: "string \<Rightarrow> string \<Rightarrow> int \<Rightarrow> string" where
  "url_authority scheme host port =
     (let bracketed_host = (if CHR '':'' \<in> set host then ''['' @ host @ '']'' else host)
      in if Some port = default_port scheme then bracketed_host
         else bracketed_host @ '':'' @ dump_nat (nat port))"

definition ResolvedWebUrl :: "resolved_url \<Rightarrow> resolved_url option" where
  "ResolvedWebUrl r =
     (if default_port (ru_scheme r) = None then None
      else if \<not> (1 \<le> ru_port r \<and> ru_port r \<le> 65535) then None
      else if dp_host (ru_pin r) \<noteq> ru_host r \<or> dp_port (ru_pin r) \<noteq> ru_port r then None
      else if \<not> starts_with ''/'' (ru_request_target r) \<or> CHR ''#'' \<in> set (ru_request_target r) then None
      else if ru_authority r \<noteq> url_authority (ru_scheme r) (ru_host r) (ru_port r) then None
      else if ru_canonical_url r \<noteq> ru_scheme r @ ''://'' @ ru_authority r @ ru_request_target r then None
      else Some r)"

section \<open>The policy\<close>

record url_policy =
  pl_allowed_ports :: "(string \<times> int list) list"
  pl_max_url_bytes :: int
  pl_max_resolved :: int

definition WebUrlPolicy :: "url_policy \<Rightarrow> url_policy option" where
  "WebUrlPolicy p =
     (if pl_allowed_ports p \<noteq> [] \<and>
         list_all (\<lambda>(scheme, ports). default_port scheme \<noteq> None \<and> ports \<noteq> [] \<and>
           list_all (\<lambda>n. 1 \<le> n \<and> n \<le> 65535) ports) (pl_allowed_ports p) \<and>
         1 \<le> pl_max_url_bytes p \<and> pl_max_url_bytes p \<le> 16 * 1024 \<and>
         1 \<le> pl_max_resolved p \<and> pl_max_resolved p \<le> int MAX_RESOLVED_ADDRESSES
      then Some p else None)"

text \<open>
  The injected resolver answers with addresses, fails, or observes a cancellation; \<open>cancelled i\<close> is
  what the \<open>i\<close>-th reading of the cancellation probe says.
\<close>

datatype dns_answer = DnsAddresses "string list" | DnsFailed | DnsCancelled

definition resolve_all ::
    "net_lib \<Rightarrow> url_policy \<Rightarrow> (string \<Rightarrow> int \<Rightarrow> dns_answer) \<Rightarrow> string \<Rightarrow> int \<Rightarrow> url_error + string list" where
  "resolve_all N p resolver host port =
     (case resolver host port of
        DnsCancelled \<Rightarrow> Inl UrlCancelled
      | DnsFailed \<Rightarrow> Inl (UrlPolicyError DNS_RESOLUTION_FAILED)
      | DnsAddresses values \<Rightarrow>
          if values = [] \<or> pl_max_resolved p < int (length values)
          then Inl (UrlPolicyError DNS_RESOLUTION_FAILED)
          else (case all_global N values of
              Inl InvalidAddress \<Rightarrow> Inl (UrlPolicyError DNS_RESOLUTION_FAILED)
            | Inl UnsafeAddress \<Rightarrow> Inl (UrlPolicyError ADDRESS_DENIED)
            | Inr as \<Rightarrow> Inr (sorted_addresses N as)))"

text \<open>The target of a URL that passed the checks on its scheme and authority.\<close>

definition resolve_target ::
    "net_lib \<Rightarrow> url_policy \<Rightarrow> (string \<Rightarrow> int \<Rightarrow> dns_answer) \<Rightarrow> (nat \<Rightarrow> bool) \<Rightarrow> url_parts \<Rightarrow> string \<Rightarrow> string
      \<Rightarrow> bool \<Rightarrow> int \<Rightarrow> url_error + resolved_url" where
  "resolve_target N p resolver cancelled parts scheme host is_ip port =
     (case (canonicalize_url_component path_safe (if up_path parts = [] then ''/'' else up_path parts),
            canonicalize_url_component query_safe (up_query parts)) of
        (Some canonical_path, Some query) \<Rightarrow>
          (let path = remove_dot_segments canonical_path;
               authority = url_authority scheme host port;
               request_target = (if query = [] then path else path @ ''?'' @ query);
               canonical_url = scheme @ ''://'' @ authority @ request_target
           in if pl_max_url_bytes p < int (length canonical_url) then Inl (UrlPolicyError URL_TOO_LONG)
              else (case (if is_ip then Inr [host] else resolve_all N p resolver host port) of
                  Inl ex \<Rightarrow> Inl ex
                | Inr addresses \<Rightarrow>
                    if cancelled 1 then Inl UrlCancelled
                    else (case DnsPinSnapshot N host port addresses of
                        None \<Rightarrow> Inl UrlValueError
                      | Some pin \<Rightarrow>
                          (case ResolvedWebUrl \<lparr> ru_canonical_url = canonical_url, ru_scheme = scheme,
                                  ru_host = host, ru_port = port, ru_authority = authority,
                                  ru_request_target = request_target, ru_pin = pin \<rparr> of
                             None \<Rightarrow> Inl UrlValueError
                           | Some r \<Rightarrow> Inr r))))
      | _ \<Rightarrow> Inl (UrlPolicyError INVALID_URL))"

definition url_resolve ::
    "net_lib \<Rightarrow> url_policy \<Rightarrow> bool \<Rightarrow> (string \<Rightarrow> int \<Rightarrow> dns_answer) \<Rightarrow> (nat \<Rightarrow> bool) \<Rightarrow> string \<Rightarrow> url_error + resolved_url" where
  "url_resolve N p shut resolver cancelled url =
     (if shut then Inl (UrlPolicyError DNS_RESOLUTION_FAILED)
      else if cancelled 0 then Inl UrlCancelled
      else case validate_raw_url_text (pl_max_url_bytes p) url of
        Some code \<Rightarrow> Inl (UrlPolicyError code)
      | None \<Rightarrow>
          (case nl_urlsplit N url of
             None \<Rightarrow> Inl (UrlPolicyError INVALID_URL)
           | Some parts \<Rightarrow>
               (let scheme = map ascii_lower (up_scheme parts)
                in case default_port scheme of
                     None \<Rightarrow> Inl (UrlPolicyError SCHEME_DENIED)
                   | Some dport \<Rightarrow>
                       if up_netloc parts = [] then Inl (UrlPolicyError HOST_DENIED)
                       else if CHR ''@'' \<in> set (up_netloc parts) \<or> up_username parts \<noteq> None \<or>
                               up_password parts \<noteq> None
                       then Inl (UrlPolicyError USERINFO_DENIED)
                       else (case up_port parts of
                           None \<Rightarrow> Inl (UrlPolicyError INVALID_URL)
                         | Some parsed_port \<Rightarrow>
                             (case canonical_host N (case up_hostname parts of None \<Rightarrow> [] | Some h \<Rightarrow> h) of
                                Inl code \<Rightarrow> Inl (UrlPolicyError code)
                              | Inr (host, is_ip) \<Rightarrow>
                                  (let port = (case parsed_port of None \<Rightarrow> dport | Some n \<Rightarrow> n)
                                   in if (case map_of (pl_allowed_ports p) scheme of
                                            None \<Rightarrow> True | Some ports \<Rightarrow> port \<notin> set ports)
                                      then Inl (UrlPolicyError PORT_DENIED)
                                      else resolve_target N p resolver cancelled parts scheme host is_ip port))))))"

definition validate_redirect ::
    "net_lib \<Rightarrow> url_policy \<Rightarrow> bool \<Rightarrow> (string \<Rightarrow> int \<Rightarrow> dns_answer) \<Rightarrow> (nat \<Rightarrow> bool) \<Rightarrow> (nat \<Rightarrow> bool) \<Rightarrow> resolved_url \<Rightarrow> string
      \<Rightarrow> url_error + resolved_url" where
  "validate_redirect N p shut resolver cancelled cancelled' base location =
     (if cancelled 0 then Inl UrlCancelled
      else case validate_raw_url_text (pl_max_url_bytes p) location of
        Some code \<Rightarrow> Inl (UrlPolicyError (if code = URL_TOO_LONG then URL_TOO_LONG else REDIRECT_DENIED))
      | None \<Rightarrow>
          (case nl_urljoin N (ru_canonical_url base) location of
             None \<Rightarrow> Inl (UrlPolicyError REDIRECT_DENIED)
           | Some url \<Rightarrow> url_resolve N p shut resolver cancelled' url))"

definition verify_peer :: "net_lib \<Rightarrow> resolved_url \<Rightarrow> string \<Rightarrow> url_code option" where
  "verify_peer N r peer =
     (case canonical_global_ip N peer of
        Inl _ \<Rightarrow> Some ADDRESS_DENIED
      | Inr a \<Rightarrow> if a \<in> set (dp_addresses (ru_pin r)) then None else Some DNS_PIN_MISMATCH)"

end
