(* ===== verification/Url_Safety.thy ===== *)
theory Url_Safety
  imports Url_Policy
begin

text \<open>
  What a resolved URL guarantees: its path has no dot segments left, in plain or encoded form, and
  every address it may be fetched from is globally routable.
\<close>

section \<open>Dot segments\<close>

text \<open>An absolute path as the list of its segments, and the reference: a stack of segments.\<close>

definition join_path :: "string list \<Rightarrow> string" where
  "join_path segs = concat (map (\<lambda>s. CHR ''/'' # s) segs)"

fun normalize :: "string list \<Rightarrow> string list \<Rightarrow> string list" where
  "normalize stack [] = rev stack"
| "normalize stack (s # rest) =
     (if s = ''.'' then (if rest = [] then rev ([] # stack) else normalize stack rest)
      else if s = ''..'' then (if rest = [] then rev ([] # tl stack) else normalize (tl stack) rest)
      else normalize (s # stack) rest)"

definition plain :: "string \<Rightarrow> bool" where
  "plain s \<longleftrightarrow> CHR ''/'' \<notin> set s"

lemma join_path_simps [simp]:
  "join_path [] = []" "join_path (s # ss) = CHR ''/'' # s @ join_path ss"
  "join_path (xs @ ys) = join_path xs @ join_path ys"
  by (simp_all add: join_path_def)

lemma rpartition_join:
  assumes "plain s"
  shows "rpartition_head (join_path (xs @ [s])) = join_path xs"
proof -
  have "dropWhile (\<lambda>c. c \<noteq> CHR ''/'') (rev s @ CHR ''/'' # ys) = CHR ''/'' # ys" for ys
    using assms by (subst dropWhile_append2) (auto simp: plain_def)
  then show ?thesis by (simp add: rpartition_head_def)
qed

lemma rpartition_stack: "list_all plain stack \<Longrightarrow> rpartition_head (join_path (rev stack)) = join_path (rev (tl stack))"
  by (cases stack) (simp_all add: rpartition_join rpartition_head_def [of "[]"] del: join_path_simps(3))

lemma takeWhile_segment:
  assumes "plain s"
  shows "takeWhile (\<lambda>c. c \<noteq> CHR ''/'') (s @ join_path ss) = s"
proof -
  have "takeWhile (\<lambda>c. c \<noteq> CHR ''/'') (join_path ss) = []" by (cases ss) auto
  then show ?thesis using assms by (subst takeWhile_append2) (auto simp: plain_def)
qed

lemma first_segment_join: "plain s \<Longrightarrow> first_segment (join_path (s # ss)) = CHR ''/'' # s"
  by (simp add: first_segment_def takeWhile_segment)

lemma head_dot:
  assumes "plain s"
  shows "starts_with ''/./'' (join_path (s # ss)) \<longleftrightarrow> s = ''.'' \<and> ss \<noteq> []"
    and "join_path (s # ss) = ''/.'' \<longleftrightarrow> s = ''.'' \<and> ss = []"
    and "starts_with ''/../'' (join_path (s # ss)) \<longleftrightarrow> s = ''..'' \<and> ss \<noteq> []"
    and "join_path (s # ss) = ''/..'' \<longleftrightarrow> s = ''..'' \<and> ss = []"
proof -
  consider "s = []" | c where "s = [c]" | c d where "s = [c, d]" | c d e t where "s = c # d # e # t"
    by (metis list.exhaust)
  then have "(starts_with ''/./'' (join_path (s # ss)) \<longleftrightarrow> s = ''.'' \<and> ss \<noteq> []) \<and>
    (join_path (s # ss) = ''/.'' \<longleftrightarrow> s = ''.'' \<and> ss = []) \<and>
    (starts_with ''/../'' (join_path (s # ss)) \<longleftrightarrow> s = ''..'' \<and> ss \<noteq> []) \<and>
    (join_path (s # ss) = ''/..'' \<longleftrightarrow> s = ''..'' \<and> ss = [])"
    using assms by cases (cases ss; auto simp: starts_with_def plain_def)+
  then show "starts_with ''/./'' (join_path (s # ss)) \<longleftrightarrow> s = ''.'' \<and> ss \<noteq> []"
    "join_path (s # ss) = ''/.'' \<longleftrightarrow> s = ''.'' \<and> ss = []"
    "starts_with ''/../'' (join_path (s # ss)) \<longleftrightarrow> s = ''..'' \<and> ss \<noteq> []"
    "join_path (s # ss) = ''/..'' \<longleftrightarrow> s = ''..'' \<and> ss = []" by blast+
qed

lemma not_relative: "\<not> starts_with ''../'' (CHR ''/'' # t)" "\<not> starts_with ''./'' (CHR ''/'' # t)"
  by (simp_all add: starts_with_def)

lemma loop_root: "remove_dots_loop ''/'' out = out @ ''/''"
  by (subst remove_dots_loop.simps)
     (simp add: starts_with_def first_segment_def remove_dots_loop.simps [of "[]"])

text \<open>The loop of the source is the stack of segments.\<close>

lemma loop_normalize:
  "list_all plain segs \<Longrightarrow> list_all plain stack \<Longrightarrow>
     remove_dots_loop (join_path segs) (join_path (rev stack)) = join_path (normalize stack segs)"
proof (induction stack segs rule: normalize.induct)
  case (1 stack)
  then show ?case by (simp add: remove_dots_loop.simps [of "[]"])
next
  case (2 stack s rest)
  have p: "plain s" "list_all plain rest" "list_all plain (tl stack)" using 2(4,5) by (cases stack; auto)+
  note h = head_dot [OF p(1), of rest]
  have step: "remove_dots_loop (join_path (s # rest)) out =
      (if s = ''.'' then remove_dots_loop (if rest = [] then ''/'' else join_path rest) out
       else if s = ''..'' then remove_dots_loop (if rest = [] then ''/'' else join_path rest) (rpartition_head out)
       else remove_dots_loop (join_path rest) (out @ CHR ''/'' # s))" for out
  proof -
    have d: "join_path rest = CHR ''/'' # drop 1 (join_path rest)" if "rest \<noteq> []" using that by (cases rest) auto
    have seg: "drop (length (first_segment (join_path (s # rest)))) (join_path (s # rest)) = join_path rest"
      using first_segment_join [OF p(1), of rest] by simp
    show ?thesis
      using d by (subst remove_dots_loop.simps)
        (simp only: h first_segment_join [OF p(1)] seg, auto simp: not_relative starts_with_def)
  qed
  show ?case
    unfolding step
    using 2 p rpartition_stack [OF 2(5)] by (auto simp: loop_root)
qed

definition clean_segment :: "string \<Rightarrow> bool" where
  "clean_segment s \<longleftrightarrow> plain s \<and> s \<noteq> ''.'' \<and> s \<noteq> ''..''"

lemma clean_nil [simp]: "clean_segment []"
  by (simp add: clean_segment_def plain_def)

lemma normalize_clean:
  "list_all plain segs \<Longrightarrow> list_all clean_segment stack \<Longrightarrow> list_all clean_segment (normalize stack segs)"
proof (induction stack segs rule: normalize.induct)
  case (2 stack s rest)
  have "list_all clean_segment (tl stack)" using 2(5) by (cases stack) auto
  then show ?case using 2 by (auto simp: clean_segment_def [of s] list_all_iff)
qed (simp add: list_all_iff)

lemma normalize_nonempty: "segs \<noteq> [] \<or> stack \<noteq> [] \<Longrightarrow> normalize stack segs \<noteq> []"
  by (induction stack segs rule: normalize.induct) auto

lemma normalize_subset: "set (normalize stack segs) \<subseteq> insert [] (set stack \<union> set segs)"
proof (induction stack segs rule: normalize.induct)
  case (2 stack s rest)
  have "set (tl stack) \<subseteq> set stack" by (cases stack) auto
  then show ?case using 2 by (auto split: if_splits)
qed auto

lemma split_char_join: "join_path (split_char (CHR ''/'') s) = CHR ''/'' # s"
  by (induction s) (auto split: list.splits)

lemma split_char_plain: "list_all plain (split_char (CHR ''/'') s)" "split_char x s \<noteq> []"
  by (induction s) (auto simp: plain_def split: list.splits)

lemma remove_dot_segments_stack:
  "remove_dot_segments (CHR ''/'' # s) = join_path (normalize [] (split_char (CHR ''/'') s))"
proof -
  have "remove_dots_loop (CHR ''/'' # s) [] = join_path (normalize [] (split_char (CHR ''/'') s))"
    using loop_normalize [OF split_char_plain(1), of "[]" s] by (simp add: split_char_join)
  moreover have "normalize [] (split_char (CHR ''/'') s) \<noteq> []"
    using normalize_nonempty split_char_plain(2) by blast
  then have "join_path (normalize [] (split_char (CHR ''/'') s)) \<noteq> []"
    by (cases "normalize [] (split_char (CHR ''/'') s)") auto
  ultimately show ?thesis by (simp add: remove_dot_segments_def Let_def)
qed

section \<open>Percent encoding\<close>

text \<open>
  Canonical text: only safe characters and upper-case escapes of bytes that are not unreserved, so
  that a dot is never hidden in an escape.
\<close>

fun canonical_text :: "(char \<Rightarrow> bool) \<Rightarrow> string \<Rightarrow> bool" where
  "canonical_text safe [] = True"
| "canonical_text safe (c # cs) =
     (if c = CHR ''%''
      then (case cs of
          a # b # rest \<Rightarrow> (is_digit a \<or> a \<in> set ''ABCDEF'') \<and> (is_digit b \<or> b \<in> set ''ABCDEF'') \<and>
            \<not> is_unreserved (char_of (16 * hex_number a + hex_number b)) \<and> canonical_text safe rest
        | _ \<Rightarrow> False)
      else safe c \<and> canonical_text safe cs)"

lemma canonical_text_append:
  assumes "canonical_text safe u" "canonical_text safe v"
  shows "canonical_text safe (u @ v)"
  using assms by (induction safe u rule: canonical_text.induct) (auto split: list.splits if_splits)

lemma canonical_text_slash:
  assumes "safe (CHR ''/'')"
  shows "canonical_text safe (u @ CHR ''/'' # v) \<longleftrightarrow> canonical_text safe u \<and> canonical_text safe v"
  using assms
proof (induction safe u rule: canonical_text.induct)
  case (2 safe c cs)
  have slash: "\<not> (is_digit (CHR ''/'') \<or> CHR ''/'' \<in> set ''ABCDEF'')" by (simp add: is_digit_def)
  show ?case
  proof (cases "c = CHR ''%''")
    case False
    then show ?thesis using 2 by auto
  next
    case True
    show ?thesis
    proof (cases cs)
      case Nil
      then show ?thesis using True slash by (auto split: list.splits)
    next
      case (Cons a as)
      then show ?thesis using True slash 2 by (cases as) (auto split: list.splits)
    qed
  qed
qed simp

lemma canonical_join:
  assumes "safe (CHR ''/'')"
  shows "canonical_text safe (join_path segs) \<longleftrightarrow> list_all (canonical_text safe) segs"
proof (induction segs)
  case (Cons s ss)
  have "canonical_text safe (join_path (s # ss)) \<longleftrightarrow> canonical_text safe (s @ join_path ss)" using assms by simp
  also have "\<dots> \<longleftrightarrow> canonical_text safe s \<and> canonical_text safe (join_path ss)"
    using canonical_text_slash [of safe s] assms by (cases ss) auto
  finally show ?case using Cons by simp
qed simp

lemma upper_hex_ok:
  assumes "n < 16"
  shows "is_digit (upper_hex n) \<or> upper_hex n \<in> set ''ABCDEF''" "hex_number (upper_hex n) = n"
proof -
  have "\<forall>n \<in> set [0..<16]. (is_digit (upper_hex n) \<or> upper_hex n \<in> set ''ABCDEF'') \<and> hex_number (upper_hex n) = n"
    by code_simp
  then show "is_digit (upper_hex n) \<or> upper_hex n \<in> set ''ABCDEF''" "hex_number (upper_hex n) = n"
    using assms by auto
qed

definition upper_ok :: "char \<Rightarrow> bool" where
  "upper_ok a \<longleftrightarrow> (is_digit (ascii_upper a) \<or> ascii_upper a \<in> set ''ABCDEF'') \<and>
     hex_number (ascii_upper a) = hex_number a"

lemma ascii_upper_hex:
  assumes "is_hex a"
  shows "upper_ok a"
proof (cases "is_digit a")
  case True
  then have "ascii_upper a = a" by (simp add: ascii_upper_def is_digit_def)
  then show ?thesis using True by (simp add: upper_ok_def)
next
  case False
  then have "a \<in> set ''ABCDEFabcdef''" using assms unfolding is_hex_def by blast
  moreover have "list_all upper_ok ''ABCDEFabcdef''" by code_simp
  ultimately show ?thesis unfolding list_all_iff by blast
qed

lemma canonicalize_ok:
  assumes "\<not> safe (CHR ''%'')" "\<And>c. is_unreserved c \<Longrightarrow> safe c"
  shows "canonicalize_url_component safe s = Some out \<Longrightarrow> canonical_text safe out"
  using assms
proof (induction safe s arbitrary: out rule: canonicalize_url_component.induct)
  case (2 safe c cs)
  show ?case
  proof (cases "c = CHR ''%''")
    case True
    then obtain a b rest where cs: "cs = a # b # rest" "is_hex a" "is_hex b"
      using 2(3) by (auto split: list.splits if_splits)
    define d where "d = char_of (16 * hex_number a + hex_number b)"
    obtain r where r: "canonicalize_url_component safe rest = Some r"
        "out = (if is_unreserved d then [d] else [CHR ''%'', ascii_upper a, ascii_upper b]) @ r"
      using 2(3) True cs by (auto simp: Let_def d_def)
    have "canonical_text safe r"
      using 2(1) [OF True cs(1) refl _ refl refl r(1)] 2(4,5) cs by auto
    moreover have "canonical_text safe (if is_unreserved d then [d] else [CHR ''%'', ascii_upper a, ascii_upper b])"
      using ascii_upper_hex [OF cs(2)] ascii_upper_hex [OF cs(3)] 2(4,5) by (auto simp: upper_ok_def d_def)
    ultimately show ?thesis unfolding r(2) by (rule canonical_text_append [rotated])
  next
    case False
    then obtain r where r: "canonicalize_url_component safe cs = Some r"
        "out = (if safe c then [c] else percent_byte (byte c)) @ r" using 2(3) by auto
    have "canonical_text safe r" using 2(2) [OF False r(1)] 2(4,5) by blast
    moreover have "byte c < 256" by simp
    then have n: "byte c div 16 < 16" "byte c mod 16 < 16" by (simp_all add: less_mult_imp_div_less)
    have "canonical_text safe (if safe c then [c] else percent_byte (byte c))"
      using upper_hex_ok [OF n(1)] upper_hex_ok [OF n(2)] False 2(5) [of c]
      by (auto simp: percent_byte_def)
    ultimately show ?thesis unfolding r(2) by (rule canonical_text_append [rotated])
  qed
qed auto

lemma safe_chars:
  "\<not> path_safe (CHR ''%'')" "is_unreserved c \<Longrightarrow> path_safe c" "path_safe (CHR ''/'')"
  by (simp_all add: path_safe_def is_unreserved_def is_alnum_def is_upper_def is_lower_def is_digit_def)

text \<open>A path is clean if it is absolute, canonically encoded and free of dot segments.\<close>

definition clean_path :: "string \<Rightarrow> bool" where
  "clean_path path \<longleftrightarrow> (\<exists>segs. segs \<noteq> [] \<and> path = join_path segs \<and> list_all clean_segment segs \<and>
     list_all (canonical_text path_safe) segs)"

lemma target_path_clean:
  assumes "canonicalize_url_component path_safe (CHR ''/'' # s) = Some p"
  shows "clean_path (remove_dot_segments p)"
proof -
  obtain t where p: "p = CHR ''/'' # t" using assms safe_chars(3) by auto
  let ?segs = "split_char (CHR ''/'') t"
  have "canonical_text path_safe p" using canonicalize_ok [OF safe_chars(1,2) assms] .
  then have "canonical_text path_safe (join_path ?segs)" by (simp add: split_char_join p)
  then have c: "list_all (canonical_text path_safe) ?segs" using canonical_join [of path_safe] safe_chars(3) by simp
  have "list_all (canonical_text path_safe) (normalize [] ?segs)"
    using c normalize_subset [of "[]" ?segs] by (auto simp: list_all_iff)
  moreover have "list_all clean_segment (normalize [] ?segs)"
    using normalize_clean [OF split_char_plain(1), of "[]"] by simp
  moreover have "normalize [] ?segs \<noteq> []" using normalize_nonempty split_char_plain(2) by blast
  ultimately show ?thesis unfolding p remove_dot_segments_stack clean_path_def by blast
qed

section \<open>Addresses\<close>

text \<open>\<open>routable N a\<close>: \<open>a\<close> is the canonical text of a parsed address that no category excludes.\<close>

definition routable :: "net_lib \<Rightarrow> string \<Rightarrow> bool" where
  "routable N a \<longleftrightarrow> (\<exists>v p i. nl_ip_address N v = Some p \<and> effective_ip p = Inr i \<and> a = ia_text i \<and>
     ia_global i \<and> \<not> ia_private i \<and> \<not> ia_loopback i \<and> \<not> ia_link_local i \<and> \<not> ia_multicast i \<and>
     \<not> ia_reserved i \<and> \<not> ia_unspecified i \<and> \<not> ia_site_local i)"

lemma canonical_ip_routable: "canonical_global_ip N v = Inr a \<Longrightarrow> routable N a"
  by (auto simp: canonical_global_ip_def routable_def ip_denied_def split: if_splits option.splits sum.splits)

lemma all_global_routable: "all_global N vs = Inr as \<Longrightarrow> list_all (routable N) as \<and> length as = length vs"
  by (induction vs arbitrary: as) (auto dest: canonical_ip_routable split: sum.splits)

lemma pin_ok:
  assumes "DnsPinSnapshot N host port addresses = Some pin"
  shows "dp_host pin = host" "dp_port pin = port" "dp_addresses pin \<noteq> []"
    "length (dp_addresses pin) \<le> MAX_RESOLVED_ADDRESSES" "list_all (routable N) (dp_addresses pin)"
    "1 \<le> port \<and> port \<le> 65535"
proof -
  obtain as where as: "all_global N addresses = Inr as" "addresses \<noteq> []" "length addresses \<le> MAX_RESOLVED_ADDRESSES"
      "pin = \<lparr> dp_host = host, dp_port = port, dp_addresses = sorted_addresses N as \<rparr>" "1 \<le> port \<and> port \<le> 65535"
    using assms by (auto simp: DnsPinSnapshot_def split: if_splits sum.splits)
  note g = all_global_routable [OF as(1)]
  show "dp_host pin = host" "dp_port pin = port" "1 \<le> port \<and> port \<le> 65535" using as by simp_all
  have "as \<noteq> []" using g as(2) by auto
  then have "sorted_addresses N as \<noteq> []" by (metis sorted_addresses_def remdups_eq_nil_iff set_empty set_sort)
  then show "dp_addresses pin \<noteq> []" by (simp add: as(4))
  show "list_all (routable N) (dp_addresses pin)" using g by (simp add: as(4) sorted_addresses_def list_all_iff)
  show "length (dp_addresses pin) \<le> MAX_RESOLVED_ADDRESSES"
    using g as(3) length_remdups_leq [of as] by (simp add: as(4) sorted_addresses_def)
qed

lemma canonical_host_domain:
  "canonical_host N h = Inr (host, False) \<Longrightarrow> \<not> is_special_domain host \<and> 2 \<le> length (split_char (CHR ''.'') host)"
  by (auto simp: canonical_host_def canonical_domain_def Let_def not_less
      split: if_splits sum.splits ip_error.splits option.splits)

section \<open>Resolved URLs\<close>

definition safe_target :: "net_lib \<Rightarrow> url_policy \<Rightarrow> resolved_url \<Rightarrow> bool" where
  "safe_target N p r \<longleftrightarrow>
     default_port (ru_scheme r) \<noteq> None \<and>
     (\<exists>ports. map_of (pl_allowed_ports p) (ru_scheme r) = Some ports \<and> ru_port r \<in> set ports) \<and>
     dp_host (ru_pin r) = ru_host r \<and> dp_port (ru_pin r) = ru_port r \<and>
     dp_addresses (ru_pin r) \<noteq> [] \<and> length (dp_addresses (ru_pin r)) \<le> MAX_RESOLVED_ADDRESSES \<and>
     list_all (routable N) (dp_addresses (ru_pin r)) \<and>
     (routable N (ru_host r) \<or> \<not> is_special_domain (ru_host r) \<and> 2 \<le> length (split_char (CHR ''.'') (ru_host r))) \<and>
     (\<exists>path query. ru_request_target r = (if query = [] then path else path @ ''?'' @ query) \<and> clean_path path) \<and>
     ru_canonical_url r = ru_scheme r @ ''://'' @ url_authority (ru_scheme r) (ru_host r) (ru_port r) @ ru_request_target r \<and>
     int (length (ru_canonical_url r)) \<le> pl_max_url_bytes p"

text \<open>With an authority, the path of \<open>urlsplit\<close> is empty or starts with a slash.\<close>

definition split_law :: "net_lib \<Rightarrow> bool" where
  "split_law N \<longleftrightarrow> (\<forall>u parts. nl_urlsplit N u = Some parts \<and> up_netloc parts \<noteq> [] \<longrightarrow>
     up_path parts = [] \<or> (\<exists>s. up_path parts = CHR ''/'' # s))"

lemma resolve_target_ok:
  assumes t: "resolve_target N p resolver cancelled parts scheme host is_ip port = Inr r"
    and path: "up_path parts = [] \<or> (\<exists>s. up_path parts = CHR ''/'' # s)"
    and host: "canonical_host N h = Inr (host, is_ip)"
    and port: "map_of (pl_allowed_ports p) scheme = Some ports" "port \<in> set ports" "default_port scheme \<noteq> None"
  shows "safe_target N p r"
proof -
  let ?path = "if up_path parts = [] then ''/'' else up_path parts"
  have "canonicalize_url_component path_safe ?path \<noteq> None" "canonicalize_url_component query_safe (up_query parts) \<noteq> None"
    using t by (auto simp: resolve_target_def split: option.splits)
  then obtain cp query where c: "canonicalize_url_component path_safe ?path = Some cp"
    "canonicalize_url_component query_safe (up_query parts) = Some query" by blast
  define target where "target = (if query = [] then remove_dot_segments cp else remove_dot_segments cp @ ''?'' @ query)"
  define full where "full = scheme @ ''://'' @ url_authority scheme host port @ target"
  note t' = t [unfolded resolve_target_def c option.case prod.case Let_def, folded target_def, folded full_def]
  have len: "int (length full) \<le> pl_max_url_bytes p" using t' by (auto split: if_splits)
  obtain addresses where a: "(if is_ip then Inr [host] else resolve_all N p resolver host port) = Inr addresses"
    using t' len by (cases "if is_ip then Inr [host] else resolve_all N p resolver host port") auto
  note t'' = t' [unfolded a sum.case]
  obtain pin where pin: "DnsPinSnapshot N host port addresses = Some pin"
    using t'' len by (cases "DnsPinSnapshot N host port addresses") (auto split: if_splits)
  have r0: "ResolvedWebUrl \<lparr> ru_canonical_url = full, ru_scheme = scheme, ru_host = host, ru_port = port,
      ru_authority = url_authority scheme host port, ru_request_target = target, ru_pin = pin \<rparr> = Some r"
    using t'' [unfolded pin option.case] len by (auto split: if_splits option.splits)
  then have r: "r = \<lparr> ru_canonical_url = full, ru_scheme = scheme, ru_host = host, ru_port = port,
      ru_authority = url_authority scheme host port, ru_request_target = target, ru_pin = pin \<rparr>"
    by (simp add: ResolvedWebUrl_def split: if_splits)
  obtain s where "?path = CHR ''/'' # s" using path by (cases "up_path parts = []") auto
  then have clean: "clean_path (remove_dot_segments cp)" using target_path_clean c by simp
  have dom: "routable N host \<or> \<not> is_special_domain host \<and> 2 \<le> length (split_char (CHR ''.'') host)"
  proof (cases is_ip)
    case True
    then have "routable N host" using host
      by (auto simp: canonical_host_def dest: canonical_ip_routable split: if_splits sum.splits ip_error.splits option.splits)
    then show ?thesis ..
  next
    case False
    then have "canonical_host N h = Inr (host, False)" using host by simp
    then show ?thesis by (intro disjI2) (rule canonical_host_domain)
  qed
  have "\<exists>path query. target = (if query = [] then path else path @ ''?'' @ query) \<and> clean_path path"
    using clean target_def by blast
  then show ?thesis
    unfolding safe_target_def r using pin_ok [OF pin] port dom len by (auto simp: full_def)
qed

lemma url_resolve_ok:
  assumes "split_law N" "url_resolve N p shut resolver cancelled url = Inr r"
  shows "safe_target N p r"
proof -
  obtain parts where parts: "nl_urlsplit N url = Some parts" "up_netloc parts \<noteq> []"
    and t: "\<exists>scheme host is_ip port h ports. resolve_target N p resolver cancelled parts scheme host is_ip port = Inr r \<and>
      canonical_host N h = Inr (host, is_ip) \<and> map_of (pl_allowed_ports p) scheme = Some ports \<and>
      port \<in> set ports \<and> default_port scheme \<noteq> None"
    using assms(2) unfolding url_resolve_def Let_def
    by (auto split: if_splits option.splits sum.splits; blast)
  have "up_path parts = [] \<or> (\<exists>s. up_path parts = CHR ''/'' # s)"
    using assms(1) parts unfolding split_law_def by blast
  then show ?thesis using t resolve_target_ok by blast
qed

text \<open>
  C24. A URL that the policy resolves, directly or as the target of a redirect, is safe to fetch: its
  scheme and port are allowed, its host is a globally routable address or a name that is not for
  special use, every pinned address is globally routable and there are between one and 32 of them,
  its path is canonically encoded and without dot segments, plain or encoded, and the canonical URL
  is put together from these parts within the size limit. A connected peer is accepted only if its
  address is one of the pinned ones.
\<close>

theorem url_policy_safe:
  assumes "split_law N"
    and "url_resolve N p shut resolver cancelled url = Inr r \<or>
      validate_redirect N p shut resolver cancelled cancelled' base location = Inr r"
  shows "safe_target N p r \<and>
    (verify_peer N r peer = None \<longrightarrow>
       (\<exists>a \<in> set (dp_addresses (ru_pin r)). canonical_global_ip N peer = Inr a \<and> routable N a))"
proof
  show "safe_target N p r"
    using assms(2) url_resolve_ok [OF assms(1)]
    by (auto simp: validate_redirect_def split: if_splits option.splits)
  show "verify_peer N r peer = None \<longrightarrow>
      (\<exists>a \<in> set (dp_addresses (ru_pin r)). canonical_global_ip N peer = Inr a \<and> routable N a)"
    by (auto simp: verify_peer_def dest: canonical_ip_routable split: sum.splits if_splits)
qed

section \<open>An example\<close>

definition ex_ip :: ip_attrs where
  "ex_ip = \<lparr> ia_text = ''8.8.8.8'', ia_key = ''4'', ia_private = False, ia_loopback = False, ia_link_local = False,
     ia_multicast = False, ia_reserved = False, ia_unspecified = False, ia_site_local = False, ia_global = True \<rparr>"

definition ex_net :: net_lib where
  "ex_net = \<lparr> nl_urlsplit = (\<lambda>u. if u = ''https://ab.cd/x/%2e%2E/y'' then Some \<lparr> up_scheme = ''https'', up_netloc = ''ab.cd'',
        up_path = ''/x/%2e%2E/y'', up_query = [], up_username = None, up_password = None, up_port = Some None,
        up_hostname = Some ''ab.cd'' \<rparr> else None),
     nl_urljoin = (\<lambda>b l. None),
     nl_ip_address = (\<lambda>v. if v = ''8.8.8.8'' then Some \<lparr> ip_attrs = ex_ip, ip_v6 = None \<rparr> else None),
     nl_idna_encode = Some, nl_idna_decode = Some \<rparr>"

definition ex_url_policy :: url_policy where
  "ex_url_policy = \<lparr> pl_allowed_ports = [(''http'', [80]), (''https'', [443])], pl_max_url_bytes = 2048, pl_max_resolved = 32 \<rparr>"

definition ex_resolved :: resolved_url where
  "ex_resolved = \<lparr> ru_canonical_url = ''https://ab.cd/y'', ru_scheme = ''https'', ru_host = ''ab.cd'', ru_port = 443,
     ru_authority = ''ab.cd'', ru_request_target = ''/y'',
     ru_pin = \<lparr> dp_host = ''ab.cd'', dp_port = 443, dp_addresses = [''8.8.8.8''] \<rparr> \<rparr>"

definition ex_resolve :: "url_error + resolved_url" where
  "ex_resolve = url_resolve ex_net ex_url_policy False (\<lambda>h p. DnsAddresses [''8.8.8.8'']) (\<lambda>_. False) ''https://ab.cd/x/%2e%2E/y''"

lemma ex_resolve_eval: "ex_resolve = Inr ex_resolved"
  by code_simp

theorem url_policy_safe_witness:
  "ex_resolve = Inr ex_resolved \<and> safe_target ex_net ex_url_policy ex_resolved \<and>
   verify_peer ex_net ex_resolved ''8.8.8.8'' = None \<and> routable ex_net ''8.8.8.8''"
proof -
  have "split_law ex_net" by (auto simp: split_law_def ex_net_def)
  from url_policy_safe [OF this disjI1 [OF ex_resolve_eval [unfolded ex_resolve_def]]]
  have s: "safe_target ex_net ex_url_policy ex_resolved \<and> (verify_peer ex_net ex_resolved ''8.8.8.8'' = None \<longrightarrow>
      (\<exists>a \<in> set (dp_addresses (ru_pin ex_resolved)). canonical_global_ip ex_net ''8.8.8.8'' = Inr a \<and> routable ex_net a))"
    by blast
  have v: "verify_peer ex_net ex_resolved ''8.8.8.8'' = None" by code_simp
  have "set (dp_addresses (ru_pin ex_resolved)) = {''8.8.8.8''}" by (simp add: ex_resolved_def)
  then show ?thesis using s v ex_resolve_eval by auto
qed

end
