(* ===== verification/Spec2Isabelle.thy ===== *)
theory Spec2Isabelle
  imports Run_Properties Run_Retry Run_Cancel Event_Delivery Outbox_Delivery Rate_Limit_Requests Auth_Safety
    Guardrail_Safety Provider_Safety Rerank_Safety Url_Safety
begin

text \<open>
  Verification of SuperMew, a service that runs conversational agents. Paths are relative to
  \<^verbatim>\<open>src/backend\<close>.

  \<^bold>\<open>The program.\<close> A user talks to the agent in a thread. A request reserves a Run: the user
  message, an empty assistant message and the Run row are written in one transaction. A worker
  claims the Run under a lease and a fencing token, journals events, may suspend it for human
  input, and finalises it. All state lives in PostgreSQL; workers and API processes interleave
  at the granularity of transactions.

  \<^bold>\<open>The model.\<close> A database is a record of tables, a transaction a function to an exception or a
  result with the new database (\<open>Database\<close>, after \<^verbatim>\<open>db/models.py\<close>). The clock, \<open>uuid4\<close>, SHA-256
  and the settings a transaction reads are the record \<open>env\<close>. \<open>Prelude\<close> has the shared text and
  table operations, \<open>Errors\<close> the public errors of \<^verbatim>\<open>core/errors.py\<close>, \<open>Run_State\<close> the automaton of
  \<^verbatim>\<open>runs/state.py\<close>, \<open>Event_Journal\<close> \<^verbatim>\<open>events/journal.py\<close>, \<open>Run_Request\<close> the validation and
  hashing of a request, \<open>Run_Repository\<close> and \<open>Run_Lifecycle\<close> the transactions of
  \<^verbatim>\<open>runs/repository.py\<close>, \<open>Checkpoints\<close> the repository of \<^verbatim>\<open>rag/checkpoint_runner.py\<close>, \<open>Threads\<close>
  \<^verbatim>\<open>threads/repository.py\<close> and \<^verbatim>\<open>threads/service.py\<close>. \<open>Fixtures\<close> holds concrete databases.

  \<^bold>\<open>The proofs.\<close> \<open>Run_Invariant\<close> states the invariant of the tables, \<open>Run_Frames\<close> what a
  transaction leaves alone, \<open>Run_Safety\<close>, \<open>Run_Finalize\<close>, \<open>Run_Reserve\<close>, \<open>Checkpoint_Safety\<close> and
  \<open>Thread_Safety\<close> that every transaction keeps the invariant, moves the database forward only
  and does not run into a unique index. \<open>Run_System\<close> composes them into a transition system
  and proves the invariants of every reachable state; \<open>Run_Properties\<close>, \<open>Run_Retry\<close> and
  \<open>Thread_Views\<close> prove what the operations promise across steps. There is no fuel: every
  modelled loop is over a finite list.

  \<^bold>\<open>Callers.\<close> \<open>Run_Service\<close> models \<^verbatim>\<open>runs/service.py\<close>, the cancellation token and the end of an
  execution of \<^verbatim>\<open>runs/cancellation.py\<close> and the execution snapshot; \<open>Run_Cancel\<close> proves that the two
  transactions of \<open>request_cancel\<close> can strand a Run.

  \<^bold>\<open>Delivery.\<close> \<open>Event_Bus\<close> models the subscription loop of \<^verbatim>\<open>events/bus.py\<close> and the publisher of
  \<^verbatim>\<open>events/outbox.py\<close>, one list element per loop iteration. \<open>Event_Delivery\<close> proves exactly-once
  delivery and termination for any log that satisfies the locale \<open>event_log\<close>, interpreted on the
  journal of a reachable database along \<open>run_step\<close>; \<open>Outbox_Delivery\<close> does the publisher.

  \<^bold>\<open>Rate limits.\<close> \<open>Rate_Limits\<close> models \<^verbatim>\<open>rate_limits/{contracts,policy,adapters,limiter}.py\<close> with the
  Lua script of the Redis adapter, \<open>Rate_Limit_Http\<close> the middleware and the login check
  (\<^verbatim>\<open>http.py\<close>, \<^verbatim>\<open>auth.py\<close>). \<open>Rate_Limit_Properties\<close> has a specification of fixed windows over the
  history of admitted checks and the locale \<open>fixed_window\<close> of what an adapter owes the limiter,
  interpreted on both adapters; \<open>Rate_Limit_Requests\<close> composes the callers with them. Clock
  readings are whole microseconds, so the rounding of floating-point seconds is not modelled.

  \<^bold>\<open>Tokens.\<close> \<open>Auth_Tokens\<close> models the ledger of refresh tokens of \<^verbatim>\<open>auth/service.py\<close>, the access
  tokens of \<^verbatim>\<open>auth/access.py\<close> and the retention job of \<^verbatim>\<open>auth/cleanup.py\<close>; \<open>Auth_Safety\<close> follows one
  token through any sequence of transactions (\<open>token_step\<close>).

  \<^bold>\<open>Guardrails.\<close> \<open>Guardrails\<close> models \<^verbatim>\<open>guardrails/{contracts,policy,approvals}.py\<close>, with tool arguments
  as objects of a heap; \<open>Guardrail_Safety\<close> proves that evaluation always answers with a valid
  result, what an allowed call satisfies, and that argument summaries hide the arguments.

  \<^bold>\<open>Providers.\<close> \<open>Providers\<close> models the errors, policies and the classification of exceptions of
  \<^verbatim>\<open>providers/core.py\<close>, \<open>Provider_Executor\<close> its two retry loops against an environment that answers
  as it likes; \<open>Provider_Safety\<close> proves their bounds in the locale \<open>retry_parts\<close>, interpreted on the
  synchronous and the asynchronous attempt, and the round trip of snapshots. The loops terminate
  because the attempts are counted and the poll interval of a valid policy is positive. \<open>Rerank\<close>
  models the circuit breaker and the response check of \<^verbatim>\<open>providers/rerank.py\<close> and the stage of
  \<^verbatim>\<open>rag/reranking.py\<close>; \<open>Rerank_Safety\<close> proves that only one probe is in flight under any
  interleaving of calls (\<open>circuit_step\<close>) and what the stage returns. Seconds are rationals.

  \<^bold>\<open>Web research.\<close> \<open>Url_Policy\<close> models the policy of \<^verbatim>\<open>web_research/url_policy.py\<close> against request forgery;
  \<open>Url_Safety\<close> proves its dot-segment loop equal to a stack of segments, its encoding canonical, and
  every target that it resolves safe. The classification of addresses and the parsers of URLs and of
  IDNA names are those of the Python library, given as the record \<open>net_lib\<close>.

  \<^bold>\<open>Not modelled.\<close> The asynchronous execution of the agent and the clients of embedding and chat
  models drive libraries (LangGraph, httpx) whose code is not in the repository; document indexing
  is an adapter of Milvus and of file formats; recall, evaluation, the fetching of web pages, the SQL assistant
  and the HTTP routes are left for later.
\<close>

end
